(* ===== verification/Prelude.thy ===== *)
theory Prelude
  imports Main "HOL-Library.Multiset" "HOL-Library.Char_ord" "HOL-Library.List_Lexorder"
    "HOL-Library.Sublist"
begin

text \<open>
  What every component of the development shares: the type of fallible results, the names of
  the types that stand for Go's strings, slices and clock values, the collections of rewrite
  rules the component proofs use, and generic facts about lists.

  Go strings are byte sequences, so \<^typ>\<open>string\<close> (a list of 8-bit characters) is used for them
  throughout: \<^term>\<open>length\<close> is Go's \<^verbatim>\<open>len\<close>, and the order on strings is the bytewise
  lexicographic order of Go's comparison operators.
\<close>

named_theorems text_simps "computation rules of the modelled string functions"
named_theorems hdr_simps "computation rules of HTTP header operations"
named_theorems route_simps "frame rules: what an operation leaves unchanged in a route"

text \<open>A call that returns a value and an error returns exactly one of the two in this program,
  except where a definition says otherwise.\<close>

type_synonym ('e, 'a) result = "'e + 'a"

abbreviation Error :: "'e \<Rightarrow> ('e, 'a) result" where
  "Error \<equiv> Inl"

abbreviation Ok :: "'a \<Rightarrow> ('e, 'a) result" where
  "Ok \<equiv> Inr"

text \<open>Instants and durations in nanoseconds. \<^term>\<open>0 :: int\<close> as an instant is Go's zero
  \<^verbatim>\<open>time.Time\<close>, the one for which \<^verbatim>\<open>IsZero\<close> holds.\<close>

type_synonym time = int
type_synonym duration = int

definition second :: duration where
  "second = 1000000000"

definition hour :: duration where
  "hour = 3600 * second"

subsection \<open>Lists\<close>

lemma takeWhile_neq_notin [simp]: "c \<notin> set (takeWhile (\<lambda>x. x \<noteq> c) xs)"
  by (induction xs) auto

lemma find_Some_first:
  "find P xs = Some x \<Longrightarrow> \<exists>us vs. xs = us @ x # vs \<and> P x \<and> (\<forall>u \<in> set us. \<not> P u)"
proof (induction xs)
  case Nil
  then show ?case by simp
next
  case (Cons y ys)
  show ?case
  proof (cases "P y")
    case True
    with Cons.prems show ?thesis by (intro exI [of _ "[]"] exI [of _ ys]) simp
  next
    case False
    with Cons.prems have "find P ys = Some x" by simp
    then obtain us vs where "ys = us @ x # vs" "P x" "\<forall>u \<in> set us. \<not> P u"
      using Cons.IH by blast
    with False show ?thesis by (intro exI [of _ "y # us"] exI [of _ vs]) simp
  qed
qed

lemma find_append: "find P (xs @ ys) = (case find P xs of None \<Rightarrow> find P ys | Some x \<Rightarrow> Some x)"
  by (induction xs) auto

lemma find_cong_set: "(\<And>x. x \<in> set xs \<Longrightarrow> P x = Q x) \<Longrightarrow> find P xs = find Q xs"
  by (induction xs) auto

lemma sort_eq_iff_mset: "sort xs = sort ys \<longleftrightarrow> mset xs = mset ys"
  by (metis mset_sort properties_for_sort sorted_sort)

lemma split_list_last_occ:
  assumes "x \<in> set xs" "P x"
  shows "\<exists>us y vs. xs = us @ y # vs \<and> P y \<and> (\<forall>v \<in> set vs. \<not> P v)"
  using split_list_last_prop [of xs P] assms by blast

end
