(* ===== verification/Go_Text.thy ===== *)
theory Go_Text
  imports Prelude
begin

text \<open>
  The functions of Go's standard library packages \<^verbatim>\<open>strings\<close>, \<^verbatim>\<open>strconv\<close>, \<^verbatim>\<open>bufio\<close> and \<^verbatim>\<open>net\<close>
  that the program calls on text, at the byte level.

  Non-ASCII text. \<^verbatim>\<open>strings.TrimSpace\<close> and \<^verbatim>\<open>strings.Fields\<close> treat the Unicode white space runes
  as space; their UTF-8 encodings are written out below, and since none of the lead bytes of these
  encodings is a continuation byte, matching them at the byte level agrees with Go's decoding.
  \<^verbatim>\<open>strings.ToLower\<close> is used by the program only to compare its result with ASCII text (directive
  names, and map keys that passed the check of domain names). Exactly two non-ASCII runes
  have an ASCII lower case: U+0130 (to i) and U+212A (to k). \<open>to_lower\<close> maps those two and leaves
  every other non-ASCII byte alone, so it agrees with Go's function on every ASCII string, and it
  equals a given ASCII string exactly when Go's result does.
\<close>

subsection \<open>Characters\<close>

definition is_upper :: "char \<Rightarrow> bool" where
  "is_upper c \<longleftrightarrow> CHR ''A'' \<le> c \<and> c \<le> CHR ''Z''"

definition is_lower :: "char \<Rightarrow> bool" where
  "is_lower c \<longleftrightarrow> CHR ''a'' \<le> c \<and> c \<le> CHR ''z''"

definition is_digit :: "char \<Rightarrow> bool" where
  "is_digit c \<longleftrightarrow> CHR ''0'' \<le> c \<and> c \<le> CHR ''9''"

definition lower_char :: "char \<Rightarrow> char" where
  "lower_char c = (if is_upper c then char_of (of_char c + 32 :: nat) else c)"

definition upper_char :: "char \<Rightarrow> char" where
  "upper_char c = (if is_lower c then char_of (of_char c - 32 :: nat) else c)"

definition ascii_char :: "char \<Rightarrow> bool" where
  "ascii_char c \<longleftrightarrow> of_char c < (128 :: nat)"

subsection \<open>strings.ToLower\<close>

fun to_lower :: "string \<Rightarrow> string" where
  "to_lower [] = []"
| "to_lower [a] = [lower_char a]"
| "to_lower [a, b] =
     (if a = CHR 0xC4 \<and> b = CHR 0xB0 then ''i'' else [lower_char a, lower_char b])"
| "to_lower (a # b # c # cs) =
     (if a = CHR 0xC4 \<and> b = CHR 0xB0 then CHR ''i'' # to_lower (c # cs)
      else if a = CHR 0xE2 \<and> b = CHR 0x84 \<and> c = CHR 0xAA then CHR ''k'' # to_lower cs
      else lower_char a # to_lower (b # c # cs))"

subsection \<open>White space: strings.TrimSpace and strings.Fields\<close>

definition ascii_space :: "char \<Rightarrow> bool" where
  "ascii_space c \<longleftrightarrow>
     c = CHR '' '' \<or> c = CHR 0x09 \<or> c = CHR 0x0A \<or> c = CHR 0x0B \<or> c = CHR 0x0C \<or> c = CHR 0x0D"

definition space2 :: "char \<Rightarrow> char \<Rightarrow> bool" where
  "space2 a b \<longleftrightarrow> a = CHR 0xC2 \<and> (b = CHR 0x85 \<or> b = CHR 0xA0)"

definition space3 :: "char \<Rightarrow> char \<Rightarrow> char \<Rightarrow> bool" where
  "space3 a b c \<longleftrightarrow>
     a = CHR 0xE1 \<and> b = CHR 0x9A \<and> c = CHR 0x80 \<or>
     a = CHR 0xE2 \<and> b = CHR 0x80 \<and>
       (CHR 0x80 \<le> c \<and> c \<le> CHR 0x8A \<or> c = CHR 0xA8 \<or> c = CHR 0xA9 \<or> c = CHR 0xAF) \<or>
     a = CHR 0xE2 \<and> b = CHR 0x81 \<and> c = CHR 0x9F \<or>
     a = CHR 0xE3 \<and> b = CHR 0x80 \<and> c = CHR 0x80"

text \<open>The number of bytes of the white space rune at the front of a string, 0 if there is none.\<close>

fun space_len :: "string \<Rightarrow> nat" where
  "space_len [] = 0"
| "space_len [a] = (if ascii_space a then 1 else 0)"
| "space_len [a, b] = (if ascii_space a then 1 else if space2 a b then 2 else 0)"
| "space_len (a # b # c # cs) =
     (if ascii_space a then 1 else if space2 a b then 2 else if space3 a b c then 3 else 0)"

text \<open>The same at the end of a string, read from the last byte backwards.\<close>

fun space_len_rev :: "string \<Rightarrow> nat" where
  "space_len_rev [] = 0"
| "space_len_rev [a] = (if ascii_space a then 1 else 0)"
| "space_len_rev [b, a] = (if ascii_space b then 1 else if space2 a b then 2 else 0)"
| "space_len_rev (c # b # a # cs) =
     (if ascii_space c then 1 else if space2 b c then 2 else if space3 a b c then 3 else 0)"

lemma space_len_le: "space_len s \<le> length s"
  by (induction s rule: space_len.induct) auto

lemma space_len_rev_le: "space_len_rev s \<le> length s"
  by (induction s rule: space_len_rev.induct) auto

function trim_left :: "string \<Rightarrow> string" where
  "trim_left s = (if space_len s = 0 then s else trim_left (drop (space_len s) s))"
  by pat_completeness auto
termination
proof (relation "measure length")
  fix s :: string
  assume "space_len s \<noteq> 0"
  moreover have "space_len s \<le> length s" by (rule space_len_le)
  ultimately show "(drop (space_len s) s, s) \<in> measure length" by simp
qed simp

function trim_rev :: "string \<Rightarrow> string" where
  "trim_rev s = (if space_len_rev s = 0 then s else trim_rev (drop (space_len_rev s) s))"
  by pat_completeness auto
termination
proof (relation "measure length")
  fix s :: string
  assume "space_len_rev s \<noteq> 0"
  moreover have "space_len_rev s \<le> length s" by (rule space_len_rev_le)
  ultimately show "(drop (space_len_rev s) s, s) \<in> measure length" by simp
qed simp

declare trim_left.simps [simp del] trim_rev.simps [simp del]

definition trim_space :: "string \<Rightarrow> string" where
  "trim_space s = rev (trim_rev (rev (trim_left s)))"

text \<open>\<open>str_fields_acc w s\<close>: the fields of \<open>s\<close> when the bytes of \<open>w\<close> (reversed) belong to
  the field being read.\<close>

function str_fields_acc :: "string \<Rightarrow> string \<Rightarrow> string list" where
  "str_fields_acc w [] = (if w = [] then [] else [rev w])"
| "str_fields_acc w (c # cs) =
     (if space_len (c # cs) = 0 then str_fields_acc (c # w) cs
      else (if w = [] then [] else [rev w]) @ str_fields_acc [] (drop (space_len (c # cs)) (c # cs)))"
  by pat_completeness auto
termination
proof (relation "measure (\<lambda>(w, s). length s)")
  fix w :: string and c :: char and cs :: string
  assume "space_len (c # cs) \<noteq> 0"
  moreover have "space_len (c # cs) \<le> length (c # cs)" by (rule space_len_le)
  ultimately show "(([], drop (space_len (c # cs)) (c # cs)), (w, c # cs))
      \<in> measure (\<lambda>(w, s). length s)" by simp
qed simp_all

declare str_fields_acc.simps(2) [simp del]

definition str_fields :: "string \<Rightarrow> string list" where
  "str_fields s = str_fields_acc [] s"

subsection \<open>strings.Cut, Split, SplitN, Join, Count\<close>

text \<open>All separators in the program are single bytes. \<open>cut c s\<close> is the text before the first
  \<open>c\<close>, the text after it, and whether there is one.\<close>

fun cut :: "char \<Rightarrow> string \<Rightarrow> string \<times> string \<times> bool" where
  "cut c [] = ([], [], False)"
| "cut c (x # xs) =
     (if x = c then ([], xs, True)
      else (case cut c xs of (a, b, f) \<Rightarrow> (x # a, b, f)))"

fun split_on :: "char \<Rightarrow> string \<Rightarrow> string list" where
  "split_on c [] = [[]]"
| "split_on c (x # xs) =
     (if x = c then [] # split_on c xs
      else (case split_on c xs of [] \<Rightarrow> [[x]] | y # ys \<Rightarrow> (x # y) # ys))"

text \<open>\<^verbatim>\<open>SplitN\<close> with a positive limit; the last part holds the unsplit remainder.\<close>

fun split_n :: "char \<Rightarrow> nat \<Rightarrow> string \<Rightarrow> string list" where
  "split_n c 0 s = []"
| "split_n c (Suc 0) s = [s]"
| "split_n c (Suc (Suc n)) s =
     (case cut c s of (a, b, f) \<Rightarrow> if f then a # split_n c (Suc n) b else [s])"

fun join :: "string \<Rightarrow> string list \<Rightarrow> string" where
  "join sep [] = []"
| "join sep [x] = x"
| "join sep (x # y # ys) = x @ sep @ join sep (y # ys)"

definition count_char :: "char \<Rightarrow> string \<Rightarrow> nat" where
  "count_char c s = length (filter (\<lambda>x. x = c) s)"

definition contains_char :: "char \<Rightarrow> string \<Rightarrow> bool" where
  "contains_char c s \<longleftrightarrow> c \<in> set s"

text \<open>\<^verbatim>\<open>TrimSuffix(s, t)\<close>: \<open>s\<close> without the suffix \<open>t\<close>, or \<open>s\<close> where \<open>t\<close> is no suffix of it.\<close>

definition has_suffix :: "string \<Rightarrow> string \<Rightarrow> bool" where
  "has_suffix s t \<longleftrightarrow> length t \<le> length s \<and> drop (length s - length t) s = t"

definition trim_suffix :: "string \<Rightarrow> string \<Rightarrow> string" where
  "trim_suffix s t = (if has_suffix s t then take (length s - length t) s else s)"

subsection \<open>strconv.Atoi\<close>

fun digits_value :: "nat \<Rightarrow> string \<Rightarrow> nat option" where
  "digits_value n [] = Some n"
| "digits_value n (c # cs) =
     (if is_digit c then digits_value (10 * n + (of_char c - 48)) cs else None)"

text \<open>An optional sign and at least one decimal digit, with a value that fits a signed 64-bit
  integer.\<close>

definition atoi :: "string \<Rightarrow> int option" where
  "atoi s =
     (let neg = (case s of c # _ \<Rightarrow> c = CHR ''-'' | [] \<Rightarrow> False);
          body = (case s of c # cs \<Rightarrow> if c = CHR ''-'' \<or> c = CHR ''+'' then cs else s | [] \<Rightarrow> s)
      in if body = [] then None
         else case digits_value 0 body of
                None \<Rightarrow> None
              | Some n \<Rightarrow>
                  if neg then (if int n \<le> 2 ^ 63 then Some (- int n) else None)
                  else (if int n < 2 ^ 63 then Some (int n) else None))"

subsection \<open>bufio.Scanner with ScanLines\<close>

text \<open>One carriage return at the end of a line is dropped.\<close>

definition drop_cr :: "string \<Rightarrow> string" where
  "drop_cr l = (if l \<noteq> [] \<and> last l = CHR 0x0D then butlast l else l)"

text \<open>The scanner's buffer holds at most 64 KiB; a line that does not fit together with its
  terminator (or with the free byte needed to notice the end of the input) stops it.\<close>

definition max_token :: nat where
  "max_token = 65536"

text \<open>\<open>scan_acc n w s\<close>: the lines of \<open>s\<close> when \<open>w\<close> (reversed, of length \<open>n\<close>) is the
  beginning of the current line, and whether the scanner stopped at a line that is too long.\<close>

fun scan_acc :: "nat \<Rightarrow> string \<Rightarrow> string \<Rightarrow> string list \<times> bool" where
  "scan_acc n w [] =
     (if max_token \<le> n then ([], True) else if w = [] then ([], False) else ([drop_cr (rev w)], False))"
| "scan_acc n w (c # cs) =
     (if max_token \<le> n then ([], True)
      else if c = CHR 0x0A then (case scan_acc 0 [] cs of (ls, b) \<Rightarrow> (drop_cr (rev w) # ls, b))
      else scan_acc (Suc n) (c # w) cs)"

definition scan_lines :: "string \<Rightarrow> string list \<times> bool" where
  "scan_lines s = scan_acc 0 [] s"

subsection \<open>net.SplitHostPort\<close>

datatype addr_error = MissingPort | TooManyColons | MissingBracket | UnexpectedBracket

definition index_of :: "char \<Rightarrow> string \<Rightarrow> nat option" where
  "index_of c s = (let n = length (takeWhile (\<lambda>x. x \<noteq> c) s) in if n < length s then Some n else None)"

definition last_index_of :: "char \<Rightarrow> string \<Rightarrow> nat option" where
  "last_index_of c s = map_option (\<lambda>n. length s - 1 - n) (index_of c (rev s))"

definition split_host_port :: "string \<Rightarrow> (addr_error, string \<times> string) result" where
  "split_host_port hp =
     (case last_index_of CHR '':'' hp of
        None \<Rightarrow> Error MissingPort
      | Some i \<Rightarrow>
          (let finish = (\<lambda>host j k.
                 if CHR ''['' \<in> set (drop j hp) then Error UnexpectedBracket
                 else if CHR '']'' \<in> set (drop k hp) then Error UnexpectedBracket
                 else Ok (host, drop (Suc i) hp))
           in if hd hp = CHR ''['' then
                (case index_of CHR '']'' hp of
                   None \<Rightarrow> Error MissingBracket
                 | Some e \<Rightarrow>
                     if Suc e = length hp then Error MissingPort
                     else if Suc e = i then finish (drop 1 (take e hp)) 1 (Suc e)
                     else if hp ! Suc e = CHR '':'' then Error TooManyColons
                     else Error MissingPort)
              else if CHR '':'' \<in> set (take i hp) then Error TooManyColons
              else finish (take i hp) 0 0))"

text \<open>The host a request was for: the host without its port where there is one. The same code
  is written three times in the program (\<^verbatim>\<open>Rewriter.hostForRequest\<close>,
  \<^verbatim>\<open>DomainRedirector.hostForRequest\<close>, \<^verbatim>\<open>HttpRedirector.ServeHTTP\<close>).\<close>

definition strip_port :: "string \<Rightarrow> string" where
  "strip_port h = (case split_host_port h of Inl _ \<Rightarrow> h | Inr (host, _) \<Rightarrow> host)"

subsection \<open>Laws of the text functions\<close>

lemma is_upper_nat: "is_upper c \<longleftrightarrow> 65 \<le> (of_char c :: nat) \<and> of_char c \<le> (90 :: nat)"
  by (simp add: is_upper_def less_eq_char_def)

lemma is_lower_nat: "is_lower c \<longleftrightarrow> 97 \<le> (of_char c :: nat) \<and> of_char c \<le> (122 :: nat)"
  by (simp add: is_lower_def less_eq_char_def)

lemma is_digit_nat: "is_digit c \<longleftrightarrow> 48 \<le> (of_char c :: nat) \<and> of_char c \<le> (57 :: nat)"
  by (simp add: is_digit_def less_eq_char_def)

lemmas char_nat = is_upper_nat is_lower_nat is_digit_nat ascii_char_def

lemma of_char_lower:
  "(of_char (lower_char c) :: nat) = (if is_upper c then of_char c + 32 else of_char c)"
  by (simp add: lower_char_def is_upper_nat)

lemma not_is_upper_lower_char [simp]: "\<not> is_upper (lower_char c)"
  by (auto simp: is_upper_nat of_char_lower)

lemma lower_char_idem [simp]: "lower_char (lower_char c) = lower_char c"
  by (subst lower_char_def) simp

lemma lower_char_id: "\<not> is_upper c \<Longrightarrow> lower_char c = c"
  by (simp add: lower_char_def)

lemma ascii_char_neq [simp]:
  "ascii_char c \<Longrightarrow> c \<noteq> CHR 0xC4" "ascii_char c \<Longrightarrow> c \<noteq> CHR 0xE2"
  by (auto simp: ascii_char_def)

lemma to_lower_ascii: "list_all ascii_char s \<Longrightarrow> to_lower s = map lower_char s"
  by (induction s rule: to_lower.induct) auto

lemma to_lower_id: "list_all ascii_char s \<Longrightarrow> list_all (\<lambda>c. \<not> is_upper c) s \<Longrightarrow> to_lower s = s"
  by (simp add: to_lower_ascii) (induction s, auto simp: lower_char_id)

lemma to_lower_Cons_single:
  "a \<noteq> CHR 0xC4 \<Longrightarrow> a \<noteq> CHR 0xE2 \<Longrightarrow> to_lower (a # s) = lower_char a # to_lower s"
  by (cases s rule: to_lower.cases) (auto simp: to_lower.simps)

declare to_lower.simps [simp del]

lemma to_lower_Nil [simp]: "to_lower [] = []"
  by (simp add: to_lower.simps)

lemma cut_eq:
  "cut c s = (takeWhile (\<lambda>x. x \<noteq> c) s, drop 1 (dropWhile (\<lambda>x. x \<noteq> c) s), c \<in> set s)"
  by (induction s) (auto split: prod.splits)

lemma cut_found: "cut c (a @ c # b) = (a, b, True)" if "c \<notin> set a"
  using that by (induction a) auto

lemma cut_not_found: "c \<notin> set s \<Longrightarrow> cut c s = (s, [], False)"
  by (induction s) auto

lemma split_on_neq_Nil [simp]: "split_on c s \<noteq> []"
  by (induction s) (auto split: list.splits)

lemma split_on_no_sep: "x \<in> set (split_on c s) \<Longrightarrow> c \<notin> set x"
  by (induction s arbitrary: x) (auto split: list.splits if_splits)

lemma split_on_sublist: "x \<in> set (split_on c s) \<Longrightarrow> set x \<subseteq> set s"
  by (induction s arbitrary: x) (fastforce split: list.splits if_splits)+

lemma split_on_single [simp]: "c \<notin> set s \<Longrightarrow> split_on c s = [s]"
  by (induction s) auto

lemma split_on_append: "c \<notin> set a \<Longrightarrow> split_on c (a @ c # b) = a # split_on c b"
  by (induction a) auto

lemma join_Cons: "xs \<noteq> [] \<Longrightarrow> join sep (x # xs) = x @ sep @ join sep xs"
  by (cases xs) auto

lemma join_split: "join [c] (split_on c s) = s"
proof (induction s)
  case Nil
  then show ?case by simp
next
  case (Cons x s)
  obtain y ys where yys: "split_on c s = y # ys"
    using split_on_neq_Nil [of c s] by (cases "split_on c s") auto
  with Cons.IH show ?case
    by (cases ys) (auto simp: join_Cons)
qed

lemma split_join:
  "xs \<noteq> [] \<Longrightarrow> \<forall>x \<in> set xs. c \<notin> set x \<Longrightarrow> split_on c (join [c] xs) = xs"
proof (induction xs)
  case Nil
  then show ?case by simp
next
  case (Cons x xs)
  then show ?case
    by (cases "xs = []") (auto simp: join_Cons split_on_append)
qed

text \<open>Joining with a separator byte is injective on non-empty lists of names without it.\<close>

lemma join_inject:
  assumes "xs \<noteq> []" "ys \<noteq> []"
    and "\<forall>x \<in> set xs. c \<notin> set x" "\<forall>y \<in> set ys. c \<notin> set y"
  shows "join [c] xs = join [c] ys \<longleftrightarrow> xs = ys"
  using split_join [OF assms(1,3)] split_join [OF assms(2,4)] by metis

lemma has_suffix_iff: "has_suffix s t \<longleftrightarrow> (\<exists>p. s = p @ t)"
proof
  assume "has_suffix s t"
  then have "s = take (length s - length t) s @ t"
    by (metis append_take_drop_id has_suffix_def)
  then show "\<exists>p. s = p @ t" ..
qed (auto simp: has_suffix_def)

lemma trim_suffix_append [simp]: "trim_suffix (p @ t) t = p"
  by (simp add: trim_suffix_def has_suffix_def)

lemma trim_suffix_neq: "trim_suffix s t \<noteq> s \<longleftrightarrow> t \<noteq> [] \<and> (\<exists>p. s = p @ t)"
  by (auto simp: trim_suffix_def has_suffix_iff)

lemma count_char_0: "count_char c s = 0 \<longleftrightarrow> c \<notin> set s"
  by (auto simp: count_char_def filter_empty_conv)

lemma index_of_None: "index_of c s = None \<longleftrightarrow> c \<notin> set s"
proof -
  have "length (takeWhile (\<lambda>x. x \<noteq> c) s) < length s \<longleftrightarrow> c \<in> set s"
    by (induction s) auto
  then show ?thesis by (auto simp: index_of_def Let_def)
qed

lemma strip_port_no_colon: "CHR '':'' \<notin> set h \<Longrightarrow> strip_port h = h"
proof -
  assume "CHR '':'' \<notin> set h"
  then have "index_of CHR '':'' (rev h) = None" by (simp add: index_of_None)
  then show ?thesis by (simp add: strip_port_def split_host_port_def last_index_of_def)
qed

lemma index_of_append: "c \<notin> set a \<Longrightarrow> index_of c (a @ c # b) = Some (length a)"
proof -
  assume "c \<notin> set a"
  then have "takeWhile (\<lambda>x. x \<noteq> c) (a @ c # b) = a" by (induction a) auto
  then show ?thesis by (simp add: index_of_def)
qed

lemma last_index_of_append: "c \<notin> set b \<Longrightarrow> last_index_of c (a @ c # b) = Some (length a)"
  by (simp add: last_index_of_def index_of_append)

text \<open>A plain host followed by a port: the port is removed.\<close>

lemma strip_port_append:
  assumes "h \<noteq> []" "CHR '':'' \<notin> set h" "CHR ''['' \<notin> set h" "CHR '']'' \<notin> set h"
    and "CHR '':'' \<notin> set p" "CHR ''['' \<notin> set p" "CHR '']'' \<notin> set p"
  shows "strip_port (h @ '':'' @ p) = h"
proof -
  from assms(1,3) have "hd (h @ CHR '':'' # p) \<noteq> CHR ''[''" by (cases h) auto
  with assms show ?thesis
    by (simp add: strip_port_def split_host_port_def last_index_of_append)
qed

subsection \<open>Formatting\<close>

text \<open>\<^verbatim>\<open>fmt.Sprintf\<close> with \<^verbatim>\<open>%d\<close> and \<^verbatim>\<open>%t\<close>.\<close>

fun dec_nat :: "nat \<Rightarrow> string" where
  "dec_nat n = (if n < 10 then [char_of (48 + n)] else dec_nat (n div 10) @ [char_of (48 + n mod 10)])"

definition format_d :: "int \<Rightarrow> string" where
  "format_d i = (if i < 0 then CHR ''-'' # dec_nat (nat (- i)) else dec_nat (nat i))"

definition format_t :: "bool \<Rightarrow> string" where
  "format_t b = (if b then ''true'' else ''false'')"

text \<open>The decimal representation can be read back, so different statuses have different labels.\<close>

lemma digits_value_append:
  "digits_value a (xs @ ys) = (case digits_value a xs of None \<Rightarrow> None | Some m \<Rightarrow> digits_value m ys)"
  by (induction xs arbitrary: a) auto

lemma digits_value_digit: "m < 10 \<Longrightarrow> digits_value a [char_of (48 + m)] = Some (10 * a + m)" for m :: nat
  by (simp add: is_digit_nat)

lemma digits_value_dec: "digits_value 0 (dec_nat n) = Some n"
proof (induction n rule: less_induct)
  case (less n)
  show ?case
  proof (cases "n < 10")
    case True
    then show ?thesis using digits_value_digit [of n 0] by simp
  next
    case False
    then have "digits_value 0 (dec_nat (n div 10)) = Some (n div 10)" using less by simp
    with False show ?thesis
      using digits_value_digit [of "n mod 10" "n div 10"]
      by (subst dec_nat.simps) (simp add: digits_value_append del: dec_nat.simps digits_value.simps)
  qed
qed

lemma format_d_502: "format_d 502 = ''502''"
  by code_simp

end
