(* ===== verification/Domain_Names.thy ===== *)
theory Domain_Names
  imports Go_Text
begin

text \<open>
  \<^verbatim>\<open>proxy/domains.go\<close>: the one-pass check that a string is a domain name, and its equivalence
  with a definition in terms of the name's labels.
\<close>

subsection \<open>The scanner\<close>

definition domain_letter :: "char \<Rightarrow> bool" where
  "domain_letter c \<longleftrightarrow> is_lower c \<or> is_upper c \<or> c = CHR ''_''"

text \<open>The loop: the byte before the current one, whether a letter or hyphen has been seen, and
  the length of the current label.\<close>

fun isDomainName_loop :: "char \<Rightarrow> bool \<Rightarrow> nat \<Rightarrow> string \<Rightarrow> bool" where
  "isDomainName_loop prev nonNumeric partlen [] =
     (if prev = CHR ''-'' \<or> 63 < partlen then False else nonNumeric)"
| "isDomainName_loop prev nonNumeric partlen (c # cs) =
     (if domain_letter c then isDomainName_loop c True (Suc partlen) cs
      else if is_digit c then isDomainName_loop c nonNumeric (Suc partlen) cs
      else if c = CHR ''-'' then
        (if prev = CHR ''.'' then False else isDomainName_loop c True (Suc partlen) cs)
      else if c = CHR ''.'' then
        (if prev = CHR ''.'' \<or> prev = CHR ''-'' then False
         else if 63 < partlen \<or> partlen = 0 then False
         else isDomainName_loop c nonNumeric 0 cs)
      else False)"

definition isDomainName :: "string \<Rightarrow> bool" where
  "isDomainName s =
     (let l = length s in
      if l = 0 \<or> 254 < l \<or> (l = 254 \<and> s ! (l - 1) \<noteq> CHR ''.'') then False
      else isDomainName_loop CHR ''.'' False 0 s)"

subsection \<open>The specification: labels separated by dots\<close>

definition label_char :: "char \<Rightarrow> bool" where
  "label_char c \<longleftrightarrow> domain_letter c \<or> is_digit c \<or> c = CHR ''-''"

definition valid_label :: "string \<Rightarrow> bool" where
  "valid_label l \<longleftrightarrow>
     l \<noteq> [] \<and> length l \<le> 63 \<and> list_all label_char l \<and> hd l \<noteq> CHR ''-'' \<and> last l \<noteq> CHR ''-''"

text \<open>Every label is valid, except that the last one may be empty (a trailing dot).\<close>

definition labels_ok :: "string list \<Rightarrow> bool" where
  "labels_ok ls \<longleftrightarrow> list_all valid_label (butlast ls) \<and> (last ls = [] \<or> valid_label (last ls))"

definition without_root_dot :: "string \<Rightarrow> string" where
  "without_root_dot s = (if s \<noteq> [] \<and> last s = CHR ''.'' then butlast s else s)"

definition domain_name :: "string \<Rightarrow> bool" where
  "domain_name s \<longleftrightarrow>
     length (without_root_dot s) \<le> 253 \<and> labels_ok (split_on CHR ''.'' s) \<and>
     (\<exists>c \<in> set s. domain_letter c \<or> c = CHR ''-'')"

subsection \<open>The scanner implements the specification\<close>

lemma label_char_not_dot [simp]: "\<not> label_char CHR ''.''"
  by (simp add: label_char_def domain_letter_def char_nat)

lemma domain_letter_not_dot [simp]: "\<not> domain_letter CHR ''.''" "\<not> is_digit CHR ''.''"
  by (simp_all add: domain_letter_def char_nat)

lemma domain_letter_not_dash [simp]: "\<not> domain_letter CHR ''-''" "\<not> is_digit CHR ''-''"
  by (simp_all add: domain_letter_def char_nat)

lemma digit_not_letter [simp]: "is_digit c \<Longrightarrow> \<not> domain_letter c"
  by (auto simp: domain_letter_def char_nat)

lemma labels_ok_Cons [simp]: "ls \<noteq> [] \<Longrightarrow> labels_ok (l # ls) \<longleftrightarrow> valid_label l \<and> labels_ok ls"
  by (auto simp: labels_ok_def)

lemma labels_ok_single [simp]: "labels_ok [l] \<longleftrightarrow> l = [] \<or> valid_label l"
  by (simp add: labels_ok_def)

lemma labels_ok_head:
  "labels_ok (l # ls) \<Longrightarrow> l \<noteq> [] \<Longrightarrow> valid_label l"
  by (cases ls) auto

text \<open>The label being read, put in front of the labels of the rest.\<close>

definition prepend :: "string \<Rightarrow> string list \<Rightarrow> string list" where
  "prepend w ls = (case ls of [] \<Rightarrow> [w] | l # ls' \<Rightarrow> (w @ l) # ls')"

lemma prepend_split_Cons:
  "c \<noteq> CHR ''.'' \<Longrightarrow>
   prepend w (split_on CHR ''.'' (c # cs)) = prepend (w @ [c]) (split_on CHR ''.'' cs)"
  by (auto simp: prepend_def split: list.splits)

definition label_prefix :: "string \<Rightarrow> bool" where
  "label_prefix w \<longleftrightarrow> list_all label_char w \<and> (w \<noteq> [] \<longrightarrow> hd w \<noteq> CHR ''-'')"

lemma valid_label_iff_prefix:
  "valid_label w \<longleftrightarrow> w \<noteq> [] \<and> label_prefix w \<and> length w \<le> 63 \<and> last w \<noteq> CHR ''-''"
  by (auto simp: valid_label_def label_prefix_def)

lemma not_label_prefix_extend: "\<not> label_prefix w \<Longrightarrow> \<not> label_prefix (w @ v)"
  by (cases w) (auto simp: label_prefix_def)

lemma labels_ok_prepend_bad:
  assumes "\<not> label_prefix w"
  shows "\<not> labels_ok (prepend w ls)"
proof -
  from assms have "w \<noteq> []" by (auto simp: label_prefix_def)
  then show ?thesis
    using assms not_label_prefix_extend labels_ok_head
    by (fastforce simp: prepend_def valid_label_iff_prefix split: list.splits)
qed

definition last_byte :: "string \<Rightarrow> char" where
  "last_byte w = (if w = [] then CHR ''.'' else last w)"

lemma last_byte_snoc [simp]: "last_byte (w @ [c]) = c" "last_byte [] = CHR ''.''"
  by (simp_all add: last_byte_def)

lemma label_prefix_last_not_dot: "label_prefix w \<Longrightarrow> w \<noteq> [] \<Longrightarrow> last w \<noteq> CHR ''.''"
  by (metis label_char_not_dot label_prefix_def last_in_set list_all_iff)

text \<open>How the label so far goes on: with a letter or digit, with a hyphen unless it is empty, and with nothing else.\<close>

lemma label_prefix_snoc:
  assumes "label_prefix w"
  shows "label_prefix (w @ [c]) \<longleftrightarrow> domain_letter c \<or> is_digit c \<or> c = CHR ''-'' \<and> w \<noteq> []"
  using assms by (cases w) (auto simp: label_prefix_def label_char_def)

lemma labels_ok_stop:
  assumes "label_prefix w" "\<not> label_prefix (w @ [c])" "c \<noteq> CHR ''.''"
  shows "\<not> labels_ok (prepend w (split_on CHR ''.'' (c # cs)))"
  using labels_ok_prepend_bad [OF assms(2)] prepend_split_Cons [OF assms(3), of w cs] by simp

lemma last_byte_dot: "label_prefix w \<Longrightarrow> last_byte w = CHR ''.'' \<longleftrightarrow> w = []"
  using label_prefix_last_not_dot by (auto simp: last_byte_def)

lemma isDomainName_loop_spec:
  "label_prefix w \<Longrightarrow>
   isDomainName_loop (last_byte w) nn (length w) s \<longleftrightarrow>
     labels_ok (prepend w (split_on CHR ''.'' s)) \<and>
     (nn \<or> (\<exists>c \<in> set s. domain_letter c \<or> c = CHR ''-''))"
proof (induction s arbitrary: w nn)
  case Nil
  then show ?case
    by (auto simp: prepend_def valid_label_iff_prefix last_byte_def)
next
  case (Cons c cs)
  show ?case
  proof (cases "c = CHR ''.''")
    case True
    have "isDomainName_loop CHR ''.'' nn 0 cs \<longleftrightarrow>
        labels_ok (split_on CHR ''.'' cs) \<and> (nn \<or> (\<exists>c \<in> set cs. domain_letter c \<or> c = CHR ''-''))"
      using Cons.IH [of "[]" nn] split_on_neq_Nil [of "CHR ''.''" cs]
      by (auto simp: label_prefix_def prepend_def split: list.splits)
    with True Cons.prems show ?thesis
      using label_prefix_last_not_dot [OF Cons.prems]
      by (auto simp: prepend_def valid_label_iff_prefix last_byte_def)
  next
    case False
    have ext: "isDomainName_loop c nn' (Suc (length w)) cs \<longleftrightarrow>
        labels_ok (prepend w (split_on CHR ''.'' (c # cs))) \<and> (nn' \<or> (\<exists>c \<in> set cs. domain_letter c \<or> c = CHR ''-''))"
      if "label_prefix (w @ [c])" for nn'
      using Cons.IH [OF that, of nn'] prepend_split_Cons [OF False] by simp
    show ?thesis
    proof (cases "label_prefix (w @ [c])")
      case True
      then consider "domain_letter c" | "is_digit c" "c \<noteq> CHR ''-''" | "c = CHR ''-''" "w \<noteq> []"
        using label_prefix_snoc [OF Cons.prems, of c] by (cases "c = CHR ''-''") (auto simp: is_digit_def)
      then show ?thesis using ext [OF True] \<open>c \<noteq> CHR ''.''\<close> last_byte_dot [OF Cons.prems] by cases simp_all
    next
      case stop: False
      then have "\<not> domain_letter c" "\<not> is_digit c" "c = CHR ''-'' \<longrightarrow> last_byte w = CHR ''.''"
        using label_prefix_snoc [OF Cons.prems, of c] last_byte_dot [OF Cons.prems] by simp_all
      with labels_ok_stop [OF Cons.prems stop False, of cs] False show ?thesis by simp
    qed
  qed
qed

lemma isDomainName_length:
  "(length s = 0 \<or> 254 < length s \<or> (length s = 254 \<and> s ! (length s - 1) \<noteq> CHR ''.'')) \<longleftrightarrow>
   s = [] \<or> 253 < length (without_root_dot s)"
  by (auto simp: without_root_dot_def last_conv_nth)

lemma isDomainName_iff: "isDomainName s \<longleftrightarrow> domain_name s"
proof -
  have "isDomainName_loop CHR ''.'' False 0 s \<longleftrightarrow>
      labels_ok (split_on CHR ''.'' s) \<and> (\<exists>c \<in> set s. domain_letter c \<or> c = CHR ''-'')"
    using isDomainName_loop_spec [of "[]" False s] split_on_neq_Nil [of "CHR ''.''" s]
    by (auto simp: label_prefix_def prepend_def split: list.splits)
  then show ?thesis
    using isDomainName_length [of s] by (auto simp: isDomainName_def domain_name_def Let_def)
qed

subsection \<open>Consequences the other components use\<close>

lemma labels_ok_chars:
  "labels_ok ls \<Longrightarrow> l \<in> set ls \<Longrightarrow> list_all label_char l"
  by (induction ls rule: rev_induct)
    (auto simp: labels_ok_def valid_label_def list_all_iff)

lemma set_join_subset: "set (join [c] ls) \<subseteq> insert c (\<Union> (set ` set ls))"
proof (induction ls)
  case (Cons l ls)
  then show ?case by (cases "ls = []") (auto simp: join_Cons)
qed simp

lemma isDomainName_chars:
  assumes "isDomainName s" "c \<in> set s"
  shows "label_char c \<or> c = CHR ''.''"
proof -
  from assms(1) have "labels_ok (split_on CHR ''.'' s)"
    by (simp add: isDomainName_iff domain_name_def)
  then have "\<forall>l \<in> set (split_on CHR ''.'' s). list_all label_char l"
    using labels_ok_chars by blast
  moreover have "set s \<subseteq> insert CHR ''.'' (\<Union> (set ` set (split_on CHR ''.'' s)))"
    using set_join_subset [of "CHR ''.''" "split_on CHR ''.'' s"] by (simp add: join_split)
  ultimately show ?thesis using assms(2) by (auto simp: list_all_iff)
qed

lemma label_char_nat: "label_char c \<Longrightarrow> (of_char c :: nat) \<in> {45} \<union> {48..57} \<union> {65..90} \<union> {95} \<union> {97..122}"
  by (auto simp: label_char_def domain_letter_def char_nat)

lemma isDomainName_excludes:
  assumes "isDomainName s" "(of_char c :: nat) \<notin> {45, 46, 95} \<union> {48..57} \<union> {65..90} \<union> {97..122}"
  shows "c \<notin> set s"
  using isDomainName_chars [OF assms(1), of c] label_char_nat [of c] assms(2) by auto

lemma isDomainName_not_Nil [simp]: "\<not> isDomainName []"
  by (simp add: isDomainName_def)

lemma isDomainName_ascii: "isDomainName s \<Longrightarrow> list_all ascii_char s"
  using isDomainName_chars label_char_nat by (fastforce simp: list_all_iff ascii_char_def)

lemma isDomainName_hd: "isDomainName s \<Longrightarrow> hd s \<noteq> CHR ''.''"
  by (cases s) (auto simp: isDomainName_def Let_def split: if_splits)

lemma isDomainName_strip_port [simp]: "isDomainName s \<Longrightarrow> strip_port s = s"
  by (rule strip_port_no_colon) (rule isDomainName_excludes, simp_all)

text \<open>The check does not depend on the case of letters.\<close>

lemma domain_letter_lower_char [simp]: "domain_letter (lower_char c) = domain_letter c"
  by (auto simp: domain_letter_def lower_char_def char_nat)

lemma is_digit_lower_char [simp]: "is_digit (lower_char c) = is_digit c"
  by (auto simp: is_digit_nat of_char_lower is_upper_nat)

lemma is_lower_lower_char: "is_upper c \<Longrightarrow> is_lower (lower_char c)"
  by (simp add: is_lower_nat of_char_lower is_upper_nat)

lemma lower_char_eq_iff: "\<not> is_upper d \<Longrightarrow> \<not> is_lower d \<Longrightarrow> lower_char c = d \<longleftrightarrow> c = d"
  by (metis is_lower_lower_char lower_char_id)

lemma lower_char_eq_punct [simp]:
  "lower_char c = CHR ''-'' \<longleftrightarrow> c = CHR ''-''" "lower_char c = CHR ''.'' \<longleftrightarrow> c = CHR ''.''"
  by (simp_all add: lower_char_eq_iff char_nat)

lemma isDomainName_loop_lower:
  "isDomainName_loop (lower_char p) nn pl (map lower_char s) = isDomainName_loop p nn pl s"
  by (induction s arbitrary: p nn pl) simp_all

lemma isDomainName_map_lower: "isDomainName (map lower_char s) = isDomainName s"
proof -
  have "isDomainName_loop CHR ''.'' False 0 (map lower_char s) = isDomainName_loop CHR ''.'' False 0 s"
    using isDomainName_loop_lower [of "CHR ''.''" False 0 s] by (metis lower_char_eq_punct(2))
  then show ?thesis
    by (cases "s = []") (auto simp: isDomainName_def Let_def)
qed

lemma isDomainName_to_lower: "isDomainName s \<Longrightarrow> isDomainName (to_lower s)"
  by (simp add: to_lower_ascii isDomainName_ascii isDomainName_map_lower)

lemma to_lower_domain_idem:
  assumes "isDomainName s"
  shows "to_lower (to_lower s) = to_lower s"
proof -
  have "to_lower (to_lower s) = map lower_char (to_lower s)"
    by (intro to_lower_ascii isDomainName_ascii isDomainName_to_lower assms)
  also have "\<dots> = to_lower s"
    using assms by (simp add: to_lower_ascii isDomainName_ascii)
  finally show ?thesis .
qed

end
