(* ===== verification/Routes.thy ===== *)
theory Routes
  imports Domain_Names
begin

text \<open>
  \<^verbatim>\<open>proxy/route.go\<close>: routes, their upstreams, response header rules, error mappings and
  certificates.

  A route's certificate and its status are the only fields that change after the route has been
  built; both are atomics in the source and fields of the record here. Certificates are those
  of \<^verbatim>\<open>crypto/tls\<close>: the PEM chain and key they were made from, and the OCSP staple to serve.
\<close>

record TLSCertificate =
  tls_chain :: string
  tls_key :: string
  OCSPStaple :: string

datatype CertificateStatus =
    CertificateNotChecked
  | CertificateMissing
  | CertificateExpiringSoon
  | CertificateGood
  | CertificateNotRequired

text \<open>The constants are numbered by \<^verbatim>\<open>iota\<close>; the code compares them with \<^verbatim>\<open><=\<close>.\<close>

fun status_code :: "CertificateStatus \<Rightarrow> int" where
  "status_code CertificateNotChecked = 0"
| "status_code CertificateMissing = 1"
| "status_code CertificateExpiringSoon = 2"
| "status_code CertificateGood = 3"
| "status_code CertificateNotRequired = 4"

lemma status_code_inject [simp]: "status_code a = status_code b \<longleftrightarrow> a = b"
  by (cases a; cases b) auto

instantiation CertificateStatus :: linorder
begin

definition less_eq_CertificateStatus :: "CertificateStatus \<Rightarrow> CertificateStatus \<Rightarrow> bool" where
  "less_eq_CertificateStatus a b \<longleftrightarrow> status_code a \<le> status_code b"

definition less_CertificateStatus :: "CertificateStatus \<Rightarrow> CertificateStatus \<Rightarrow> bool" where
  "less_CertificateStatus a b \<longleftrightarrow> status_code a < status_code b"

instance
  by standard (auto simp: less_eq_CertificateStatus_def less_CertificateStatus_def
      simp flip: status_code_inject)

end

datatype HeaderOp = HeaderOpDelete | HeaderOpAdd | HeaderOpReplace | HeaderOpDefault

record Header =
  Name :: string
  Value :: string
  Operation :: HeaderOp

record Upstream =
  Host :: string

record ErrorMapping =
  Status :: int
  em_Upstream :: string
  em_Path :: string
  em_RawQuery :: string

record Route =
  Domains :: "string list"
  Upstreams :: "Upstream list"
  Subject :: "string list"
  Headers :: "Header list"
  ErrorMappings :: "ErrorMapping list"
  Provider :: string
  RedirectToPrimary :: bool
  certificate :: "TLSCertificate option"
  certificateStatus :: CertificateStatus

definition Certificate :: "Route \<Rightarrow> TLSCertificate option" where
  "Certificate r = certificate r"

definition setCertificate :: "TLSCertificate option \<Rightarrow> Route \<Rightarrow> Route" where
  "setCertificate c r = r\<lparr>certificate := c\<rparr>"

definition setCertificateStatus :: "CertificateStatus \<Rightarrow> Route \<Rightarrow> Route" where
  "setCertificateStatus st r = r\<lparr>certificateStatus := st\<rparr>"

text \<open>The names a certificate is requested for: the first name and the others. \<^const>\<open>None\<close> stands
  for the panic of indexing an empty slice.\<close>

definition CertificateNames :: "Route \<Rightarrow> (string \<times> string list) option" where
  "CertificateNames r =
     (case Subject r of
        s # ss \<Rightarrow> Some (s, ss)
      | [] \<Rightarrow> (case Domains r of d # ds \<Rightarrow> Some (d, ds) | [] \<Rightarrow> None))"

fun find_mapping :: "int \<Rightarrow> ErrorMapping list \<Rightarrow> ErrorMapping option" where
  "find_mapping status [] = None"
| "find_mapping status (m # ms) = (if Status m = status then Some m else find_mapping status ms)"

definition ErrorMappingForStatus :: "Route \<Rightarrow> int \<Rightarrow> ErrorMapping option" where
  "ErrorMappingForStatus r status = find_mapping status (ErrorMappings r)"

subsection \<open>Facts\<close>

lemma setCertificate_frame [route_simps]:
  "Domains (setCertificate c r) = Domains r" "Upstreams (setCertificate c r) = Upstreams r"
  "Subject (setCertificate c r) = Subject r" "Headers (setCertificate c r) = Headers r"
  "ErrorMappings (setCertificate c r) = ErrorMappings r" "Provider (setCertificate c r) = Provider r"
  "RedirectToPrimary (setCertificate c r) = RedirectToPrimary r"
  "certificateStatus (setCertificate c r) = certificateStatus r"
  "certificate (setCertificate c r) = c"
  by (simp_all add: setCertificate_def)

lemma setCertificateStatus_frame [route_simps]:
  "Domains (setCertificateStatus st r) = Domains r" "Upstreams (setCertificateStatus st r) = Upstreams r"
  "Subject (setCertificateStatus st r) = Subject r" "Headers (setCertificateStatus st r) = Headers r"
  "ErrorMappings (setCertificateStatus st r) = ErrorMappings r"
  "Provider (setCertificateStatus st r) = Provider r"
  "RedirectToPrimary (setCertificateStatus st r) = RedirectToPrimary r"
  "certificateStatus (setCertificateStatus st r) = st"
  "certificate (setCertificateStatus st r) = certificate r"
  by (simp_all add: setCertificateStatus_def)

lemma CertificateNames_Some [simp]:
  "CertificateNames r = None \<longleftrightarrow> Subject r = [] \<and> Domains r = []"
  by (auto simp: CertificateNames_def split: list.splits)

text \<open>The statuses that make a route unservable.\<close>

lemma status_le_missing:
  "st \<le> CertificateMissing \<longleftrightarrow> st = CertificateNotChecked \<or> st = CertificateMissing"
  by (cases st) (auto simp: less_eq_CertificateStatus_def)

lemma find_mapping_eq_find: "find_mapping status ms = find (\<lambda>m. Status m = status) ms"
  by (induction ms) auto

lemma find_mapping_None_iff: "find_mapping status ms = None \<longleftrightarrow> (\<forall>m \<in> set ms. Status m \<noteq> status)"
  by (induction ms) auto

end
