(* ===== verification/Url_Refs.thy ===== *)
theory Url_Refs
  imports Go_Text
begin

text \<open>
  The part of \<^verbatim>\<open>net/url\<close> that the configuration parser uses: \<^verbatim>\<open>url.Parse\<close> on a reference that
  begins with a slash. Such a reference has no scheme, so it is a fragment, a query, possibly an
  authority (after two slashes) and a path. Whether \<^verbatim>\<open>net/url\<close> accepts an authority is the
  parameter \<open>auth_ok\<close>; everything else is written out.
\<close>

definition is_hex :: "char \<Rightarrow> bool" where
  "is_hex c \<longleftrightarrow> is_digit c \<or> CHR ''a'' \<le> c \<and> c \<le> CHR ''f'' \<or> CHR ''A'' \<le> c \<and> c \<le> CHR ''F''"

definition hex_value :: "char \<Rightarrow> nat" where
  "hex_value c =
     (if is_digit c then of_char c - 48
      else if CHR ''a'' \<le> c \<and> c \<le> CHR ''f'' then of_char c - 87
      else of_char c - 55)"

text \<open>Percent decoding in the modes for paths and fragments.\<close>

fun unescape :: "string \<Rightarrow> string option" where
  "unescape [] = Some []"
| "unescape (c # cs) =
     (if c = CHR ''%'' then
        (case cs of
           a # b # rest \<Rightarrow>
             if is_hex a \<and> is_hex b
             then map_option (\<lambda>r. char_of (16 * hex_value a + hex_value b) # r) (unescape rest)
             else None
         | _ \<Rightarrow> None)
      else map_option (\<lambda>r. c # r) (unescape cs))"

definition has_ctl_byte :: "string \<Rightarrow> bool" where
  "has_ctl_byte s \<longleftrightarrow> (\<exists>c \<in> set s. of_char c < (32 :: nat) \<or> c = CHR 0x7F)"

definition has_prefix :: "string \<Rightarrow> string \<Rightarrow> bool" where
  "has_prefix s t \<longleftrightarrow> take (length t) s = t"

text \<open>The query string is what follows the first question mark; a lone one at the end is dropped.\<close>

definition cut_query :: "string \<Rightarrow> string \<times> string" where
  "cut_query u =
     (if has_suffix u ''?'' \<and> count_char CHR ''?'' u = 1 then (butlast u, [])
      else (case cut CHR ''?'' u of (r, q, _) \<Rightarrow> (r, q)))"

text \<open>Two slashes, but not three, introduce an authority.\<close>

definition cut_authority :: "string \<Rightarrow> string option \<times> string" where
  "cut_authority rest =
     (if has_prefix rest ''//'' \<and> \<not> has_prefix rest ''///''
      then (Some (takeWhile (\<lambda>c. c \<noteq> CHR ''/'') (drop 2 rest)),
            dropWhile (\<lambda>c. c \<noteq> CHR ''/'') (drop 2 rest))
      else (None, rest))"

text \<open>The path and the query string of the parsed reference, \<^const>\<open>None\<close> for an error.\<close>

definition url_parse :: "(string \<Rightarrow> bool) \<Rightarrow> string \<Rightarrow> (string \<times> string) option" where
  "url_parse auth_ok raw =
     (case cut CHR ''#'' raw of (u, frag, _) \<Rightarrow>
        if has_ctl_byte u then None
        else (case cut_query u of (rest, query) \<Rightarrow>
              (case cut_authority rest of (authority, path) \<Rightarrow>
                 if (case authority of Some a \<Rightarrow> \<not> auth_ok a | None \<Rightarrow> False) then None
                 else (case unescape path of
                         None \<Rightarrow> None
                       | Some p \<Rightarrow> if unescape frag = None then None else Some (p, query)))))"

lemma unescape_plain: "CHR ''%'' \<notin> set s \<Longrightarrow> unescape s = Some s"
  by (induction s) auto

lemma cut_query_plain: "CHR ''?'' \<notin> set p \<Longrightarrow> cut_query p = (p, [])"
  by (auto simp: cut_query_def has_suffix_iff cut_not_found)

lemma cut_query_append:
  assumes "CHR ''?'' \<notin> set p" "q \<noteq> []"
  shows "cut_query (p @ ''?'' @ q) = (p, q)"
proof -
  have "\<not> (has_suffix (p @ ''?'' @ q) ''?'' \<and> count_char CHR ''?'' (p @ ''?'' @ q) = 1)"
  proof
    assume *: "has_suffix (p @ ''?'' @ q) ''?'' \<and> count_char CHR ''?'' (p @ ''?'' @ q) = 1"
    then have "CHR ''?'' \<notin> set q"
      using assms(1) by (auto simp: count_char_def filter_empty_conv)
    moreover obtain r where "p @ ''?'' @ q = r @ ''?''" using * by (auto simp: has_suffix_iff)
    then have "last (p @ ''?'' @ q) = CHR ''?''" by simp
    then have "last q = CHR ''?''" using assms(2) by simp
    ultimately show False using assms(2) by (metis last_in_set)
  qed
  then have "cut_query (p @ ''?'' @ q) = (case cut CHR ''?'' (p @ ''?'' @ q) of (r, q', _) \<Rightarrow> (r, q'))"
    unfolding cut_query_def by (rule if_not_P)
  with assms(1) show ?thesis by (simp add: cut_found)
qed

lemma cut_authority_plain: "\<not> has_prefix p ''//'' \<Longrightarrow> cut_authority p = (None, p)"
  by (simp add: cut_authority_def)

text \<open>A reference without percent signs, control bytes, query or fragment, whose second byte is
  no slash, is its own path; with a query string, that is split off.\<close>

definition plain_path :: "string \<Rightarrow> bool" where
  "plain_path p \<longleftrightarrow> list_all (\<lambda>c. c \<noteq> CHR ''#'' \<and> c \<noteq> CHR ''?'' \<and> c \<noteq> CHR ''%'') p \<and>
     \<not> has_ctl_byte p \<and> \<not> has_prefix p ''//''"

lemma plain_pathD:
  assumes "plain_path p"
  shows "CHR ''#'' \<notin> set p" "CHR ''?'' \<notin> set p" "CHR ''%'' \<notin> set p" "\<not> has_ctl_byte p"
    and "\<not> has_prefix p ''//''"
  using assms by (auto simp: plain_path_def list_all_iff)

lemma url_parse_plain:
  assumes "plain_path p"
  shows "url_parse auth_ok p = Some (p, [])"
  unfolding url_parse_def cut_not_found [OF plain_pathD(1) [OF assms]]
  by (simp add: plain_pathD [OF assms] unescape_plain cut_query_plain cut_authority_plain)

lemma url_parse_query:
  assumes "plain_path p" "q \<noteq> []" "CHR ''#'' \<notin> set q" "\<not> has_ctl_byte q"
  shows "url_parse auth_ok (p @ ''?'' @ q) = Some (p, q)"
proof -
  note p = plain_pathD [OF assms(1)]
  have cut: "cut CHR ''#'' (p @ ''?'' @ q) = (p @ ''?'' @ q, [], False)"
    using p(1) assms(3) by (intro cut_not_found) simp
  have ctl: "\<not> has_ctl_byte (p @ ''?'' @ q)"
    using p(4) assms(4) by (auto simp: has_ctl_byte_def)
  show ?thesis
    unfolding url_parse_def cut cut_query_append [OF p(2) assms(2)] cut_authority_plain [OF p(5)]
      prod.case if_not_P [OF ctl]
    by (simp add: p(3) unescape_plain)
qed

end
