(* ===== verification/Route_Parser.thy ===== *)
theory Route_Parser
  imports Routes Url_Refs
begin

text \<open>
  \<^verbatim>\<open>config/parser.go\<close>: the line-by-line parser of route configurations.

  The input is the byte content that the reader delivers, followed by an optional read error. Routes
  are built as pointers in the source, and the fallback is a pointer to one of them: directives
  that follow \<^verbatim>\<open>fallback\<close> still change the fallback route. Here the fallback is the index of the
  route in the list of routes that the parser returns, which is exactly that identity.
\<close>

datatype ReaderError = TokenTooLong | ReadFailed string

datatype ParseError =
    NoDomainsForRoute
  | NoUpstreamsForRoute "string list"
  | UpstreamWithoutRoute string
  | HeaderWithoutRoute string
  | OnErrorWithoutRoute string
  | ProviderWithoutRoute string
  | FallbackWithoutRoute string
  | RedirectWithoutRoute string
  | SubjectWithoutRoute string
  | MultipleProviders "string list"
  | MultipleFallbacks "string list" "string list"
  | MultipleRedirects "string list"
  | RedirectSingleDomain "string list"
  | NoDomainsForSubject "string list"
  | InvalidLine string
  | InvalidOnErrorLine string
  | InvalidOnErrorStatus string
  | NoOnErrorUpstream string
  | OnErrorPathNeedsSlash string
  | InvalidOnErrorPath string
  | InvalidHeaderDelete string
  | InvalidHeaderAdd string
  | InvalidHeaderReplace string
  | InvalidHeaderDefault string
  | InvalidHeaderOperation string
  | ScannerError ReaderError

text \<open>The zero value of \<^verbatim>\<open>proxy.Route\<close> with its domains set.\<close>

definition new_route :: "string list \<Rightarrow> Route" where
  "new_route ds =
     \<lparr>Domains = ds, Upstreams = [], Subject = [], Headers = [], ErrorMappings = [], Provider = [],
      RedirectToPrimary = False, certificate = None, certificateStatus = CertificateNotChecked\<rparr>"

subsection \<open>on\_error\<close>

definition parseOnError :: "(string \<Rightarrow> bool) \<Rightarrow> string \<Rightarrow> Route \<Rightarrow> (ParseError, Route) result" where
  "parseOnError auth_ok args route =
     (case str_fields args of
        [part0, part1] \<Rightarrow>
          (case atoi part0 of
             None \<Rightarrow> Error (InvalidOnErrorStatus part0)
           | Some status \<Rightarrow>
               if status < 400 \<or> 599 < status then Error (InvalidOnErrorStatus part0)
               else
                 (case cut CHR ''/'' part1 of (host, path, found) \<Rightarrow>
                    if host = [] then Error (NoOnErrorUpstream args)
                    else if CHR ''?'' \<in> set host \<or> CHR ''#'' \<in> set host
                    then Error (OnErrorPathNeedsSlash part1)
                    else if found \<and> path \<noteq> [] then
                      (case url_parse auth_ok (CHR ''/'' # path) of
                         None \<Rightarrow> Error (InvalidOnErrorPath part1)
                       | Some (p, q) \<Rightarrow>
                           if q = [] \<and> CHR ''?'' \<in> set path then Error (InvalidOnErrorPath part1)
                           else Ok (route\<lparr>ErrorMappings := ErrorMappings route @
                             [\<lparr>Status = status, em_Upstream = host, em_Path = p, em_RawQuery = q\<rparr>]\<rparr>))
                    else Ok (route\<lparr>ErrorMappings := ErrorMappings route @
                      [\<lparr>Status = status, em_Upstream = host, em_Path = [], em_RawQuery = []\<rparr>]\<rparr>)))
      | _ \<Rightarrow> Error (InvalidOnErrorLine args))"

subsection \<open>header\<close>

definition add_header :: "HeaderOp \<Rightarrow> string \<Rightarrow> string \<Rightarrow> Route \<Rightarrow> Route" where
  "add_header op n v route =
     route\<lparr>Headers := Headers route @ [\<lparr>Name = n, Value = v, Operation = op\<rparr>]\<rparr>"

definition parseHeader :: "string \<Rightarrow> Route \<Rightarrow> (ParseError, Route) result" where
  "parseHeader args route =
     (let parts = split_n CHR '' '' 3 args; op = to_lower (hd parts)
      in if op = ''delete'' then
           (case parts of [_, n] \<Rightarrow> Ok (add_header HeaderOpDelete n [] route)
            | _ \<Rightarrow> Error (InvalidHeaderDelete args))
         else if op = ''add'' then
           (case parts of [_, n, v] \<Rightarrow> Ok (add_header HeaderOpAdd n v route)
            | _ \<Rightarrow> Error (InvalidHeaderAdd args))
         else if op = ''replace'' then
           (case parts of [_, n, v] \<Rightarrow> Ok (add_header HeaderOpReplace n v route)
            | _ \<Rightarrow> Error (InvalidHeaderReplace args))
         else if op = ''default'' then
           (case parts of [_, n, v] \<Rightarrow> Ok (add_header HeaderOpDefault n v route)
            | _ \<Rightarrow> Error (InvalidHeaderDefault args))
         else Error (InvalidHeaderOperation (hd parts)))"

subsection \<open>Parse\<close>

record parser =
  p_routes :: "Route list"
  p_route :: "Route option"
  p_fallback :: "nat option"

definition parser_init :: parser where
  "parser_init = \<lparr>p_routes = [], p_route = None, p_fallback = None\<rparr>"

text \<open>The route the fallback pointer refers to: an earlier route, or the one being built.\<close>

definition fallback_domains :: "parser \<Rightarrow> Route \<Rightarrow> nat \<Rightarrow> string list" where
  "fallback_domains st route i =
     (if i < length (p_routes st) then Domains (p_routes st ! i) else Domains route)"

text \<open>A directive that needs a route: the error, or what it does to the route being built.\<close>

definition with_route ::
  "parser \<Rightarrow> ParseError \<Rightarrow> (Route \<Rightarrow> (ParseError, parser) result) \<Rightarrow> (ParseError, parser) result" where
  "with_route st err f = (case p_route st of None \<Rightarrow> Error err | Some route \<Rightarrow> f route)"

definition set_route :: "parser \<Rightarrow> Route \<Rightarrow> parser" where
  "set_route st route = st\<lparr>p_route := Some route\<rparr>"

text \<open>The switch on the directive; \<open>line\<close> is the trimmed line, \<open>args\<close> what follows the first
  space in it.\<close>

definition parse_directive ::
  "(string \<Rightarrow> bool) \<Rightarrow> parser \<Rightarrow> string \<Rightarrow> string \<Rightarrow> string \<Rightarrow> (ParseError, parser) result" where
  "parse_directive auth_ok st line directive args =
     (if directive = ''route'' then
        (if args = [] then Error NoDomainsForRoute
         else (case p_route st of
            None \<Rightarrow> Ok (set_route st (new_route (split_on CHR '' '' args)))
          | Some route \<Rightarrow>
              if Upstreams route = [] then Error (NoUpstreamsForRoute (Domains route))
              else Ok (set_route (st\<lparr>p_routes := p_routes st @ [route]\<rparr>)
                         (new_route (split_on CHR '' '' args)))))
      else if directive = ''upstream'' then
        with_route st (UpstreamWithoutRoute line) (\<lambda>route.
          Ok (set_route st (route\<lparr>Upstreams := Upstreams route @ [\<lparr>Host = args\<rparr>]\<rparr>)))
      else if directive = ''header'' then
        with_route st (HeaderWithoutRoute line) (\<lambda>route.
          case parseHeader args route of Inl e \<Rightarrow> Error e | Inr r \<Rightarrow> Ok (set_route st r))
      else if directive = ''on_error'' then
        with_route st (OnErrorWithoutRoute line) (\<lambda>route.
          case parseOnError auth_ok args route of Inl e \<Rightarrow> Error e | Inr r \<Rightarrow> Ok (set_route st r))
      else if directive = ''provider'' then
        with_route st (ProviderWithoutRoute line) (\<lambda>route.
          if Provider route \<noteq> [] then Error (MultipleProviders (Domains route))
          else Ok (set_route st (route\<lparr>Provider := args\<rparr>)))
      else if directive = ''fallback'' then
        with_route st (FallbackWithoutRoute line) (\<lambda>route.
          case p_fallback st of
            Some i \<Rightarrow> Error (MultipleFallbacks (Domains route) (fallback_domains st route i))
          | None \<Rightarrow> Ok (st\<lparr>p_fallback := Some (length (p_routes st))\<rparr>))
      else if directive = ''redirect-to-primary'' then
        with_route st (RedirectWithoutRoute line) (\<lambda>route.
          if RedirectToPrimary route then Error (MultipleRedirects (Domains route))
          else if length (Domains route) < 2 then Error (RedirectSingleDomain (Domains route))
          else Ok (set_route st (route\<lparr>RedirectToPrimary := True\<rparr>)))
      else if directive = ''subject'' then
        with_route st (SubjectWithoutRoute line) (\<lambda>route.
          if args = [] then Error (NoDomainsForSubject (Domains route))
          else Ok (set_route st (route\<lparr>Subject := Subject route @ split_on CHR '' '' args\<rparr>)))
      else if directive = ''#'' then Ok st
      else if line \<noteq> [] then Error (InvalidLine line)
      else Ok st)"

definition parse_line :: "(string \<Rightarrow> bool) \<Rightarrow> parser \<Rightarrow> string \<Rightarrow> (ParseError, parser) result" where
  "parse_line auth_ok st text =
     (let line = trim_space text in
      case cut CHR '' '' line of (word, args, _) \<Rightarrow>
        parse_directive auth_ok st line (to_lower word) args)"

fun parse_lines :: "(string \<Rightarrow> bool) \<Rightarrow> parser \<Rightarrow> string list \<Rightarrow> (ParseError, parser) result" where
  "parse_lines auth_ok st [] = Ok st"
| "parse_lines auth_ok st (l # ls) =
     (case parse_line auth_ok st l of Inl e \<Rightarrow> Error e | Inr st' \<Rightarrow> parse_lines auth_ok st' ls)"

text \<open>After the last line: the route being built is checked and added.\<close>

definition parse_finish :: "parser \<Rightarrow> (ParseError, Route list \<times> nat option) result" where
  "parse_finish st =
     (case p_route st of
        None \<Rightarrow> Ok (p_routes st, p_fallback st)
      | Some route \<Rightarrow>
          if Upstreams route = [] then Error (NoUpstreamsForRoute (Domains route))
          else Ok (p_routes st @ [route], p_fallback st))"

record reader =
  content :: string
  read_error :: "string option"

text \<open>The error the scanner reports at the end.\<close>

definition scanner_err :: "reader \<Rightarrow> ReaderError option" where
  "scanner_err rd =
     (if snd (scan_lines (content rd)) then Some TokenTooLong
      else map_option ReadFailed (read_error rd))"

definition Parse :: "(string \<Rightarrow> bool) \<Rightarrow> reader \<Rightarrow> (ParseError, Route list \<times> nat option) result" where
  "Parse auth_ok rd =
     (case parse_lines auth_ok parser_init (fst (scan_lines (content rd))) of
        Inl e \<Rightarrow> Error e
      | Inr st \<Rightarrow>
          (case parse_finish st of
             Inl e \<Rightarrow> Error e
           | Inr res \<Rightarrow>
               (case scanner_err rd of
                  Some e \<Rightarrow> Error (ScannerError e)
                | None \<Rightarrow> Ok res)))"

subsection \<open>The parser as a transition system\<close>

definition mapping_ok :: "ErrorMapping \<Rightarrow> bool" where
  "mapping_ok m \<longleftrightarrow> 400 \<le> Status m \<and> Status m \<le> 599 \<and> em_Upstream m \<noteq> [] \<and>
     CHR ''/'' \<notin> set (em_Upstream m) \<and> CHR ''?'' \<notin> set (em_Upstream m) \<and> CHR ''#'' \<notin> set (em_Upstream m)"

text \<open>What a directive may do to the route being built.\<close>

inductive edit :: "Route \<Rightarrow> Route \<Rightarrow> bool" where
  edit_upstream: "edit r (r\<lparr>Upstreams := Upstreams r @ [u]\<rparr>)"
| edit_header: "(op = HeaderOpDelete \<Longrightarrow> v = []) \<Longrightarrow> edit r (add_header op n v r)"
| edit_on_error: "mapping_ok m \<Longrightarrow> edit r (r\<lparr>ErrorMappings := ErrorMappings r @ [m]\<rparr>)"
| edit_provider: "Provider r = [] \<Longrightarrow> edit r (r\<lparr>Provider := p\<rparr>)"
| edit_redirect: "\<not> RedirectToPrimary r \<Longrightarrow> 2 \<le> length (Domains r) \<Longrightarrow>
    edit r (r\<lparr>RedirectToPrimary := True\<rparr>)"
| edit_subject: "edit r (r\<lparr>Subject := Subject r @ split_on CHR '' '' a\<rparr>)"

text \<open>What a line may do to the parser.\<close>

inductive parser_step :: "parser \<Rightarrow> parser \<Rightarrow> bool" where
  step_skip: "parser_step st st"
| step_first: "p_route st = None \<Longrightarrow>
    parser_step st (set_route st (new_route (split_on CHR '' '' a)))"
| step_next: "p_route st = Some r \<Longrightarrow> Upstreams r \<noteq> [] \<Longrightarrow>
    parser_step st (set_route (st\<lparr>p_routes := p_routes st @ [r]\<rparr>) (new_route (split_on CHR '' '' a)))"
| step_edit: "p_route st = Some r \<Longrightarrow> edit r r' \<Longrightarrow> parser_step st (set_route st r')"
| step_fallback: "p_route st = Some r \<Longrightarrow> p_fallback st = None \<Longrightarrow>
    parser_step st (st\<lparr>p_fallback := Some (length (p_routes st))\<rparr>)"

lemma parseHeader_edit: "parseHeader args r = Inr r' \<Longrightarrow> edit r r'"
  by (auto simp: parseHeader_def Let_def intro: edit_header split: if_splits list.splits)

lemma parseOnError_edit: "parseOnError auth_ok args r = Inr r' \<Longrightarrow> edit r r'"
  by (auto simp: parseOnError_def cut_eq mapping_ok_def dest: set_takeWhileD intro!: edit_on_error
      split: list.splits option.splits if_splits prod.splits)

lemma parse_line_step:
  assumes "parse_line auth_ok st text = Inr st'"
  shows "parser_step st st'"
proof -
  obtain line directive args where "parse_directive auth_ok st line directive args = Inr st'"
    using assms by (auto simp: parse_line_def Let_def split: prod.splits)
  then show ?thesis
    by (auto simp: parse_directive_def with_route_def not_less split: if_splits option.splits sum.splits
        intro: parser_step.intros edit.intros parseHeader_edit parseOnError_edit)
qed

subsection \<open>The invariant\<close>

definition building_ok :: "Route \<Rightarrow> bool" where
  "building_ok r \<longleftrightarrow> Domains r \<noteq> [] \<and> (\<forall>d \<in> set (Domains r). CHR '' '' \<notin> set d) \<and>
     list_all mapping_ok (ErrorMappings r) \<and>
     list_all (\<lambda>h. Operation h = HeaderOpDelete \<longrightarrow> Value h = []) (Headers r) \<and>
     (RedirectToPrimary r \<longrightarrow> 2 \<le> length (Domains r)) \<and>
     certificate r = None \<and> certificateStatus r = CertificateNotChecked"

definition route_ok :: "Route \<Rightarrow> bool" where
  "route_ok r \<longleftrightarrow> building_ok r \<and> Upstreams r \<noteq> []"

definition parser_inv :: "parser \<Rightarrow> bool" where
  "parser_inv st \<longleftrightarrow> list_all route_ok (p_routes st) \<and>
     (\<forall>r. p_route st = Some r \<longrightarrow> building_ok r) \<and>
     (\<forall>i. p_fallback st = Some i \<longrightarrow>
        i < length (p_routes st) \<or> i = length (p_routes st) \<and> p_route st \<noteq> None)"

lemma building_ok_new: "building_ok (new_route (split_on CHR '' '' a))"
  using split_on_no_sep by (auto simp: building_ok_def new_route_def)

lemma edit_building_ok: "edit r r' \<Longrightarrow> building_ok r \<Longrightarrow> building_ok r'"
  by (induction rule: edit.induct) (auto simp: building_ok_def add_header_def)

lemma parser_step_inv: "parser_step st st' \<Longrightarrow> parser_inv st \<Longrightarrow> parser_inv st'"
proof (induction rule: parser_step.induct)
  case (step_edit st r r')
  then show ?case using edit_building_ok by (auto simp: parser_inv_def set_route_def)
qed (auto simp: parser_inv_def set_route_def building_ok_new route_ok_def)

lemma parse_lines_inv: "parse_lines auth_ok st ls = Inr st' \<Longrightarrow> parser_inv st \<Longrightarrow> parser_inv st'"
  by (induction ls arbitrary: st) (auto split: sum.splits dest: parse_line_step parser_step_inv)

lemma parser_inv_init: "parser_inv parser_init"
  by (simp add: parser_inv_def parser_init_def)

lemma parse_finish_ok:
  assumes "parser_inv st" "parse_finish st = Inr (rs, fb)"
  shows "list_all route_ok rs" "\<And>i. fb = Some i \<Longrightarrow> i < length rs"
  using assms by (auto simp: parse_finish_def parser_inv_def route_ok_def split: option.splits if_splits)

lemma Parse_cases:
  assumes "Parse auth_ok rd = Inr res"
  obtains st where "parse_lines auth_ok parser_init (fst (scan_lines (content rd))) = Inr st"
    and "parse_finish st = Inr res" and "scanner_err rd = None"
  using assms by (auto simp: Parse_def split: sum.splits option.splits)

lemma Parse_ok:
  assumes "Parse auth_ok rd = Inr (rs, fb)"
  shows "list_all route_ok rs \<and> (\<forall>i. fb = Some i \<longrightarrow> i < length rs)"
  using assms by (elim Parse_cases) (metis parse_finish_ok parse_lines_inv parser_inv_init)

end
