(* ===== verification/Route_Printer.thy ===== *)
theory Route_Printer
  imports Route_Parser
begin

text \<open>
  The configuration language read the other way: a canonical text for a list of routes, and the
  proof that the parser recovers the routes from it. The printer is specification, not code
  of the program; it fixes what each directive means.
\<close>

subsection \<open>Words and lines\<close>

definition graphic :: "char \<Rightarrow> bool" where
  "graphic c \<longleftrightarrow> 33 \<le> (of_char c :: nat) \<and> of_char c \<le> (126 :: nat)"

definition printable :: "char \<Rightarrow> bool" where
  "printable c \<longleftrightarrow> graphic c \<or> c = CHR '' ''"

definition word :: "string \<Rightarrow> bool" where
  "word s \<longleftrightarrow> s \<noteq> [] \<and> list_all graphic s"

text \<open>Text that survives at the end of a line: it does not end in white space.\<close>

definition phrase :: "string \<Rightarrow> bool" where
  "phrase s \<longleftrightarrow> s \<noteq> [] \<and> list_all printable s \<and> graphic (last s)"

lemma graphicD:
  assumes "graphic c"
  shows "\<not> ascii_space c" "c \<noteq> CHR '' ''" "c \<noteq> CHR 0x0A" "c \<noteq> CHR 0x0D" "\<not> space2 a c" "\<not> space2 c a"
    "\<not> space3 a b c" "\<not> space3 c a b"
  using assms by (auto simp: graphic_def ascii_space_def space2_def space3_def less_eq_char_def)

lemma word_phrase: "word s \<Longrightarrow> phrase s"
  by (auto simp: word_def phrase_def printable_def list_all_iff)

lemma phrase_append: "list_all printable a \<Longrightarrow> phrase b \<Longrightarrow> phrase (a @ b)"
  by (auto simp: phrase_def)

lemma space_len_graphic: "graphic c \<Longrightarrow> space_len (c # s) = 0"
  by (cases "c # s" rule: space_len.cases) (auto dest: graphicD)

lemma space_len_rev_graphic: "graphic c \<Longrightarrow> space_len_rev (c # s) = 0"
  by (cases "c # s" rule: space_len_rev.cases) (auto dest: graphicD)

lemma trim_space_phrase:
  assumes "phrase s" "graphic (hd s)"
  shows "trim_space s = s"
proof -
  from assms have "s \<noteq> []" by (simp add: phrase_def)
  then have "space_len s = 0" using space_len_graphic [OF assms(2)] by (metis list.collapse)
  then have "trim_left s = s" by (simp add: trim_left.simps)
  moreover have "rev s = last s # rev (butlast s)"
    using \<open>s \<noteq> []\<close> by (metis append_butlast_last_id rev_eq_Cons_iff rev_rev_ident)
  then have "space_len_rev (rev s) = 0"
    using assms(1) space_len_rev_graphic [of "last s" "rev (butlast s)"] by (metis phrase_def)
  then have "trim_rev (rev s) = rev s" by (simp add: trim_rev.simps)
  ultimately show ?thesis by (simp add: trim_space_def)
qed

lemma word_no_space: "word s \<Longrightarrow> CHR '' '' \<notin> set s"
  by (auto simp: word_def list_all_iff dest: graphicD)

lemma word_hd: "word s \<Longrightarrow> graphic (hd s)"
  by (cases s) (auto simp: word_def)

lemma printable_no_newline: "list_all printable s \<Longrightarrow> CHR 0x0A \<notin> set s"
  by (auto simp: list_all_iff printable_def graphic_def)

lemma join_words_phrase: "xs \<noteq> [] \<Longrightarrow> list_all word xs \<Longrightarrow> phrase (join '' '' xs)"
proof (induction xs)
  case (Cons x xs)
  then show ?case
  proof (cases "xs = []")
    case False
    with Cons have "phrase (join '' '' xs)" "list_all printable (x @ '' '')"
      by (auto simp: word_def printable_def list_all_iff)
    with False phrase_append [of "x @ '' ''"] show ?thesis by (simp add: join_Cons)
  qed (simp add: word_phrase)
qed simp

text \<open>A directive with its arguments is read as such.\<close>

lemma parse_line_words:
  assumes "word w" "phrase args"
  shows "parse_line auth_ok st (w @ '' '' @ args) =
    parse_directive auth_ok st (w @ '' '' @ args) (to_lower w) args"
proof -
  have "list_all printable (w @ '' '')"
    using assms(1) by (auto simp: word_def printable_def list_all_iff)
  then have "phrase (w @ '' '' @ args)"
    using phrase_append [of "w @ '' ''" args] assms(2) by simp
  moreover have "graphic (hd (w @ '' '' @ args))"
    using assms(1) word_hd by (auto simp: word_def)
  ultimately have "trim_space (w @ '' '' @ args) = w @ '' '' @ args"
    by (rule trim_space_phrase)
  then show ?thesis
    using cut_found [OF word_no_space [OF assms(1)], of args] by (simp add: parse_line_def)
qed

lemma parse_line_word:
  assumes "word w"
  shows "parse_line auth_ok st w = parse_directive auth_ok st w (to_lower w) []"
  using assms
  by (simp add: parse_line_def trim_space_phrase word_phrase word_hd cut_not_found word_no_space)

subsection \<open>Splitting a text into lines\<close>

fun unlines :: "string list \<Rightarrow> string" where
  "unlines [] = []"
| "unlines (l # ls) = l @ CHR 0x0A # unlines ls"

lemma scan_acc_line:
  "CHR 0x0A \<notin> set l \<Longrightarrow> n + length l < max_token \<Longrightarrow>
   scan_acc n w (l @ CHR 0x0A # s) =
     (case scan_acc 0 [] s of (ls, b) \<Rightarrow> (drop_cr (rev w @ l) # ls, b))"
proof (induction l arbitrary: n w)
  case (Cons c l)
  then show ?case by (auto split: prod.splits)
qed (auto split: prod.splits)

text \<open>A line as the parser's input: no line feed, no carriage return at its end, and short enough
  for the scanner's buffer.\<close>

definition scan_line_ok :: "string \<Rightarrow> bool" where
  "scan_line_ok l \<longleftrightarrow> phrase l \<and> length l < max_token"

lemma scan_lines_unlines: "list_all scan_line_ok ls \<Longrightarrow> scan_lines (unlines ls) = (ls, False)"
proof (induction ls)
  case Nil
  then show ?case by (simp add: scan_lines_def max_token_def)
next
  case (Cons l ls)
  then have l: "phrase l" "length l < max_token" by (simp_all add: scan_line_ok_def)
  then have "CHR 0x0A \<notin> set l" "drop_cr l = l"
    by (auto simp: phrase_def printable_no_newline drop_cr_def dest: graphicD)
  with l(2) Cons show ?case
    by (simp add: scan_lines_def scan_acc_line)
qed

subsection \<open>Printing routes\<close>

fun print_op :: "HeaderOp \<Rightarrow> string" where
  "print_op HeaderOpDelete = ''delete''"
| "print_op HeaderOpAdd = ''add''"
| "print_op HeaderOpReplace = ''replace''"
| "print_op HeaderOpDefault = ''default''"

definition print_header :: "Header \<Rightarrow> string" where
  "print_header h = ''header '' @ print_op (Operation h) @ '' '' @ Name h @
     (if Operation h = HeaderOpDelete then [] else '' '' @ Value h)"

definition header_ok :: "Header \<Rightarrow> bool" where
  "header_ok h \<longleftrightarrow> word (Name h) \<and>
     (if Operation h = HeaderOpDelete then Value h = [] else phrase (Value h))"

text \<open>Status codes have three digits.\<close>

definition print_status :: "int \<Rightarrow> string" where
  "print_status n = map (\<lambda>d. char_of (48 + d)) [nat n div 100 mod 10, nat n div 10 mod 10, nat n mod 10]"

definition print_mapping :: "ErrorMapping \<Rightarrow> string" where
  "print_mapping m = ''on_error '' @ print_status (Status m) @ '' '' @ em_Upstream m @ em_Path m @
     (if em_RawQuery m = [] then [] else ''?'' @ em_RawQuery m)"

definition printable_mapping :: "ErrorMapping \<Rightarrow> bool" where
  "printable_mapping m \<longleftrightarrow> mapping_ok m \<and> word (em_Upstream m) \<and>
     (if em_Path m = [] then em_RawQuery m = []
      else hd (em_Path m) = CHR ''/'' \<and> tl (em_Path m) \<noteq> [] \<and> plain_path (em_Path m) \<and>
           list_all graphic (em_Path m)) \<and>
     list_all graphic (em_RawQuery m) \<and> CHR ''#'' \<notin> set (em_RawQuery m)"

definition print_edits :: "Route \<Rightarrow> string list" where
  "print_edits r =
     map (\<lambda>u. ''upstream '' @ Host u) (Upstreams r) @
     (if Subject r = [] then [] else [''subject '' @ join '' '' (Subject r)]) @
     map print_header (Headers r) @
     map print_mapping (ErrorMappings r) @
     (if Provider r = [] then [] else [''provider '' @ Provider r]) @
     (if RedirectToPrimary r then [''redirect-to-primary''] else [])"

definition print_route :: "bool \<Rightarrow> Route \<Rightarrow> string list" where
  "print_route fb r =
     (''route '' @ join '' '' (Domains r)) # print_edits r @ (if fb then [''fallback''] else [])"

definition print_config :: "Route list \<Rightarrow> nat option \<Rightarrow> string list" where
  "print_config rs fb = concat (map (\<lambda>(i, r). print_route (fb = Some i) r) (zip [0..<length rs] rs))"

definition printable_route :: "Route \<Rightarrow> bool" where
  "printable_route r \<longleftrightarrow> route_ok r \<and> list_all word (Domains r) \<and>
     list_all (\<lambda>u. phrase (Host u)) (Upstreams r) \<and> list_all word (Subject r) \<and>
     list_all header_ok (Headers r) \<and> list_all printable_mapping (ErrorMappings r) \<and>
     (Provider r = [] \<or> phrase (Provider r))"

subsection \<open>Each printed line is parsed to its effect\<close>

lemma to_lower_words:
  "to_lower ''route'' = ''route''" "to_lower ''upstream'' = ''upstream''"
  "to_lower ''header'' = ''header''" "to_lower ''on_error'' = ''on_error''"
  "to_lower ''provider'' = ''provider''" "to_lower ''fallback'' = ''fallback''"
  "to_lower ''redirect-to-primary'' = ''redirect-to-primary''" "to_lower ''subject'' = ''subject''"
  by code_simp+

lemma to_lower_ops:
  "to_lower ''delete'' = ''delete''" "to_lower ''add'' = ''add''"
  "to_lower ''replace'' = ''replace''" "to_lower ''default'' = ''default''"
  by code_simp+

lemma directive_words:
  "word ''route''" "word ''upstream''" "word ''header''" "word ''on_error''" "word ''provider''"
  "word ''fallback''" "word ''redirect-to-primary''" "word ''subject''"
  by (simp_all add: word_def graphic_def)

lemma word_print_op: "word (print_op op)"
  by (cases op) (simp_all add: word_def graphic_def)

lemma parse_print_upstream:
  assumes "phrase (Host u)"
  shows "parse_line auth_ok (set_route st r) (''upstream '' @ Host u) =
    Ok (set_route st (r\<lparr>Upstreams := Upstreams r @ [u]\<rparr>))"
  using parse_line_words [OF directive_words(2) assms]
  by (simp add: to_lower_words parse_directive_def with_route_def set_route_def)

lemma split_n_3:
  assumes "CHR '' '' \<notin> set a" "CHR '' '' \<notin> set b"
  shows "split_n CHR '' '' 3 (a @ '' '' @ b @ '' '' @ c) = [a, b, c]"
    and "split_n CHR '' '' 3 (a @ '' '' @ b) = [a, b]"
  using assms by (simp_all add: numeral_3_eq_3 cut_found cut_not_found)

lemma parseHeader_print:
  assumes "header_ok h" "print_header h = ''header '' @ args"
  shows "parseHeader args r = Ok (r\<lparr>Headers := Headers r @ [h]\<rparr>)" "phrase args"
proof -
  let ?op = "print_op (Operation h)"
  have ns: "CHR '' '' \<notin> set ?op" "CHR '' '' \<notin> set (Name h)"
    using assms(1) word_no_space word_print_op by (auto simp: header_ok_def)
  have args: "args = (if Operation h = HeaderOpDelete then ?op @ '' '' @ Name h
      else ?op @ '' '' @ Name h @ '' '' @ Value h)"
    using assms(2) by (auto simp: print_header_def simp del: print_op.simps)
  then have parts: "split_n CHR '' '' 3 args =
      (if Operation h = HeaderOpDelete then [?op, Name h] else [?op, Name h, Value h])"
    by (simp only: split_n_3 [OF ns] if_distrib [of "split_n CHR '' '' 3"])
  have h: "\<lparr>Name = Name h, Value = Value h, Operation = Operation h\<rparr> = h" by simp
  show "parseHeader args r = Ok (r\<lparr>Headers := Headers r @ [h]\<rparr>)"
    using assms(1) h
    by (cases "Operation h")
      (simp_all add: parseHeader_def parts header_ok_def add_header_def to_lower_ops)
  have "list_all printable ?op"
    using word_print_op [of "Operation h"] by (auto simp: word_def printable_def list_all_iff)
  then show "phrase args"
    using assms(1) unfolding args
    by (auto simp: header_ok_def word_phrase word_def printable_def list_all_iff phrase_def
        simp del: print_op.simps)
qed

lemma parse_print_header:
  assumes "header_ok h"
  shows "parse_line auth_ok (set_route st r) (print_header h) =
    Ok (set_route st (r\<lparr>Headers := Headers r @ [h]\<rparr>))"
proof -
  obtain args where args: "print_header h = ''header '' @ args" by (simp add: print_header_def)
  show ?thesis
    using parse_line_words [OF directive_words(3) parseHeader_print(2) [OF assms args]]
      parseHeader_print(1) [OF assms args, of r]
    by (simp add: args to_lower_words parse_directive_def with_route_def set_route_def)
qed

lemma str_fields_acc_graphic:
  "list_all graphic a \<Longrightarrow> str_fields_acc w (a @ s) = str_fields_acc (rev a @ w) s"
  by (induction a arbitrary: w) (simp_all add: str_fields_acc.simps(2) space_len_graphic)

lemma str_fields_pair: "word a \<Longrightarrow> word b \<Longrightarrow> str_fields (a @ '' '' @ b) = [a, b]"
proof -
  assume ab: "word a" "word b"
  have "space_len (CHR '' '' # b) = 1"
    by (cases "CHR '' '' # b" rule: space_len.cases) (simp_all add: ascii_space_def)
  with ab str_fields_acc_graphic [of a "[]" "CHR '' '' # b"] str_fields_acc_graphic [of b "[]" "[]"]
  show ?thesis by (simp add: str_fields_def str_fields_acc.simps(2) word_def)
qed

lemma digit_char:
  assumes "d < 10"
  shows "is_digit (char_of (48 + d :: nat))" "of_char (char_of (48 + d :: nat)) = 48 + d"
  using assms by (simp_all add: is_digit_nat)

lemma sign_not_digit: "\<not> is_digit CHR ''-''" "\<not> is_digit CHR ''+''"
  by (simp_all add: is_digit_nat)

lemma atoi_print_status:
  assumes "0 \<le> n" "n < 1000"
  shows "atoi (print_status n) = Some n"
proof -
  let ?a = "nat n div 100 mod 10" and ?b = "nat n div 10 mod 10" and ?c = "nat n mod 10"
  have "digits_value 0 (print_status n) = Some (10 * (10 * ?a + ?b) + ?c)"
    by (simp add: print_status_def digit_char)
  also have "10 * (10 * ?a + ?b) + ?c = nat n"
  proof -
    have "?a = nat n div 10 div 10" using assms div_mult2_eq [of "nat n" 10 10] by simp
    then have "10 * ?a + ?b = nat n div 10" by simp
    then show ?thesis by simp
  qed
  finally have v: "digits_value 0 (print_status n) = Some (nat n)" .
  have "char_of (48 + ?a) \<noteq> CHR ''-''" "char_of (48 + ?a) \<noteq> CHR ''+''"
    using digit_char(1) [of ?a] sign_not_digit by (metis mod_less_divisor zero_less_numeral)+
  with v assms show ?thesis
    by (simp add: atoi_def print_status_def)
qed

lemma word_print_status: "word (print_status n)"
proof -
  have "k mod 10 \<le> 78" for k :: nat using mod_less_divisor [of 10 k] by linarith
  then show ?thesis by (simp add: word_def print_status_def graphic_def)
qed

lemma parseOnError_print:
  assumes "printable_mapping m"
  shows "\<exists>target. print_mapping m = ''on_error '' @ print_status (Status m) @ '' '' @ target \<and>
    word target \<and>
    parseOnError auth_ok (print_status (Status m) @ '' '' @ target) r =
      Ok (r\<lparr>ErrorMappings := ErrorMappings r @ [m]\<rparr>)"
proof -
  define target where
    "target = em_Upstream m @ em_Path m @ (if em_RawQuery m = [] then [] else ''?'' @ em_RawQuery m)"
  have w: "word target"
    using assms by (auto simp: target_def printable_mapping_def word_def graphic_def split: if_splits)
  have st: "atoi (print_status (Status m)) = Some (Status m)" "\<not> Status m < 400" "\<not> 599 < Status m"
    using assms by (auto simp: printable_mapping_def mapping_ok_def intro!: atoi_print_status)
  have up: "em_Upstream m \<noteq> []" "CHR ''/'' \<notin> set (em_Upstream m)" "CHR ''?'' \<notin> set (em_Upstream m)"
    "CHR ''#'' \<notin> set (em_Upstream m)"
    using assms by (auto simp: printable_mapping_def mapping_ok_def)
  have m: "\<lparr>Status = Status m, em_Upstream = em_Upstream m, em_Path = em_Path m,
      em_RawQuery = em_RawQuery m\<rparr> = m" by simp
  have "parseOnError auth_ok (print_status (Status m) @ '' '' @ target) r =
      Ok (r\<lparr>ErrorMappings := ErrorMappings r @ [m]\<rparr>)"
  proof (cases "em_Path m")
    case Nil
    then have "em_RawQuery m = []" using assms by (simp add: printable_mapping_def)
    then have cut: "cut CHR ''/'' target = (em_Upstream m, [], False)"
      using up(2) Nil by (simp add: target_def cut_not_found)
    from st up m Nil \<open>em_RawQuery m = []\<close> show ?thesis
      unfolding parseOnError_def str_fields_pair [OF word_print_status w]
      by (simp add: cut)
  next
    case (Cons c path)
    then have p: "em_Path m = CHR ''/'' # path" "path \<noteq> []" "plain_path (CHR ''/'' # path)"
      using assms by (auto simp: printable_mapping_def)
    let ?query = "if em_RawQuery m = [] then [] else ''?'' @ em_RawQuery m"
    have cut: "cut CHR ''/'' target = (em_Upstream m, path @ ?query, True)"
      using cut_found [OF up(2), of "path @ ?query"] p(1) by (simp add: target_def)
    have "\<not> has_ctl_byte (em_RawQuery m)" "CHR ''#'' \<notin> set (em_RawQuery m)"
      using assms by (auto simp: printable_mapping_def has_ctl_byte_def graphic_def list_all_iff)
    then have url: "url_parse auth_ok (CHR ''/'' # path @ ?query) = Some (em_Path m, em_RawQuery m)"
      using url_parse_query [OF p(3), of "em_RawQuery m" auth_ok] url_parse_plain [OF p(3), of auth_ok]
      by (simp add: p(1))
    have "CHR ''?'' \<notin> set path" using plain_pathD(2) [OF p(3)] by simp
    with st up m p(2) show ?thesis
      unfolding parseOnError_def str_fields_pair [OF word_print_status w]
      by (simp add: cut url)
  qed
  with w show ?thesis by (auto simp: print_mapping_def target_def)
qed

lemma parse_print_mapping:
  assumes "printable_mapping m"
  shows "parse_line auth_ok (set_route st r) (print_mapping m) =
    Ok (set_route st (r\<lparr>ErrorMappings := ErrorMappings r @ [m]\<rparr>))"
proof -
  obtain target where t: "print_mapping m = ''on_error '' @ print_status (Status m) @ '' '' @ target"
    "word target" and p: "parseOnError auth_ok (print_status (Status m) @ '' '' @ target) r =
      Ok (r\<lparr>ErrorMappings := ErrorMappings r @ [m]\<rparr>)"
    using parseOnError_print [OF assms, of auth_ok r] by blast
  have "list_all printable (print_status (Status m) @ '' '')"
    using word_print_status [of "Status m"] by (auto simp: word_def printable_def list_all_iff)
  then have "phrase (print_status (Status m) @ '' '' @ target)"
    using phrase_append [of "print_status (Status m) @ '' ''" target] word_phrase [OF t(2)] by simp
  from parse_line_words [OF directive_words(4) this] p show ?thesis
    by (simp add: t(1) to_lower_words parse_directive_def with_route_def set_route_def)
qed

subsection \<open>Routes and configurations\<close>

lemma parse_lines_append:
  "parse_lines auth_ok st (xs @ ys) =
     (case parse_lines auth_ok st xs of Inl e \<Rightarrow> Error e | Inr st' \<Rightarrow> parse_lines auth_ok st' ys)"
  by (induction xs arbitrary: st) (auto split: sum.splits)

text \<open>A block of lines of one kind folds its edits over the route.\<close>

lemma parse_lines_map:
  assumes "\<And>x r. x \<in> set xs \<Longrightarrow>
    parse_line auth_ok (set_route st r) (pr x) = Ok (set_route st (f x r))"
  shows "parse_lines auth_ok (set_route st r) (map pr xs) = Ok (set_route st (fold f xs r))"
  using assms by (induction xs arbitrary: r) auto

lemma fold_upstreams: "fold (\<lambda>u r. r\<lparr>Upstreams := Upstreams r @ [u]\<rparr>) us r = r\<lparr>Upstreams := Upstreams r @ us\<rparr>"
  by (induction us arbitrary: r) auto

lemma fold_headers: "fold (\<lambda>h r. r\<lparr>Headers := Headers r @ [h]\<rparr>) hs r = r\<lparr>Headers := Headers r @ hs\<rparr>"
  by (induction hs arbitrary: r) auto

lemma fold_mappings:
  "fold (\<lambda>m r. r\<lparr>ErrorMappings := ErrorMappings r @ [m]\<rparr>) ms r = r\<lparr>ErrorMappings := ErrorMappings r @ ms\<rparr>"
  by (induction ms arbitrary: r) auto

lemma parse_print_subject:
  assumes "list_all word ss" "ss \<noteq> []"
  shows "parse_line auth_ok (set_route st r) (''subject '' @ join '' '' ss) =
    Ok (set_route st (r\<lparr>Subject := Subject r @ ss\<rparr>))"
proof -
  have ph: "phrase (join '' '' ss)" using assms by (rule_tac join_words_phrase) auto
  have sp: "split_on CHR '' '' (join '' '' ss) = ss"
    using assms word_no_space by (intro split_join) (auto simp: list_all_iff)
  from ph have "join '' '' ss \<noteq> []" by (simp add: phrase_def)
  with parse_line_words [OF directive_words(8) ph] sp show ?thesis
    by (simp add: to_lower_words parse_directive_def with_route_def set_route_def)
qed

lemma parse_print_provider:
  assumes "phrase p" "Provider r = []"
  shows "parse_line auth_ok (set_route st r) (''provider '' @ p) = Ok (set_route st (r\<lparr>Provider := p\<rparr>))"
  using parse_line_words [OF directive_words(5) assms(1)] assms(2)
  by (simp add: to_lower_words parse_directive_def with_route_def set_route_def)

lemma parse_print_redirect:
  assumes "\<not> RedirectToPrimary r" "2 \<le> length (Domains r)"
  shows "parse_line auth_ok (set_route st r) ''redirect-to-primary'' =
    Ok (set_route st (r\<lparr>RedirectToPrimary := True\<rparr>))"
  using parse_line_word [OF directive_words(7)] assms
  by (simp add: to_lower_words parse_directive_def with_route_def set_route_def)

lemma parse_print_edits:
  assumes "printable_route r"
  shows "parse_lines auth_ok (set_route st (new_route (Domains r))) (print_edits r) =
    Ok (set_route st r)"
proof -
  note pr = assms [unfolded printable_route_def route_ok_def building_ok_def]
  let ?r1 = "(new_route (Domains r))\<lparr>Upstreams := Upstreams r\<rparr>"
  let ?r2 = "?r1\<lparr>Subject := Subject r\<rparr>"
  let ?r3 = "?r2\<lparr>Headers := Headers r\<rparr>"
  let ?r4 = "?r3\<lparr>ErrorMappings := ErrorMappings r\<rparr>"
  let ?r5 = "?r4\<lparr>Provider := Provider r\<rparr>"
  have 1: "parse_lines auth_ok (set_route st (new_route (Domains r)))
      (map (\<lambda>u. ''upstream '' @ Host u) (Upstreams r)) = Ok (set_route st ?r1)"
    using pr parse_lines_map [where f = "\<lambda>u r. r\<lparr>Upstreams := Upstreams r @ [u]\<rparr>", OF parse_print_upstream]
    by (simp add: fold_upstreams list_all_iff new_route_def)
  have 2: "parse_lines auth_ok (set_route st ?r1)
      (if Subject r = [] then [] else [''subject '' @ join '' '' (Subject r)]) = Ok (set_route st ?r2)"
    using pr parse_print_subject [of "Subject r" auth_ok st ?r1] by (auto simp: new_route_def)
  have 3: "parse_lines auth_ok (set_route st ?r2) (map print_header (Headers r)) = Ok (set_route st ?r3)"
    using pr parse_lines_map [where f = "\<lambda>h r. r\<lparr>Headers := Headers r @ [h]\<rparr>", OF parse_print_header]
    by (simp add: fold_headers list_all_iff new_route_def)
  have 4: "parse_lines auth_ok (set_route st ?r3) (map print_mapping (ErrorMappings r)) = Ok (set_route st ?r4)"
    using pr parse_lines_map [where f = "\<lambda>m r. r\<lparr>ErrorMappings := ErrorMappings r @ [m]\<rparr>", OF parse_print_mapping]
    by (simp add: fold_mappings list_all_iff new_route_def)
  have 5: "parse_lines auth_ok (set_route st ?r4)
      (if Provider r = [] then [] else [''provider '' @ Provider r]) = Ok (set_route st ?r5)"
    using pr parse_print_provider [of "Provider r" ?r4 auth_ok st] by (auto simp: new_route_def)
  have 6: "parse_lines auth_ok (set_route st ?r5)
      (if RedirectToPrimary r then [''redirect-to-primary''] else []) = Ok (set_route st r)"
    using pr parse_print_redirect [of ?r5 auth_ok st] by (cases r) (auto simp: new_route_def)
  show ?thesis
    unfolding print_edits_def parse_lines_append 1 sum.case 2 3 4 5 6 ..
qed

text \<open>The parser's state after the first routes of a configuration.\<close>

definition state_after :: "Route list \<Rightarrow> nat option \<Rightarrow> parser" where
  "state_after rs fb =
     \<lparr>p_routes = butlast rs, p_route = (if rs = [] then None else Some (last rs)),
      p_fallback = (case fb of Some i \<Rightarrow> if i < length rs then Some i else None | None \<Rightarrow> None)\<rparr>"

lemma parse_print_route:
  assumes "printable_route r" "list_all route_ok rs"
  shows "parse_lines auth_ok (state_after rs fb) (print_route (fb = Some (length rs)) r) =
    Ok (state_after (rs @ [r]) fb)"
proof -
  have ds: "list_all word (Domains r)" "Domains r \<noteq> []"
    using assms(1) by (auto simp: printable_route_def route_ok_def building_ok_def)
  have ph: "phrase (join '' '' (Domains r))" using ds by (rule_tac join_words_phrase) auto
  then have ne: "join '' '' (Domains r) \<noteq> []" by (simp add: phrase_def)
  have sp: "split_on CHR '' '' (join '' '' (Domains r)) = Domains r"
    using ds word_no_space by (intro split_join) (auto simp: list_all_iff)
  let ?st = "(state_after rs fb)\<lparr>p_routes := rs\<rparr>"
  have up: "rs \<noteq> [] \<Longrightarrow> Upstreams (last rs) \<noteq> []"
    using assms(2) by (auto simp: list_all_iff route_ok_def)
  have 1: "parse_line auth_ok (state_after rs fb) (''route '' @ join '' '' (Domains r)) =
      Ok (set_route ?st (new_route (Domains r)))"
    using parse_line_words [OF directive_words(1) ph] ne up
    by (auto simp: to_lower_words parse_directive_def set_route_def state_after_def sp)
  have 2: "parse_lines auth_ok (set_route ?st r) (if fb = Some (length rs) then [''fallback''] else []) =
      Ok (state_after (rs @ [r]) fb)"
    using parse_line_word [OF directive_words(6)]
    by (auto simp: to_lower_words parse_directive_def with_route_def set_route_def state_after_def
        split: option.splits)
  show ?thesis
    unfolding print_route_def parse_lines.simps 1 sum.case parse_lines_append
      parse_print_edits [OF assms(1)] 2 ..
qed

lemma print_config_snoc:
  "print_config (rs @ [r]) fb = print_config rs fb @ print_route (fb = Some (length rs)) r"
  by (simp add: print_config_def)

lemma parse_print_config:
  "list_all printable_route rs \<Longrightarrow>
   parse_lines auth_ok parser_init (print_config rs fb) = Ok (state_after rs fb)"
proof (induction rs rule: rev_induct)
  case Nil
  then show ?case
    by (auto simp: print_config_def state_after_def parser_init_def split: option.splits)
next
  case (snoc r rs)
  then have "list_all route_ok rs" by (auto simp: list_all_iff printable_route_def)
  with snoc show ?case
    by (simp add: print_config_snoc parse_lines_append parse_print_route)
qed

lemma parse_finish_state_after:
  assumes "list_all route_ok rs" "\<And>i. fb = Some i \<Longrightarrow> i < length rs"
  shows "parse_finish (state_after rs fb) = Ok (rs, fb)"
  using assms
  by (cases rs rule: rev_cases; cases fb) (auto simp: parse_finish_def state_after_def route_ok_def)

text \<open>The text of a configuration fits the scanner when every printed line does.\<close>

definition printable_config :: "Route list \<Rightarrow> nat option \<Rightarrow> bool" where
  "printable_config rs fb \<longleftrightarrow> list_all printable_route rs \<and>
     (case fb of Some i \<Rightarrow> i < length rs | None \<Rightarrow> True) \<and>
     list_all scan_line_ok (print_config rs fb)"

lemma Parse_print_config:
  assumes "printable_config rs fb"
  shows "Parse auth_ok \<lparr>content = unlines (print_config rs fb), read_error = None\<rparr> = Ok (rs, fb)"
proof -
  have scan: "scan_lines (unlines (print_config rs fb)) = (print_config rs fb, False)"
    using assms by (intro scan_lines_unlines) (simp add: printable_config_def)
  have "parse_lines auth_ok parser_init (print_config rs fb) = Ok (state_after rs fb)"
    using assms by (intro parse_print_config) (simp add: printable_config_def)
  moreover have "parse_finish (state_after rs fb) = Ok (rs, fb)"
    using assms by (intro parse_finish_state_after)
      (auto simp: printable_config_def printable_route_def list_all_iff)
  ultimately show ?thesis by (simp add: Parse_def scanner_err_def scan)
qed

subsection \<open>Lines without effect\<close>

text \<open>Lines without effect: blank ones, and those whose first word is a hash sign.\<close>

definition ignored_line :: "string \<Rightarrow> bool" where
  "ignored_line l \<longleftrightarrow> trim_space l = [] \<or> takeWhile (\<lambda>c. c \<noteq> CHR '' '') (trim_space l) = ''#''"

lemma to_lower_eq_Nil: "to_lower s = [] \<longleftrightarrow> s = []"
  by (cases s rule: to_lower.cases) (auto simp: to_lower.simps)

lemma lower_char_hash: "lower_char c = CHR ''#'' \<longleftrightarrow> c = CHR ''#''"
proof
  assume l: "lower_char c = CHR ''#''"
  then have "\<not> is_upper c"
    using of_char_lower [of c] by (auto simp: is_upper_nat)
  with l show "c = CHR ''#''" by (simp add: lower_char_def)
qed (simp add: lower_char_def is_upper_nat)

lemma to_lower_eq_hash: "to_lower s = ''#'' \<longleftrightarrow> s = ''#''"
  by (cases s rule: to_lower.cases) (auto simp: to_lower.simps lower_char_hash to_lower_eq_Nil)

lemma to_lower_hash: "to_lower ''#'' = ''#''" "to_lower [] = []"
  by code_simp+

lemma parse_line_ignored: "ignored_line l \<Longrightarrow> parse_line auth_ok st l = Ok st"
  by (auto simp: ignored_line_def parse_line_def Let_def cut_eq to_lower_hash parse_directive_def)

text \<open>Blank lines and comments can be put anywhere in a configuration: they do not change
  what the lines around them mean.\<close>

lemma ignored_lines_are_ignored:
  assumes "list_all ignored_line cs"
  shows "parse_lines auth_ok st (xs @ cs @ ys) = parse_lines auth_ok st (xs @ ys)"
proof -
  have "parse_lines auth_ok st' (cs @ ys) = parse_lines auth_ok st' ys" for st'
    using assms by (induction cs) (simp_all add: parse_line_ignored)
  then show ?thesis by (simp add: parse_lines_append split: sum.split)
qed

text \<open>A hash sign that is not followed by a space does not start a comment: the line is an error.\<close>

lemma hash_without_space_is_an_error:
  assumes "word w" "hd w = CHR ''#''" "w \<noteq> ''#''"
  shows "parse_line auth_ok st w = Error (InvalidLine w)"
proof -
  obtain t where w: "w = CHR ''#'' # t" using assms by (cases w) (auto simp: word_def)
  have "hd (to_lower w) = CHR ''#''" by (simp add: w to_lower_Cons_single lower_char_hash)
  moreover have "to_lower w \<noteq> ''#''" "w \<noteq> []" using assms(3) w by (simp_all add: to_lower_eq_hash)
  ultimately show ?thesis using assms(1) by (auto simp: parse_line_word parse_directive_def)
qed

end
