(* ===== verification/Http.thy ===== *)
theory Http
  imports Go_Text
begin

text \<open>
  What the program uses of \<^verbatim>\<open>net/http\<close> and \<^verbatim>\<open>net/url\<close>: header maps with their canonical keys,
  URLs, requests and responses as structures.

  A header is Go's \<^verbatim>\<open>map[string][]string\<close>. The accessor methods canonicalise the key they
  are given; indexing the map directly does not.
\<close>

subsection \<open>Canonical header keys\<close>

definition header_byte :: "char \<Rightarrow> bool" where
  "header_byte c \<longleftrightarrow> is_lower c \<or> is_upper c \<or> is_digit c \<or> c \<in> set ''!#$%&'' \<or> c = CHR 0x27 \<or>
     c \<in> set ''*+-.^_`|~''"

fun canon_loop :: "bool \<Rightarrow> string \<Rightarrow> string" where
  "canon_loop up [] = []"
| "canon_loop up (c # cs) =
     (let c' = (if up then upper_char c else lower_char c) in c' # canon_loop (c' = CHR ''-'') cs)"

definition canonical :: "string \<Rightarrow> string" where
  "canonical k = (if list_all header_byte k then canon_loop True k else k)"

subsection \<open>Header operations\<close>

type_synonym header = "string \<rightharpoonup> string list"

definition header_get :: "header \<Rightarrow> string \<Rightarrow> string" where
  "header_get h k = (case h (canonical k) of Some (v # _) \<Rightarrow> v | _ \<Rightarrow> [])"

definition header_set :: "header \<Rightarrow> string \<Rightarrow> string \<Rightarrow> header" where
  "header_set h k v = h(canonical k \<mapsto> [v])"

definition header_add :: "header \<Rightarrow> string \<Rightarrow> string \<Rightarrow> header" where
  "header_add h k v =
     h(canonical k \<mapsto> (case h (canonical k) of None \<Rightarrow> [v] | Some vs \<Rightarrow> vs @ [v]))"

definition header_del :: "header \<Rightarrow> string \<Rightarrow> header" where
  "header_del h k = h(canonical k := None)"

subsection \<open>Messages\<close>

record URL =
  url_Scheme :: string
  url_Opaque :: string
  url_Host :: string
  url_Path :: string
  url_RawPath :: string
  url_ForceQuery :: bool
  url_RawQuery :: string

definition empty_url :: URL where
  "empty_url = \<lparr>url_Scheme = [], url_Opaque = [], url_Host = [], url_Path = [], url_RawPath = [],
     url_ForceQuery = False, url_RawQuery = []\<rparr>"

text \<open>A request. \<open>req_URL\<close> is a pointer in Go, \<^const>\<open>None\<close> for nil; \<open>req_TLS\<close> says whether the
  \<^verbatim>\<open>TLS\<close> field is set.\<close>

record Request =
  req_Method :: string
  req_URL :: "URL option"
  req_Host :: string
  req_Header :: header
  req_RemoteAddr :: string
  req_TLS :: bool

record Response =
  resp_Status :: string
  resp_StatusCode :: int
  resp_Header :: header
  resp_Body :: "string option"
  resp_Request :: "Request option"

record ResponseWriter =
  w_Header :: header
  w_Status :: "int option"
  w_Body :: string

text \<open>The settings of the transports and clients that the program makes; fields that it leaves alone have Go's zero values.\<close>

record Transport =
  ForceAttemptHTTP2 :: bool
  DisableCompression :: bool
  MaxIdleConnsPerHost :: nat
  IdleConnTimeout :: duration

definition zero_transport :: Transport where
  "zero_transport = \<lparr>ForceAttemptHTTP2 = False, DisableCompression = False, MaxIdleConnsPerHost = 0, IdleConnTimeout = 0\<rparr>"

record Client =
  cl_Timeout :: duration
  cl_Transport :: Transport

subsection \<open>Facts\<close>

lemma of_char_upper:
  "(of_char (upper_char c) :: nat) = (if is_lower c then of_char c - 32 else of_char c)"
  by (auto simp: upper_char_def is_lower_nat intro!: mod_less)

lemma upper_char_idem [simp]: "upper_char (upper_char c) = upper_char c"
proof -
  have "\<not> is_lower (upper_char c)" by (auto simp: is_lower_nat of_char_upper)
  then show ?thesis by (subst upper_char_def) simp
qed

lemma canon_loop_idem: "canon_loop up (canon_loop up s) = canon_loop up s"
  by (induction s arbitrary: up) (auto simp: Let_def)

lemma header_byte_upper: "header_byte c \<Longrightarrow> header_byte (upper_char c)"
proof (cases "is_lower c")
  case True
  then have "is_upper (upper_char c)" by (auto simp: is_lower_nat is_upper_nat of_char_upper)
  then show ?thesis by (simp add: header_byte_def)
qed (simp add: upper_char_def)

lemma header_byte_lower: "header_byte c \<Longrightarrow> header_byte (lower_char c)"
proof (cases "is_upper c")
  case True
  then have "is_lower (lower_char c)" by (auto simp: is_lower_nat is_upper_nat of_char_lower)
  then show ?thesis by (simp add: header_byte_def)
qed (simp add: lower_char_def)

lemma header_byte_canon_loop: "list_all header_byte s \<Longrightarrow> list_all header_byte (canon_loop up s)"
  by (induction s arbitrary: up) (auto simp: Let_def header_byte_upper header_byte_lower)

lemma canonical_idem [simp]: "canonical (canonical k) = canonical k"
  by (simp add: canonical_def header_byte_canon_loop canon_loop_idem)

lemma header_get_set [hdr_simps]:
  "header_get (header_set h k v) k' = (if canonical k' = canonical k then v else header_get h k')"
  by (simp add: header_get_def header_set_def)

lemma header_get_del [hdr_simps]:
  "header_get (header_del h k) k' = (if canonical k' = canonical k then [] else header_get h k')"
  by (simp add: header_get_def header_del_def)

lemma header_set_apply [hdr_simps]:
  "header_set h k v x = (if x = canonical k then Some [v] else h x)"
  by (simp add: header_set_def)

lemma header_del_apply [hdr_simps]: "header_del h k x = (if x = canonical k then None else h x)"
  by (simp add: header_del_def)

lemma header_add_apply [hdr_simps]:
  "header_add h k v x =
     (if x = canonical k then Some ((case h x of None \<Rightarrow> [] | Some vs \<Rightarrow> vs) @ [v]) else h x)"
  by (auto simp: header_add_def split: option.splits)

lemma header_get_None: "h (canonical k) = None \<Longrightarrow> header_get h k = []"
  by (simp add: header_get_def)

end
