(* ===== verification/Decorators.thy ===== *)
theory Decorators
  imports Http
begin

text \<open>
  \<^verbatim>\<open>proxy/decorator.go\<close>, \<^verbatim>\<open>ParseCIDRList\<close> of \<^verbatim>\<open>proxy/rewriter.go\<close> and the decorator of
  \<^verbatim>\<open>frontend/tailscale.go\<close>: changes to a request before it is proxied.

  A decorator maps the incoming request and the outgoing one to the new outgoing one. IP addresses
  and networks are abstract: \<open>parseIP\<close>, \<open>contains\<close> and \<open>parseCIDR\<close> stand for \<^verbatim>\<open>net.ParseIP\<close>,
  \<^verbatim>\<open>IPNet.Contains\<close> and \<^verbatim>\<open>net.ParseCIDR\<close>; the local Tailscale client is the function \<open>whoIs\<close>.
\<close>

type_synonym decorator = "Request \<Rightarrow> Request \<Rightarrow> Request"

subsection \<open>Banned headers\<close>

definition banned_headers :: "string list" where
  "banned_headers =
     [''X-Real-IP'', ''True-Client-IP'', ''Forwarded'', ''Tailscale-User-Login'',
      ''Tailscale-User-Name'', ''Tailscale-User-Profile-Pic'']"

definition bannedHeaderDecorator :: "string list \<Rightarrow> decorator" where
  "bannedHeaderDecorator headers inr out =
     out\<lparr>req_Header := fold (\<lambda>k h. header_del h k) headers (req_Header out)\<rparr>"

definition NewBannedHeaderDecorator :: decorator where
  "NewBannedHeaderDecorator = bannedHeaderDecorator banned_headers"

subsection \<open>X-Forwarded headers\<close>

fun any_contains :: "('net \<Rightarrow> 'ip \<Rightarrow> bool) \<Rightarrow> 'net list \<Rightarrow> 'ip \<Rightarrow> bool" where
  "any_contains contains [] ip = False"
| "any_contains contains (n # ns) ip = (if contains n ip then True else any_contains contains ns ip)"

definition trusted ::
  "(string \<Rightarrow> 'ip option) \<Rightarrow> ('net \<Rightarrow> 'ip \<Rightarrow> bool) \<Rightarrow> 'net list \<Rightarrow> string \<Rightarrow> bool" where
  "trusted parseIP contains trustedDownstreams ip =
     (case parseIP ip of None \<Rightarrow> False | Some parsed \<Rightarrow> any_contains contains trustedDownstreams parsed)"

definition set_header :: "string \<Rightarrow> string \<Rightarrow> Request \<Rightarrow> Request" where
  "set_header k v r = r\<lparr>req_Header := header_set (req_Header r) k v\<rparr>"

text \<open>The address part of \<^verbatim>\<open>RemoteAddr\<close>; \<^verbatim>\<open>net.SplitHostPort\<close> returns the empty string with an error.\<close>

definition remote_ip :: "Request \<Rightarrow> string" where
  "remote_ip r = (case split_host_port (req_RemoteAddr r) of Inl _ \<Rightarrow> [] | Inr (host, _) \<Rightarrow> host)"

definition xForwardedForDecorator ::
  "(string \<Rightarrow> 'ip option) \<Rightarrow> ('net \<Rightarrow> 'ip \<Rightarrow> bool) \<Rightarrow> 'net list \<Rightarrow> decorator" where
  "xForwardedForDecorator parseIP contains nets inr out =
     (let ip = remote_ip out;
          tr = trusted parseIP contains nets ip;
          out1 = (let h = header_get (req_Header inr) ''X-Forwarded-For'' in
                  if \<not> tr \<or> h = [] then set_header ''X-Forwarded-For'' ip out
                  else set_header ''X-Forwarded-For'' (h @ '', '' @ ip) out);
          out2 = (let h = header_get (req_Header inr) ''X-Forwarded-Host'' in
                  if \<not> tr \<or> h = [] then set_header ''X-Forwarded-Host'' (req_Host out1) out1
                  else set_header ''X-Forwarded-Host'' h out1)
      in (let h = header_get (req_Header inr) ''X-Forwarded-Proto'' in
          if \<not> tr \<or> h = [] then
            (if \<not> req_TLS out2 then set_header ''X-Forwarded-Proto'' ''http'' out2
             else set_header ''X-Forwarded-Proto'' ''https'' out2)
          else set_header ''X-Forwarded-Proto'' h out2))"

subsection \<open>User agent\<close>

definition userAgentDecorator :: decorator where
  "userAgentDecorator inr out =
     (if req_Header out ''User-Agent'' = None then set_header ''User-Agent'' [] out else out)"

subsection \<open>Tailscale user headers\<close>

record UserProfile =
  LoginName :: string
  DisplayName :: string
  ProfilePicURL :: string

definition tailscaleHeaderDecorator :: "(string \<Rightarrow> UserProfile option) \<Rightarrow> decorator" where
  "tailscaleHeaderDecorator whoIs inr out =
     (case whoIs (req_RemoteAddr out) of
        None \<Rightarrow> out
      | Some u \<Rightarrow>
          set_header ''Tailscale-User-Profile-Pic'' (ProfilePicURL u)
            (set_header ''Tailscale-User-Name'' (DisplayName u)
              (set_header ''Tailscale-User-Login'' (LoginName u) out)))"

subsection \<open>Trusted networks\<close>

fun parse_cidrs :: "(string \<Rightarrow> 'net option) \<Rightarrow> string list \<Rightarrow> (string, 'net list) result" where
  "parse_cidrs parseCIDR [] = Ok []"
| "parse_cidrs parseCIDR (p # ps) =
     (let v = trim_space p in
      if v = [] then parse_cidrs parseCIDR ps
      else (case parseCIDR v of
              None \<Rightarrow> Error v
            | Some net \<Rightarrow>
                (case parse_cidrs parseCIDR ps of Inl e \<Rightarrow> Error e | Inr nets \<Rightarrow> Ok (net # nets))))"

definition ParseCIDRList :: "(string \<Rightarrow> 'net option) \<Rightarrow> string \<Rightarrow> (string, 'net list) result" where
  "ParseCIDRList parseCIDR downstreams = parse_cidrs parseCIDR (split_on CHR '','' downstreams)"

subsection \<open>Facts\<close>

lemma canonical_forwarded:
  "canonical ''X-Forwarded-For'' = ''X-Forwarded-For''"
  "canonical ''X-Forwarded-Host'' = ''X-Forwarded-Host''"
  "canonical ''X-Forwarded-Proto'' = ''X-Forwarded-Proto''"
  "canonical ''User-Agent'' = ''User-Agent''"
  by code_simp+

lemma canonical_banned:
  "canonical ''X-Real-IP'' = ''X-Real-Ip''" "canonical ''True-Client-IP'' = ''True-Client-Ip''"
  "canonical ''Forwarded'' = ''Forwarded''"
  "canonical ''Tailscale-User-Login'' = ''Tailscale-User-Login''"
  "canonical ''Tailscale-User-Name'' = ''Tailscale-User-Name''"
  "canonical ''Tailscale-User-Profile-Pic'' = ''Tailscale-User-Profile-Pic''"
  by code_simp+

lemmas canonical_names = canonical_forwarded canonical_banned

lemma fold_del_apply:
  "fold (\<lambda>k h. header_del h k) ks h x = (if x \<in> canonical ` set ks then None else h x)"
  by (induction ks arbitrary: h) (auto simp: hdr_simps)

lemma any_contains_iff: "any_contains contains nets ip \<longleftrightarrow> (\<exists>n \<in> set nets. contains n ip)"
  by (induction nets) auto

lemma set_header_frame [simp]:
  "req_Host (set_header k v r) = req_Host r" "req_URL (set_header k v r) = req_URL r"
  "req_TLS (set_header k v r) = req_TLS r" "req_RemoteAddr (set_header k v r) = req_RemoteAddr r"
  "req_Method (set_header k v r) = req_Method r"
  "req_Header (set_header k v r) = header_set (req_Header r) k v"
  by (simp_all add: set_header_def)

text \<open>What the forwarding decorator does to each header of the outgoing request.\<close>

definition forwarded_for :: "bool \<Rightarrow> Request \<Rightarrow> Request \<Rightarrow> string" where
  "forwarded_for tr inr out =
     (let h = header_get (req_Header inr) ''X-Forwarded-For'' in
      if \<not> tr \<or> h = [] then remote_ip out else h @ '', '' @ remote_ip out)"

definition forwarded_host :: "bool \<Rightarrow> Request \<Rightarrow> Request \<Rightarrow> string" where
  "forwarded_host tr inr out =
     (let h = header_get (req_Header inr) ''X-Forwarded-Host'' in
      if \<not> tr \<or> h = [] then req_Host out else h)"

definition forwarded_proto :: "bool \<Rightarrow> Request \<Rightarrow> Request \<Rightarrow> string" where
  "forwarded_proto tr inr out =
     (let h = header_get (req_Header inr) ''X-Forwarded-Proto'' in
      if \<not> tr \<or> h = [] then (if req_TLS out then ''https'' else ''http'') else h)"

lemma xForwardedFor_eq:
  "xForwardedForDecorator parseIP contains nets inr out =
     (let tr = trusted parseIP contains nets (remote_ip out) in
      set_header ''X-Forwarded-Proto'' (forwarded_proto tr inr out)
        (set_header ''X-Forwarded-Host'' (forwarded_host tr inr out)
          (set_header ''X-Forwarded-For'' (forwarded_for tr inr out) out)))"
  by (simp add: xForwardedForDecorator_def forwarded_for_def forwarded_host_def forwarded_proto_def Let_def)

lemma userAgentDecorator_apply:
  "req_Header (userAgentDecorator inr out) x =
     (if x = ''User-Agent'' \<and> req_Header out x = None then Some [[]] else req_Header out x)"
  by (auto simp: userAgentDecorator_def hdr_simps canonical_names)

lemma parse_cidrs_Inr:
  "parse_cidrs parseCIDR ps = Inr nets \<Longrightarrow>
     map Some nets = map parseCIDR (filter (\<lambda>v. v \<noteq> []) (map trim_space ps))"
  by (induction ps arbitrary: nets) (auto simp: Let_def split: if_splits option.splits sum.splits)

end
