(* ===== verification/Proxy_Manager.thy ===== *)
theory Proxy_Manager
  imports Route_Parser
begin

text \<open>
  \<^verbatim>\<open>proxy/manager.go\<close>: the manager that holds the routes, maps domains to them and keeps their
  certificates up to date.

  Routes are shared by pointer between the domain map, the route list, the fallback and every
  goroutine, and their certificates change through any of these. The model keeps them in a heap
  \<open>m_heap\<close> indexed by \<open>route_ref\<close>; \<open>m_next\<close> is the first unused reference. The two atomic
  pointers of \<^verbatim>\<open>routeMap\<close> are options (\<^const>\<open>None\<close> before the first update).

  The certificate provider is the interface \<^verbatim>\<open>CertificateProvider\<close>: two functions on a provider state
  of any type. A panic (an index out of range, or a panic in the provider) is the result
  \<^const>\<open>None\<close>.
\<close>

type_synonym route_ref = nat

record 'p CertificateProvider =
  GetCertificate ::
    "string \<Rightarrow> string \<Rightarrow> string list \<Rightarrow> 'p \<Rightarrow> ((TLSCertificate option \<times> string option) \<times> 'p) option"
  GetExistingCertificate ::
    "string \<Rightarrow> string \<Rightarrow> string list \<Rightarrow> 'p \<Rightarrow> ((TLSCertificate option \<times> bool \<times> string option) \<times> 'p) option"

record 'p Manager =
  m_provider :: "'p CertificateProvider option"
  m_pstate :: 'p
  m_domains :: "(string \<rightharpoonup> route_ref) option"
  m_routes :: "route_ref list option"
  m_fallback :: "route_ref option"
  m_heap :: "route_ref \<Rightarrow> Route"
  m_next :: nat

definition NewManager :: "'p CertificateProvider option \<Rightarrow> 'p \<Rightarrow> 'p Manager" where
  "NewManager prov ps =
     \<lparr>m_provider = prov, m_pstate = ps, m_domains = None, m_routes = None, m_fallback = None,
      m_heap = (\<lambda>_. new_route []), m_next = 0\<rparr>"

definition upd_route :: "(Route \<Rightarrow> Route) \<Rightarrow> route_ref \<Rightarrow> 'p Manager \<Rightarrow> 'p Manager" where
  "upd_route f ref m = m\<lparr>m_heap := (m_heap m)(ref := f (m_heap m ref))\<rparr>"

subsection \<open>routeMap\<close>

text \<open>The inner loop of \<^verbatim>\<open>Update\<close>: the domains of one route.\<close>

fun add_domains ::
  "route_ref \<Rightarrow> string list \<Rightarrow> (string \<rightharpoonup> route_ref) \<Rightarrow> (string, string \<rightharpoonup> route_ref) result" where
  "add_domains ref [] dm = Ok dm"
| "add_domains ref (d # ds) dm =
     (if \<not> isDomainName d then Error (''invalid domain name: '' @ d)
      else add_domains ref ds (dm(to_lower d \<mapsto> ref)))"

fun build_domains ::
  "(route_ref \<Rightarrow> Route) \<Rightarrow> route_ref list \<Rightarrow> (string \<rightharpoonup> route_ref) \<Rightarrow> (string, string \<rightharpoonup> route_ref) result" where
  "build_domains h [] dm = Ok dm"
| "build_domains h (ref # refs) dm =
     (case add_domains ref (Domains (h ref)) dm of
        Inl e \<Rightarrow> Error e
      | Inr dm' \<Rightarrow> build_domains h refs dm')"

definition Update :: "route_ref list \<Rightarrow> 'p Manager \<Rightarrow> (string, 'p Manager) result" where
  "Update refs m =
     (case build_domains (m_heap m) refs Map.empty of
        Inl e \<Rightarrow> Error e
      | Inr dm \<Rightarrow> Ok (m\<lparr>m_domains := Some dm, m_routes := Some refs\<rparr>))"

definition Get :: "'p Manager \<Rightarrow> string \<Rightarrow> route_ref option" where
  "Get m domain = (case m_domains m of Some dm \<Rightarrow> dm (to_lower domain) | None \<Rightarrow> None)"

definition Routes :: "'p Manager \<Rightarrow> route_ref list" where
  "Routes m = (case m_routes m of Some refs \<Rightarrow> refs | None \<Rightarrow> [])"

subsection \<open>Lookups\<close>

definition routeFor :: "'p Manager \<Rightarrow> string \<Rightarrow> route_ref option" where
  "routeFor m domain = (case Get m domain of Some ref \<Rightarrow> Some ref | None \<Rightarrow> m_fallback m)"

definition RouteForDomain :: "'p Manager \<Rightarrow> string \<Rightarrow> route_ref option" where
  "RouteForDomain m domain =
     (case routeFor m domain of
        None \<Rightarrow> None
      | Some ref \<Rightarrow>
          if certificateStatus (m_heap m ref) \<le> CertificateMissing then None else Some ref)"

definition CertificateForClient :: "'p Manager \<Rightarrow> string \<Rightarrow> (string, TLSCertificate option) result" where
  "CertificateForClient m serverName =
     (case m_provider m of
        None \<Rightarrow> Error ''this manager does not support obtaining certificates''
      | Some _ \<Rightarrow>
          (case routeFor m serverName of
             None \<Rightarrow> Ok None
           | Some ref \<Rightarrow> Ok (Certificate (m_heap m ref))))"

subsection \<open>Certificates\<close>

definition loadCertificate :: "route_ref \<Rightarrow> 'p Manager \<Rightarrow> 'p Manager option" where
  "loadCertificate ref m =
     (case m_provider m of
        None \<Rightarrow> Some (upd_route (setCertificateStatus CertificateNotRequired) ref m)
      | Some prov \<Rightarrow>
          (case CertificateNames (m_heap m ref) of
             None \<Rightarrow> None
           | Some (primary, alts) \<Rightarrow>
               (case GetExistingCertificate prov (Provider (m_heap m ref)) primary alts (m_pstate m) of
                  None \<Rightarrow> None
                | Some ((cert, needsRenewal, err), ps) \<Rightarrow>
                    if Domains (m_heap m ref) = [] then None
                    else
                      (let m' = m\<lparr>m_pstate := ps\<rparr> in
                       case err of
                         None \<Rightarrow>
                           Some (upd_route (setCertificateStatus
                               (if needsRenewal then CertificateExpiringSoon else CertificateGood)) ref
                             (upd_route (setCertificate cert) ref m'))
                       | Some _ \<Rightarrow>
                           Some (upd_route (setCertificateStatus CertificateMissing) ref
                             (upd_route (setCertificate None) ref m'))))))"

definition updateCert :: "route_ref \<Rightarrow> 'p Manager \<Rightarrow> 'p Manager option" where
  "updateCert ref m =
     (case m_provider m of
        None \<Rightarrow> None
      | Some prov \<Rightarrow>
          (case CertificateNames (m_heap m ref) of
             None \<Rightarrow> None
           | Some (primary, alts) \<Rightarrow>
               (case GetCertificate prov (Provider (m_heap m ref)) primary alts (m_pstate m) of
                  None \<Rightarrow> None
                | Some ((cert, err), ps) \<Rightarrow>
                    (let m' = m\<lparr>m_pstate := ps\<rparr> in
                     case err of
                       Some _ \<Rightarrow>
                         if Domains (m_heap m ref) = [] then None else loadCertificate ref m'
                     | None \<Rightarrow>
                         Some (upd_route (setCertificateStatus CertificateGood) ref
                           (upd_route (setCertificate cert) ref m'))))))"

fun each_route :: "(route_ref \<Rightarrow> 'p Manager \<Rightarrow> 'p Manager option) \<Rightarrow> route_ref list \<Rightarrow> 'p Manager \<Rightarrow> 'p Manager option" where
  "each_route f [] m = Some m"
| "each_route f (ref # refs) m = (case f ref m of None \<Rightarrow> None | Some m' \<Rightarrow> each_route f refs m')"

definition check_route :: "route_ref \<Rightarrow> 'p Manager \<Rightarrow> 'p Manager option" where
  "check_route ref m =
     (if m_provider m = None
      then Some (upd_route (setCertificateStatus CertificateNotRequired) ref m)
      else updateCert ref m)"

definition CheckCertificates :: "'p Manager \<Rightarrow> 'p Manager option" where
  "CheckCertificates m = each_route check_route (Routes m) m"

text \<open>\<^verbatim>\<open>MonitorCertificates\<close>, as a function of what its \<^verbatim>\<open>select\<close> receives.\<close>

datatype monitor_event = ContextDone | TickerFired

fun MonitorCertificates :: "monitor_event list \<Rightarrow> 'p Manager \<Rightarrow> 'p Manager option" where
  "MonitorCertificates [] m = Some m"
| "MonitorCertificates (ContextDone # es) m = Some m"
| "MonitorCertificates (TickerFired # es) m =
     (case CheckCertificates m of None \<Rightarrow> None | Some m' \<Rightarrow> MonitorCertificates es m')"

subsection \<open>SetRoutes\<close>

text \<open>The result is the error if there is one. On success the source starts \<^verbatim>\<open>CheckCertificates\<close> in
  a goroutine of its own: that is a later step of the system, not part of this one.\<close>

definition SetRoutes ::
  "route_ref list \<Rightarrow> route_ref option \<Rightarrow> 'p Manager \<Rightarrow> (string option \<times> 'p Manager) option" where
  "SetRoutes newRoutes fallback m =
     (case each_route loadCertificate newRoutes m of
        None \<Rightarrow> None
      | Some m1 \<Rightarrow>
          (case Update newRoutes m1 of
             Inl e \<Rightarrow> Some (Some e, m1)
           | Inr m2 \<Rightarrow> Some (None, m2\<lparr>m_fallback := fallback\<rparr>)))"

text \<open>What a configuration source does with the routes it parsed: the routes are new objects, and
  their pointers (with the fallback's) are handed to \<^verbatim>\<open>SetRoutes\<close>.\<close>

definition alloc_routes :: "Route list \<Rightarrow> 'p Manager \<Rightarrow> 'p Manager" where
  "alloc_routes rs m =
     m\<lparr>m_heap := (\<lambda>i. if m_next m \<le> i \<and> i < m_next m + length rs then rs ! (i - m_next m) else m_heap m i),
       m_next := m_next m + length rs\<rparr>"

definition install_routes ::
  "Route list \<Rightarrow> nat option \<Rightarrow> 'p Manager \<Rightarrow> (string option \<times> 'p Manager) option" where
  "install_routes rs fb m =
     SetRoutes [m_next m..<m_next m + length rs] (map_option (\<lambda>i. m_next m + i) fb) (alloc_routes rs m)"

subsection \<open>The domain map: the last route that lists a domain owns it\<close>

definition lists_domain :: "(route_ref \<Rightarrow> Route) \<Rightarrow> string \<Rightarrow> route_ref \<Rightarrow> bool" where
  "lists_domain h k ref \<longleftrightarrow> (\<exists>d \<in> set (Domains (h ref)). to_lower d = k)"

text \<open>The route that owns a lower-case name: the last one in the list with a domain of that name.\<close>

definition owner :: "(route_ref \<Rightarrow> Route) \<Rightarrow> route_ref list \<Rightarrow> string \<Rightarrow> route_ref option" where
  "owner h refs k = find (lists_domain h k) (rev refs)"

lemma add_domains_Inr:
  "add_domains ref ds dm = Inr dm' \<longleftrightarrow>
     list_all isDomainName ds \<and>
     dm' = (\<lambda>k. if k \<in> to_lower ` set ds then Some ref else dm k)"
  by (induction ds arbitrary: dm) (auto simp: fun_eq_iff)

lemma add_domains_Inl:
  "(\<exists>e. add_domains ref ds dm = Inl e) \<longleftrightarrow> \<not> list_all isDomainName ds"
  by (induction ds arbitrary: dm) auto

lemma build_domains_Inr:
  "build_domains h refs dm = Inr dm' \<longleftrightarrow>
     list_all (\<lambda>ref. list_all isDomainName (Domains (h ref))) refs \<and>
     dm' = (\<lambda>k. case owner h refs k of Some ref \<Rightarrow> Some ref | None \<Rightarrow> dm k)"
proof (induction refs arbitrary: dm)
  case Nil
  then show ?case by (auto simp: owner_def)
next
  case (Cons ref refs)
  have eq: "(case owner h (ref # refs) k of Some r \<Rightarrow> Some r | None \<Rightarrow> dm k) =
      (case owner h refs k of Some r \<Rightarrow> Some r
       | None \<Rightarrow> if k \<in> to_lower ` set (Domains (h ref)) then Some ref else dm k)" for k
    by (auto simp: owner_def lists_domain_def find_append split: option.splits)
  show ?case
  proof (cases "add_domains ref (Domains (h ref)) dm")
    case (Inl e)
    then have "\<not> list_all isDomainName (Domains (h ref))" using add_domains_Inl by blast
    with Inl show ?thesis by simp
  next
    case (Inr dm1)
    then have "list_all isDomainName (Domains (h ref))"
      and "dm1 = (\<lambda>k. if k \<in> to_lower ` set (Domains (h ref)) then Some ref else dm k)"
      by (simp_all add: add_domains_Inr)
    with Inr show ?thesis by (simp add: Cons.IH eq)
  qed
qed

lemma build_domains_Inl:
  "(\<exists>e. build_domains h refs dm = Inl e) \<longleftrightarrow>
     \<not> list_all (\<lambda>ref. list_all isDomainName (Domains (h ref))) refs"
  using build_domains_Inr [of h refs dm] by (cases "build_domains h refs dm") auto

lemma owner_Some: "owner h refs k = Some ref \<Longrightarrow> ref \<in> set refs \<and> lists_domain h k ref"
  by (auto simp: owner_def find_Some_iff) (metis nth_mem set_rev length_rev)

lemma owner_None: "owner h refs k = None \<longleftrightarrow> (\<forall>ref \<in> set refs. \<not> lists_domain h k ref)"
  by (auto simp: owner_def find_None_iff)

text \<open>Who owns a name: the last route in the list that has it among its domains.\<close>

lemma owner_last:
  assumes "owner h refs k = Some ref"
  shows "\<exists>us vs. refs = us @ ref # vs \<and> lists_domain h k ref \<and> (\<forall>v \<in> set vs. \<not> lists_domain h k v)"
proof -
  obtain us vs where "rev refs = us @ ref # vs" "lists_domain h k ref" "\<forall>u \<in> set us. \<not> lists_domain h k u"
    using find_Some_first assms unfolding owner_def by metis
  then have "refs = rev vs @ ref # rev us" by (metis rev_append rev.simps(2) append_Cons append_Nil append_assoc rev_rev_ident)
  with \<open>lists_domain h k ref\<close> \<open>\<forall>u \<in> set us. \<not> lists_domain h k u\<close> show ?thesis
    by (metis set_rev)
qed

subsection \<open>What the operations leave unchanged\<close>

text \<open>The parts of a route that are fixed once it is built.\<close>

definition same_config :: "Route \<Rightarrow> Route \<Rightarrow> bool" where
  "same_config r r' \<longleftrightarrow> Domains r' = Domains r \<and> Upstreams r' = Upstreams r \<and> Subject r' = Subject r \<and>
     Headers r' = Headers r \<and> ErrorMappings r' = ErrorMappings r \<and> Provider r' = Provider r \<and>
     RedirectToPrimary r' = RedirectToPrimary r"

text \<open>Certificate operations: routing tables, fallback and the configuration of every route stay.\<close>

definition cert_frame :: "'p Manager \<Rightarrow> 'p Manager \<Rightarrow> bool" where
  "cert_frame m m' \<longleftrightarrow> m_provider m' = m_provider m \<and> m_domains m' = m_domains m \<and>
     m_routes m' = m_routes m \<and> m_fallback m' = m_fallback m \<and> m_next m' = m_next m \<and>
     (\<forall>ref. same_config (m_heap m ref) (m_heap m' ref))"

lemma cert_frame_refl [simp]: "cert_frame m m"
  by (simp add: cert_frame_def same_config_def)

lemma cert_frame_trans: "cert_frame m m' \<Longrightarrow> cert_frame m' m'' \<Longrightarrow> cert_frame m m''"
  by (simp add: cert_frame_def same_config_def)

lemma loadCertificate_frame: "loadCertificate ref m = Some m' \<Longrightarrow> cert_frame m m'"
  by (auto simp: loadCertificate_def upd_route_def cert_frame_def same_config_def Let_def route_simps
      split: option.splits prod.splits if_splits)

lemma updateCert_frame: "updateCert ref m = Some m' \<Longrightarrow> cert_frame m m'"
  by (fastforce simp: updateCert_def upd_route_def cert_frame_def same_config_def Let_def route_simps
      dest: loadCertificate_frame split: option.splits prod.splits if_splits)

lemma check_route_frame: "check_route ref m = Some m' \<Longrightarrow> cert_frame m m'"
  by (auto simp: check_route_def upd_route_def cert_frame_def same_config_def route_simps
      dest: updateCert_frame [unfolded cert_frame_def same_config_def] split: if_splits)

lemma each_route_frame:
  assumes "\<And>ref m m'. f ref m = Some m' \<Longrightarrow> cert_frame m m'"
  shows "each_route f refs m = Some m' \<Longrightarrow> cert_frame m m'"
  by (induction refs arbitrary: m) (auto dest: assms cert_frame_trans split: option.splits)

lemma each_load_frame: "each_route loadCertificate refs m = Some m' \<Longrightarrow> cert_frame m m'"
  by (erule each_route_frame [rotated]) (rule loadCertificate_frame)

lemma CheckCertificates_frame: "CheckCertificates m = Some m' \<Longrightarrow> cert_frame m m'"
  unfolding CheckCertificates_def by (erule each_route_frame [rotated]) (rule check_route_frame)

subsection \<open>Loops over routes\<close>

definition has_domains :: "'p Manager \<Rightarrow> route_ref list \<Rightarrow> bool" where
  "has_domains m refs \<longleftrightarrow> (\<forall>ref \<in> set refs. Domains (m_heap m ref) \<noteq> [])"

lemma has_domains_frame: "cert_frame m m' \<Longrightarrow> has_domains m' refs = has_domains m refs"
  by (simp add: has_domains_def cert_frame_def same_config_def)

lemma each_route_inv:
  assumes "\<And>ref m m'. I m \<Longrightarrow> f ref m = Some m' \<Longrightarrow> I m'"
  shows "I m \<Longrightarrow> each_route f refs m = Some m' \<Longrightarrow> I m'"
  by (induction refs arbitrary: m) (auto dest: assms split: option.splits)

lemma each_route_returns:
  assumes frame: "\<And>ref m m'. f ref m = Some m' \<Longrightarrow> cert_frame m m'"
    and inv: "\<And>ref m m'. I m \<Longrightarrow> f ref m = Some m' \<Longrightarrow> I m'"
    and ret: "\<And>ref m. I m \<Longrightarrow> Domains (m_heap m ref) \<noteq> [] \<Longrightarrow> \<exists>m'. f ref m = Some m'"
  shows "I m \<Longrightarrow> has_domains m refs \<Longrightarrow> \<exists>m'. each_route f refs m = Some m'"
proof (induction refs arbitrary: m)
  case (Cons ref refs)
  then obtain m1 where m1: "f ref m = Some m1"
    using ret [of m ref] by (auto simp: has_domains_def)
  from Cons.prems have "has_domains m1 refs"
    using has_domains_frame [OF frame [OF m1]] by (simp add: has_domains_def)
  with Cons inv m1 show ?case by auto
qed simp

subsection \<open>What SetRoutes does\<close>

lemma SetRoutes_cases:
  assumes "SetRoutes refs fb m = Some (err, m')"
  obtains (failed) e m1 where "err = Some e" "m' = m1" "cert_frame m m1"
      "\<not> list_all (\<lambda>ref. list_all isDomainName (Domains (m_heap m ref))) refs"
      "each_route loadCertificate refs m = Some m1"
  | (installed) m1 where "err = None" "cert_frame m m1"
      "each_route loadCertificate refs m = Some m1"
      "list_all (\<lambda>ref. list_all isDomainName (Domains (m_heap m ref))) refs"
      "m' = m1\<lparr>m_domains := Some (owner (m_heap m) refs), m_routes := Some refs, m_fallback := fb\<rparr>"
proof -
  obtain m1 where m1: "each_route loadCertificate refs m = Some m1"
    using assms by (auto simp: SetRoutes_def split: option.splits)
  then have fr: "cert_frame m m1" by (rule each_load_frame)
  then have D: "Domains (m_heap m1 ref) = Domains (m_heap m ref)" for ref
    by (simp add: cert_frame_def same_config_def)
  then have ow: "owner (m_heap m1) refs = owner (m_heap m) refs"
    by (auto simp: fun_eq_iff owner_def lists_domain_def [abs_def])
  show thesis
  proof (cases "build_domains (m_heap m1) refs Map.empty")
    case (Inl e)
    then have "\<not> list_all (\<lambda>ref. list_all isDomainName (Domains (m_heap m ref))) refs"
      using build_domains_Inl [of "m_heap m1" refs Map.empty] by (auto simp: D)
    with Inl m1 fr assms show thesis
      by (intro failed [of e m1]) (auto simp: SetRoutes_def Update_def)
  next
    case (Inr dm)
    then have "list_all (\<lambda>ref. list_all isDomainName (Domains (m_heap m ref))) refs"
      and "dm = owner (m_heap m) refs"
      by (auto simp: build_domains_Inr D ow fun_eq_iff split: option.splits)
    with Inr m1 fr assms show thesis
      by (intro installed [of m1]) (auto simp: SetRoutes_def Update_def)
  qed
qed

subsection \<open>The invariant\<close>

text \<open>With a provider, a route whose status says it can be served has a certificate, and no
  route is marked as not needing one; without a provider no route ever has a certificate.\<close>

definition cert_ok :: "bool \<Rightarrow> Route \<Rightarrow> bool" where
  "cert_ok tls r \<longleftrightarrow>
     (if tls then certificateStatus r \<noteq> CertificateNotRequired \<and>
                  (\<not> certificateStatus r \<le> CertificateMissing \<longrightarrow> certificate r \<noteq> None)
      else certificate r = None \<and>
           (certificateStatus r = CertificateNotChecked \<or> certificateStatus r = CertificateNotRequired))"

definition certs_ok :: "'p Manager \<Rightarrow> bool" where
  "certs_ok m \<longleftrightarrow> (\<forall>ref. cert_ok (m_provider m \<noteq> None) (m_heap m ref))"

lemma certs_ok_simps [simp]:
  "certs_ok (m\<lparr>m_pstate := ps\<rparr>) = certs_ok m"
  "certs_ok (m\<lparr>m_domains := d, m_routes := rr, m_fallback := f\<rparr>) = certs_ok m"
  by (simp_all add: certs_ok_def)

text \<open>The routing tables agree with each other and with the routes they refer to.\<close>

definition tables_ok :: "'p Manager \<Rightarrow> bool" where
  "tables_ok m \<longleftrightarrow>
     (\<forall>ref < m_next m. Domains (m_heap m ref) \<noteq> []) \<and>
     (\<forall>ref \<in> set (Routes m). ref < m_next m \<and> list_all isDomainName (Domains (m_heap m ref))) \<and>
     (\<forall>ref. m_fallback m = Some ref \<longrightarrow> ref \<in> set (Routes m)) \<and>
     (case m_domains m of None \<Rightarrow> m_routes m = None | Some dm \<Rightarrow>
        m_routes m \<noteq> None \<and> dm = owner (m_heap m) (Routes m))"

lemma routeFor_in_Routes:
  assumes "tables_ok m" "routeFor m d = Some ref"
  shows "ref \<in> set (Routes m)"
  using assms owner_Some [of "m_heap m" "Routes m" "to_lower d" ref]
  by (auto simp: routeFor_def Get_def tables_ok_def split: option.splits)

definition mgr_inv :: "'p Manager \<Rightarrow> bool" where
  "mgr_inv m \<longleftrightarrow> certs_ok m \<and> tables_ok m"

lemma mgr_inv_init: "mgr_inv (NewManager prov ps)"
  by (auto simp: mgr_inv_def certs_ok_def cert_ok_def tables_ok_def NewManager_def new_route_def Routes_def
      less_eq_CertificateStatus_def)

lemma tables_ok_frame:
  assumes "cert_frame m m'" "tables_ok m"
  shows "tables_ok m'"
proof -
  have D: "Domains (m_heap m' ref) = Domains (m_heap m ref)" for ref
    using assms(1) by (simp add: cert_frame_def same_config_def)
  then have "owner (m_heap m') refs = owner (m_heap m) refs" for refs
    by (auto simp: fun_eq_iff owner_def lists_domain_def [abs_def])
  moreover have "Routes m' = Routes m" using assms(1) by (simp add: cert_frame_def Routes_def)
  ultimately show ?thesis
    using D assms by (auto simp: tables_ok_def cert_frame_def split: option.splits)
qed

lemma cert_ok_upd:
  assumes "certs_ok m" "cert_ok (m_provider m \<noteq> None) (f (m_heap m ref))"
  shows "certs_ok (upd_route f ref m)"
  using assms by (auto simp: certs_ok_def upd_route_def)

lemma not_required_certs_ok:
  assumes "m_provider m = None" "certs_ok m"
  shows "certs_ok (upd_route (setCertificateStatus CertificateNotRequired) ref m)"
  using assms by (intro cert_ok_upd) (auto simp: certs_ok_def cert_ok_def route_simps)

text \<open>A manager without a provider, which serves plain HTTP.\<close>

definition plain_ok :: "'p Manager \<Rightarrow> bool" where
  "plain_ok m \<longleftrightarrow> m_provider m = None \<and> certs_ok m"

lemma loadCertificate_plain_ok: "plain_ok m \<Longrightarrow> loadCertificate ref m = Some m' \<Longrightarrow> plain_ok m'"
  using not_required_certs_ok [of m ref]
  by (auto simp: plain_ok_def loadCertificate_def upd_route_def)

lemma check_route_plain_ok: "plain_ok m \<Longrightarrow> check_route ref m = Some m' \<Longrightarrow> plain_ok m'"
  using not_required_certs_ok [of m ref]
  by (auto simp: plain_ok_def check_route_def upd_route_def)

lemma plain_returns:
  assumes "plain_ok m"
  shows "\<exists>m'. loadCertificate ref m = Some m'" "\<exists>m'. check_route ref m = Some m'"
  using assms by (auto simp: plain_ok_def loadCertificate_def check_route_def)

subsection \<open>The interface to certificate providers\<close>

text \<open>What the manager relies on, for provider states that satisfy an invariant of the provider: the
  calls return and keep the invariant, and a call that reports no error delivers a certificate.\<close>

locale certificate_provider =
  fixes prov :: "'p CertificateProvider" and pinv :: "'p \<Rightarrow> bool"
  assumes get_returns: "pinv p \<Longrightarrow> \<exists>c err p'. GetCertificate prov s n as p = Some ((c, err), p')"
    and get_inv: "pinv p \<Longrightarrow> GetCertificate prov s n as p = Some ((c, err), p') \<Longrightarrow> pinv p'"
    and get_ok: "pinv p \<Longrightarrow> GetCertificate prov s n as p = Some ((c, None), p') \<Longrightarrow> c \<noteq> None"
    and existing_returns:
      "pinv p \<Longrightarrow> \<exists>c b err p'. GetExistingCertificate prov s n as p = Some ((c, b, err), p')"
    and existing_inv: "pinv p \<Longrightarrow> GetExistingCertificate prov s n as p = Some ((c, b, err), p') \<Longrightarrow> pinv p'"
    and existing_ok:
      "pinv p \<Longrightarrow> GetExistingCertificate prov s n as p = Some ((c, b, None), p') \<Longrightarrow> c \<noteq> None"
begin

definition tls_ok :: "'p Manager \<Rightarrow> bool" where
  "tls_ok m \<longleftrightarrow> m_provider m = Some prov \<and> pinv (m_pstate m) \<and> certs_ok m"

lemma loadCertificate_cases:
  assumes "tls_ok m" "loadCertificate ref m = Some m'"
  obtains cert st ps where "m' = upd_route (setCertificateStatus st) ref
      (upd_route (setCertificate cert) ref (m\<lparr>m_pstate := ps\<rparr>))"
    and "pinv ps" "st \<noteq> CertificateNotRequired" "st \<le> CertificateMissing \<or> cert \<noteq> None"
proof -
  obtain primary alts where names: "CertificateNames (m_heap m ref) = Some (primary, alts)"
    using assms by (auto simp: tls_ok_def loadCertificate_def split: option.splits)
  obtain cert b err ps where get: "GetExistingCertificate prov (Provider (m_heap m ref)) primary alts (m_pstate m)
      = Some ((cert, b, err), ps)"
    using assms(1) existing_returns unfolding tls_ok_def by blast
  have "pinv ps" using get assms(1) existing_inv unfolding tls_ok_def by blast
  moreover have "err = None \<Longrightarrow> cert \<noteq> None" using get assms(1) existing_ok unfolding tls_ok_def by blast
  ultimately show thesis
    using that assms names get
    by (auto simp: tls_ok_def loadCertificate_def Let_def status_le_missing split: option.splits if_splits)
qed

lemma store_cert_ok:
  assumes "tls_ok m" "pinv ps" "st \<noteq> CertificateNotRequired" "st \<le> CertificateMissing \<or> cert \<noteq> None"
  shows "tls_ok (upd_route (setCertificateStatus st) ref (upd_route (setCertificate cert) ref (m\<lparr>m_pstate := ps\<rparr>)))"
  using assms by (auto simp: tls_ok_def certs_ok_def cert_ok_def upd_route_def route_simps)

lemma loadCertificate_tls_ok: "tls_ok m \<Longrightarrow> loadCertificate ref m = Some m' \<Longrightarrow> tls_ok m'"
  by (metis loadCertificate_cases store_cert_ok)

lemma loadCertificate_returns: "tls_ok m \<Longrightarrow> Domains (m_heap m ref) \<noteq> [] \<Longrightarrow> \<exists>m'. loadCertificate ref m = Some m'"
proof -
  assume ok: "tls_ok m" and ds: "Domains (m_heap m ref) \<noteq> []"
  obtain primary alts where names: "CertificateNames (m_heap m ref) = Some (primary, alts)"
    using ds CertificateNames_Some by (metis option.exhaust prod.exhaust)
  obtain cert b err ps where "GetExistingCertificate prov (Provider (m_heap m ref)) primary alts (m_pstate m)
      = Some ((cert, b, err), ps)"
    using ok existing_returns unfolding tls_ok_def by blast
  with ok ds names show ?thesis by (cases err) (auto simp: tls_ok_def loadCertificate_def Let_def)
qed

lemma updateCert_unfold:
  assumes "tls_ok m" "Domains (m_heap m ref) \<noteq> []"
  obtains cert and err :: "string option" and ps where "pinv ps" "err = None \<Longrightarrow> cert \<noteq> None"
    and "updateCert ref m = (if err = None then Some (upd_route (setCertificateStatus CertificateGood) ref
        (upd_route (setCertificate cert) ref (m\<lparr>m_pstate := ps\<rparr>))) else loadCertificate ref (m\<lparr>m_pstate := ps\<rparr>))"
proof -
  obtain primary alts where names: "CertificateNames (m_heap m ref) = Some (primary, alts)"
    using assms(2) CertificateNames_Some by (metis option.exhaust prod.exhaust)
  obtain cert err ps where get: "GetCertificate prov (Provider (m_heap m ref)) primary alts (m_pstate m)
      = Some ((cert, err), ps)"
    using assms(1) get_returns unfolding tls_ok_def by blast
  have "pinv ps" using get assms(1) get_inv unfolding tls_ok_def by blast
  moreover have "err = None \<Longrightarrow> cert \<noteq> None" using get assms(1) get_ok unfolding tls_ok_def by blast
  ultimately show thesis
    using assms names get
    by (intro that [of ps err cert]) (auto simp: tls_ok_def updateCert_def Let_def split: option.splits)
qed

lemma pstate_tls_ok: "tls_ok m \<Longrightarrow> pinv ps \<Longrightarrow> tls_ok (m\<lparr>m_pstate := ps\<rparr>)"
  by (simp add: tls_ok_def)

lemma check_route_returns:
  assumes "tls_ok m" "Domains (m_heap m ref) \<noteq> []"
  shows "\<exists>m'. check_route ref m = Some m' \<and> tls_ok m'"
  using assms
proof (rule updateCert_unfold)
  fix cert err ps
  assume ps: "pinv ps" and cert: "err = None \<Longrightarrow> cert \<noteq> None"
    and upd: "updateCert ref m = (if err = None then Some (upd_route (setCertificateStatus CertificateGood) ref
        (upd_route (setCertificate cert) ref (m\<lparr>m_pstate := ps\<rparr>))) else loadCertificate ref (m\<lparr>m_pstate := ps\<rparr>))"
  have ck: "check_route ref m = updateCert ref m" using assms(1) by (simp add: check_route_def tls_ok_def)
  show ?thesis
  proof (cases "err = None")
    case True
    with upd ck cert ps assms(1) show ?thesis by (simp add: store_cert_ok)
  next
    case False
    moreover obtain m' where "loadCertificate ref (m\<lparr>m_pstate := ps\<rparr>) = Some m'"
      using loadCertificate_returns [OF pstate_tls_ok [OF assms(1) ps]] assms(2) by auto
    ultimately show ?thesis
      using upd ck loadCertificate_tls_ok [OF pstate_tls_ok [OF assms(1) ps]] by auto
  qed
qed

end

subsection \<open>Runs of the manager\<close>

text \<open>
  The steps of the goroutines that share a manager: a configuration source installs the routes of a
  parsed configuration; a goroutine running \<^verbatim>\<open>CheckCertificates\<close> (several may run, over
  snapshots of the route list that may be out of date) handles one route; and the provider's
  world changes, as time passes and other users of the store act.
\<close>

inductive mgr_step :: "('p \<Rightarrow> bool) \<Rightarrow> 'p Manager \<Rightarrow> 'p Manager \<Rightarrow> bool" for pinv where
  install: "list_all route_ok rs \<Longrightarrow> (\<And>i. fb = Some i \<Longrightarrow> i < length rs) \<Longrightarrow>
    install_routes rs fb m = Some (err, m') \<Longrightarrow> mgr_step pinv m m'"
| check: "ref < m_next m \<Longrightarrow> check_route ref m = Some m' \<Longrightarrow> mgr_step pinv m m'"
| world: "pinv ps \<Longrightarrow> mgr_step pinv m (m\<lparr>m_pstate := ps\<rparr>)"

inductive mgr_reachable :: "('p \<Rightarrow> bool) \<Rightarrow> 'p CertificateProvider option \<Rightarrow> 'p Manager \<Rightarrow> bool"
  for pinv prov where
  start: "pinv ps \<Longrightarrow> mgr_reachable pinv prov (NewManager prov ps)"
| step: "mgr_reachable pinv prov m \<Longrightarrow> mgr_step pinv m m' \<Longrightarrow> mgr_reachable pinv prov m'"

lemma alloc_routes_simps [simp]:
  "m_provider (alloc_routes rs m) = m_provider m" "m_routes (alloc_routes rs m) = m_routes m"
  "m_domains (alloc_routes rs m) = m_domains m" "m_fallback (alloc_routes rs m) = m_fallback m"
  "m_next (alloc_routes rs m) = m_next m + length rs" "m_pstate (alloc_routes rs m) = m_pstate m"
  by (simp_all add: alloc_routes_def)

lemma alloc_routes_old: "ref < m_next m \<Longrightarrow> m_heap (alloc_routes rs m) ref = m_heap m ref"
  by (simp add: alloc_routes_def)

lemma alloc_routes_new: "i < length rs \<Longrightarrow> m_heap (alloc_routes rs m) (m_next m + i) = rs ! i"
  by (simp add: alloc_routes_def)

lemma alloc_routes_new':
  "m_next m \<le> ref \<Longrightarrow> ref < m_next m + length rs \<Longrightarrow> m_heap (alloc_routes rs m) ref = rs ! (ref - m_next m)"
  by (simp add: alloc_routes_def)

lemma new_refs_ok:
  assumes "list_all route_ok rs" "ref \<in> set [m_next m..<m_next m + length rs]"
  shows "route_ok (m_heap (alloc_routes rs m) ref)"
  using assms by (auto simp: alloc_routes_new' list_all_length)

lemma alloc_certs_ok: "list_all route_ok rs \<Longrightarrow> certs_ok m \<Longrightarrow> certs_ok (alloc_routes rs m)"
  by (auto simp: certs_ok_def alloc_routes_def cert_ok_def list_all_length route_ok_def building_ok_def
      less_eq_CertificateStatus_def)

lemma alloc_tables_ok:
  assumes "list_all route_ok rs" "tables_ok m"
  shows "tables_ok (alloc_routes rs m)"
proof -
  have R: "Routes (alloc_routes rs m) = Routes m" by (simp add: Routes_def)
  have old: "m_heap (alloc_routes rs m) ref = m_heap m ref" if "ref \<in> set (Routes m)" for ref
    using that assms(2) by (intro alloc_routes_old) (auto simp: tables_ok_def)
  have "owner (m_heap (alloc_routes rs m)) (Routes m) = owner (m_heap m) (Routes m)"
    using old by (auto simp: fun_eq_iff owner_def lists_domain_def intro!: find_cong_set)
  moreover have "Domains (m_heap (alloc_routes rs m) ref) \<noteq> []" if "ref < m_next m + length rs" for ref
    using that assms alloc_routes_old [of ref m rs] new_refs_ok [OF assms(1), of ref m]
    by (cases "ref < m_next m") (auto simp: tables_ok_def route_ok_def building_ok_def)
  ultimately show ?thesis
    using assms(2) R old by (auto simp: tables_ok_def split: option.splits)
qed

lemma install_tables_ok:
  assumes "list_all route_ok rs" "\<And>i. fb = Some i \<Longrightarrow> i < length rs" "tables_ok m"
    and "install_routes rs fb m = Some (err, m')"
  shows "tables_ok m'"
  using assms(4) unfolding install_routes_def
proof (cases rule: SetRoutes_cases)
  case (failed e m1)
  then show ?thesis using alloc_tables_ok [OF assms(1,3)] tables_ok_frame by blast
next
  case (installed m1)
  let ?refs = "[m_next m..<m_next m + length rs]" and ?ma = "alloc_routes rs m"
  have t1: "tables_ok m1" using installed(2) alloc_tables_ok [OF assms(1,3)] tables_ok_frame by blast
  have D: "Domains (m_heap m1 ref) = Domains (m_heap ?ma ref)" "m_next m1 = m_next m + length rs" for ref
    using installed(2) by (simp_all add: cert_frame_def same_config_def)
  then have "owner (m_heap m1) ?refs = owner (m_heap ?ma) ?refs"
    by (auto simp: fun_eq_iff owner_def lists_domain_def [abs_def])
  with t1 D installed assms(2) show ?thesis
    by (auto simp: tables_ok_def Routes_def list_all_iff)
qed

text \<open>A property of managers that loading certificates keeps, and that does not depend on the
  routing tables, survives the installation of routes.\<close>

lemma install_keeps:
  assumes "I (alloc_routes rs m)" "install_routes rs fb m = Some (err, m')"
    and load: "\<And>ref m m'. I m \<Longrightarrow> loadCertificate ref m = Some m' \<Longrightarrow> I m'"
    and tables: "\<And>m d rr f. I m \<Longrightarrow> I (m\<lparr>m_domains := d, m_routes := rr, m_fallback := f\<rparr>)"
  shows "I m'"
proof -
  have each: "each_route loadCertificate refs (alloc_routes rs m) = Some m1 \<Longrightarrow> I m1" for refs m1
    by (rule each_route_inv [of I, OF load assms(1)])
  from assms(2) show ?thesis
    unfolding install_routes_def
    by (cases rule: SetRoutes_cases) (auto dest!: each intro: tables)
qed

lemma mgr_step_tables_ok: "mgr_step pinv m m' \<Longrightarrow> tables_ok m \<Longrightarrow> tables_ok m'"
proof (induction rule: mgr_step.induct)
  case (install rs fb m err m')
  show ?case by (rule install_tables_ok [OF install.hyps(1,2) install.prems install.hyps(3)])
next
  case (check ref m m')
  then show ?case using check_route_frame tables_ok_frame by blast
next
  case (world ps m)
  have "cert_frame m (m\<lparr>m_pstate := ps\<rparr>)" by (simp add: cert_frame_def same_config_def)
  then show ?case using world tables_ok_frame by blast
qed

lemma mgr_step_plain_ok: "mgr_step pinv m m' \<Longrightarrow> plain_ok m \<Longrightarrow> plain_ok m'"
proof (induction rule: mgr_step.induct)
  case (install rs fb m err m')
  then have "plain_ok (alloc_routes rs m)" by (simp add: plain_ok_def alloc_certs_ok)
  then show ?case
    using install(3) loadCertificate_plain_ok
    by (rule install_keeps) (simp_all add: plain_ok_def)
next
  case (check ref m m')
  then show ?case using check_route_plain_ok by blast
qed (simp add: plain_ok_def)

lemma mgr_reachable_tables_ok: "mgr_reachable pinv prov m \<Longrightarrow> tables_ok m"
proof (induction rule: mgr_reachable.induct)
  case (start ps)
  then show ?case using mgr_inv_init [of prov ps] by (simp add: mgr_inv_def)
next
  case (step m m')
  then show ?case using mgr_step_tables_ok by blast
qed

lemma mgr_reachable_plain_ok: "mgr_reachable pinv None m \<Longrightarrow> plain_ok m"
proof (induction rule: mgr_reachable.induct)
  case (start ps)
  then show ?case using mgr_inv_init [of None ps] by (simp add: mgr_inv_def plain_ok_def NewManager_def)
next
  case (step m m')
  then show ?case using mgr_step_plain_ok by blast
qed

context certificate_provider
begin

lemma mgr_step_tls_ok: "mgr_step pinv m m' \<Longrightarrow> tls_ok m \<Longrightarrow> tables_ok m \<Longrightarrow> tls_ok m'"
proof (induction rule: mgr_step.induct)
  case (install rs fb m err m')
  then have "tls_ok (alloc_routes rs m)" by (simp add: tls_ok_def alloc_certs_ok)
  then show ?case
    using install(3) loadCertificate_tls_ok
    by (rule install_keeps) (simp_all add: tls_ok_def)
next
  case (check ref m m')
  then show ?case using check_route_returns [of m ref] by (auto simp: tables_ok_def)
next
  case (world ps m)
  then show ?case by (intro pstate_tls_ok)
qed

lemma mgr_reachable_tls_ok: "mgr_reachable pinv (Some prov) m \<Longrightarrow> tls_ok m"
proof (induction rule: mgr_reachable.induct)
  case (start ps)
  then show ?case
    using mgr_inv_init [of "Some prov" ps] by (simp add: mgr_inv_def tls_ok_def NewManager_def)
next
  case (step m m')
  then show ?case using mgr_step_tls_ok mgr_reachable_tables_ok by blast
qed

text \<open>Every domain for which requests are proxied has a certificate to offer.\<close>

lemma served_has_certificate:
  assumes "mgr_reachable pinv (Some prov) m" "RouteForDomain m d = Some ref"
  shows "\<exists>c. certificate (m_heap m ref) = Some c \<and> CertificateForClient m d = Ok (Some c)"
proof -
  have ok: "tls_ok m" by (rule mgr_reachable_tls_ok [OF assms(1)])
  then have "cert_ok True (m_heap m ref)" by (auto simp: tls_ok_def certs_ok_def)
  with assms(2) obtain c where "certificate (m_heap m ref) = Some c"
    by (auto simp: RouteForDomain_def cert_ok_def split: option.splits if_splits)
  moreover have "routeFor m d = Some ref"
    using assms(2) by (auto simp: RouteForDomain_def split: option.splits if_splits)
  ultimately show ?thesis
    using ok by (simp add: CertificateForClient_def Certificate_def tls_ok_def)
qed

text \<open>No operation of a manager in use panics: a parsed configuration can be installed, and the
  certificates of the current routes can be checked.\<close>

lemma install_returns:
  assumes "mgr_reachable pinv (Some prov) m" "list_all route_ok rs"
  shows "\<exists>res. install_routes rs fb m = Some res"
proof -
  let ?refs = "[m_next m..<m_next m + length rs]"
  have "tls_ok (alloc_routes rs m)"
    using mgr_reachable_tls_ok [OF assms(1)] assms(2) by (simp add: tls_ok_def alloc_certs_ok)
  moreover have "has_domains (alloc_routes rs m) ?refs"
    using new_refs_ok [OF assms(2)] unfolding has_domains_def route_ok_def building_ok_def by blast
  ultimately obtain m1 where "each_route loadCertificate ?refs (alloc_routes rs m) = Some m1"
    using each_route_returns [of loadCertificate tls_ok "alloc_routes rs m" ?refs]
      loadCertificate_frame loadCertificate_tls_ok loadCertificate_returns by metis
  then show ?thesis by (auto simp: install_routes_def SetRoutes_def split: sum.splits)
qed

lemma check_all_returns:
  "tls_ok m \<Longrightarrow> has_domains m refs \<Longrightarrow> \<exists>m'. each_route check_route refs m = Some m' \<and> tls_ok m'"
proof (induction refs arbitrary: m)
  case (Cons ref refs)
  then obtain m1 where m1: "check_route ref m = Some m1" "tls_ok m1"
    using check_route_returns [of m ref] by (auto simp: has_domains_def)
  have "has_domains m1 refs"
    using Cons.prems(2) has_domains_frame [OF check_route_frame [OF m1(1)]] by (simp add: has_domains_def)
  with Cons.IH m1 show ?case by auto
qed simp

lemma CheckCertificates_returns:
  assumes "mgr_reachable pinv (Some prov) m"
  shows "\<exists>m'. CheckCertificates m = Some m' \<and> tls_ok m'"
proof -
  have "has_domains m (Routes m)"
    using mgr_reachable_tables_ok [OF assms] by (auto simp: tables_ok_def has_domains_def)
  with mgr_reachable_tls_ok [OF assms] show ?thesis
    unfolding CheckCertificates_def by (rule check_all_returns)
qed

end

subsection \<open>Without a provider\<close>

lemma plain_load:
  "m_provider m = None \<Longrightarrow> loadCertificate ref m = Some (upd_route (setCertificateStatus CertificateNotRequired) ref m)"
  by (simp add: loadCertificate_def)

lemma plain_loaded:
  assumes "m_provider m = None" "each_route loadCertificate refs m = Some m1"
  shows "ref \<in> set refs \<or> certificateStatus (m_heap m ref) = CertificateNotRequired \<Longrightarrow>
    certificateStatus (m_heap m1 ref) = CertificateNotRequired"
  using assms
proof (induction refs arbitrary: m)
  case (Cons r refs)
  let ?m = "upd_route (setCertificateStatus CertificateNotRequired) r m"
  have "m_provider ?m = None" "each_route loadCertificate refs ?m = Some m1"
    using Cons.prems by (simp_all add: plain_load upd_route_def)
  moreover have "ref \<in> set refs \<or> certificateStatus (m_heap ?m ref) = CertificateNotRequired"
    using Cons.prems(1) by (auto simp: upd_route_def route_simps)
  ultimately show ?case using Cons.IH by blast
qed simp

end
