(* ===== verification/Redirectors.thy ===== *)
theory Redirectors
  imports Http Proxy_Manager
begin

text \<open>
  \<^verbatim>\<open>proxy/redirector.go\<close>: the redirect from plain HTTP to HTTPS, and the redirect from a route's
  secondary domains to its primary one.

  The outcome of a handler is a value: a redirect (status and target URL), a bare status, the
  call of the next handler, or a panic. \<^verbatim>\<open>http.Redirect\<close> sends the target as the
  \<^verbatim>\<open>Location\<close> header.
\<close>

datatype outcome =
    Redirect int URL
  | WriteStatus int
  | CallNext Request
  | Panic

definition StatusPermanentRedirect :: int where
  "StatusPermanentRedirect = 308"

definition StatusBadRequest :: int where
  "StatusBadRequest = 400"

definition HttpRedirector_ServeHTTP :: "Request \<Rightarrow> outcome" where
  "HttpRedirector_ServeHTTP request =
     (let host = strip_port (req_Host request) in
      if \<not> isDomainName host then WriteStatus StatusBadRequest
      else (case req_URL request of
              None \<Rightarrow> Panic
            | Some u \<Rightarrow>
                Redirect StatusPermanentRedirect
                  (empty_url\<lparr>url_Scheme := ''https'', url_Host := host, url_Path := url_Path u,
                     url_RawQuery := url_RawQuery u\<rparr>)))"

text \<open>The interface \<^verbatim>\<open>RouteProvider\<close>, as the manager implements it.\<close>

definition route_for :: "'p Manager \<Rightarrow> string \<Rightarrow> Route option" where
  "route_for m domain = map_option (m_heap m) (RouteForDomain m domain)"

text \<open>A redirector has the lookup and the handler to pass requests on to.\<close>

record 'h DomainRedirector =
  dr_routeProvider :: "string \<Rightarrow> Route option"
  dr_next :: 'h

definition NewDomainRedirector :: "(string \<Rightarrow> Route option) \<Rightarrow> 'h \<Rightarrow> 'h DomainRedirector" where
  "NewDomainRedirector provider next = \<lparr>dr_routeProvider = provider, dr_next = next\<rparr>"

definition DomainRedirector_hostForRequest :: "Request \<Rightarrow> string" where
  "DomainRedirector_hostForRequest req =
     (case split_host_port (req_Host req) of Inl err \<Rightarrow> req_Host req | Inr (host, port) \<Rightarrow> host)"

definition DomainRedirector_ServeHTTP :: "(string \<Rightarrow> Route option) \<Rightarrow> Request \<Rightarrow> outcome" where
  "DomainRedirector_ServeHTTP routeForDomain request =
     (let host = DomainRedirector_hostForRequest request in
      case routeForDomain host of
        None \<Rightarrow> CallNext request
      | Some route \<Rightarrow>
          if \<not> RedirectToPrimary route then CallNext request
          else (case Domains route of
                  [] \<Rightarrow> Panic
                | primary # _ \<Rightarrow>
                    if primary \<noteq> host then
                      (case req_URL request of
                         None \<Rightarrow> Panic
                       | Some u \<Rightarrow>
                           Redirect StatusPermanentRedirect
                             (u\<lparr>url_Host := primary,
                                url_Scheme := (if req_TLS request then ''https'' else ''http'')\<rparr>))
                    else CallNext request))"

subsection \<open>Facts about single requests\<close>

lemma DomainRedirector_host [simp]: "DomainRedirector_hostForRequest req = strip_port (req_Host req)"
  by (simp add: DomainRedirector_hostForRequest_def strip_port_def split: sum.split)

lemma isDomainName_not_port: "isDomainName h \<Longrightarrow> strip_port h = h"
  by simp

text \<open>The host a redirect to the primary domain leads to.\<close>

definition primary_redirect :: "(string \<Rightarrow> Route option) \<Rightarrow> string \<Rightarrow> string option" where
  "primary_redirect routeForDomain host =
     (case routeForDomain host of
        None \<Rightarrow> None
      | Some route \<Rightarrow>
          (case Domains route of
             [] \<Rightarrow> None
           | primary # _ \<Rightarrow>
               if RedirectToPrimary route \<and> primary \<noteq> host then Some primary else None))"

subsection \<open>Redirects to the primary domain come to an end\<close>

text \<open>
  A client that follows redirects, asking for the host of each target in turn. \<open>norm\<close> is what
  the client does to a host name before it sends it (the identity, or lower-casing).
\<close>

definition request_for :: "string \<Rightarrow> Request" where
  "request_for host = \<lparr>req_Method = ''GET'', req_URL = Some (empty_url\<lparr>url_Path := ''/''\<rparr>), req_Host = host,
     req_Header = Map.empty, req_RemoteAddr = [], req_TLS = True\<rparr>"

definition redirect_target :: "(string \<Rightarrow> Route option) \<Rightarrow> string \<Rightarrow> string option" where
  "redirect_target routeForDomain host =
     (case DomainRedirector_ServeHTTP routeForDomain (request_for host) of
        Redirect _ target \<Rightarrow> Some (url_Host target)
      | _ \<Rightarrow> None)"

fun follow :: "(string \<Rightarrow> string) \<Rightarrow> (string \<Rightarrow> Route option) \<Rightarrow> nat \<Rightarrow> string \<Rightarrow> string" where
  "follow norm rf 0 host = host"
| "follow norm rf (Suc n) host =
     (case redirect_target rf host of None \<Rightarrow> host | Some p \<Rightarrow> follow norm rf n (norm p))"

lemma redirect_target_eq: "redirect_target rf host = primary_redirect rf (strip_port host)"
  by (auto simp: redirect_target_def primary_redirect_def DomainRedirector_ServeHTTP_def request_for_def Let_def
      split: option.splits list.splits)

text \<open>How many routes come after the owner of a name; the whole list where nobody owns it.\<close>

definition routes_after :: "'p Manager \<Rightarrow> string \<Rightarrow> nat" where
  "routes_after m host =
     length (takeWhile (\<lambda>ref. \<not> lists_domain (m_heap m) (to_lower host) ref) (rev (Routes m)))"

lemma find_takeWhile:
  "find P xs = Some x \<longleftrightarrow>
     length (takeWhile (\<lambda>y. \<not> P y) xs) < length xs \<and> x = xs ! length (takeWhile (\<lambda>y. \<not> P y) xs)"
  by (induction xs) auto

lemma takeWhile_length_le:
  "i < length xs \<Longrightarrow> P (xs ! i) \<Longrightarrow> length (takeWhile (\<lambda>y. \<not> P y) xs) \<le> i"
proof (induction xs arbitrary: i)
  case (Cons x xs)
  then show ?case by (cases i) auto
qed simp

lemma find_None_takeWhile: "find P xs = None \<Longrightarrow> takeWhile (\<lambda>y. \<not> P y) xs = xs"
  by (induction xs) (auto split: if_splits)

lemma routeFor_owner:
  assumes "tables_ok m"
  shows "routeFor m host =
    (case owner (m_heap m) (Routes m) (to_lower host) of Some ref \<Rightarrow> Some ref | None \<Rightarrow> m_fallback m)"
  using assms by (auto simp: routeFor_def Get_def tables_ok_def Routes_def owner_def split: option.splits)

text \<open>A redirect leads to a name whose owner stands at the same place in the list or after it.\<close>

lemma redirect_step:
  assumes "tables_ok m" "primary_redirect (route_for m) host = Some p"
    and "primary_redirect (route_for m) p = Some q"
  shows "routes_after m p < routes_after m host"
proof -
  let ?P = "\<lambda>h. lists_domain (m_heap m) (to_lower h)" and ?xs = "rev (Routes m)"
  obtain ref where ref: "routeFor m host = Some ref" "\<exists>ds. Domains (m_heap m ref) = p # ds"
    using assms(2)
    by (auto simp: primary_redirect_def route_for_def RouteForDomain_def
        split: option.splits list.splits if_splits)
  obtain ref' where ref': "routeFor m p = Some ref'" "\<exists>d ds. Domains (m_heap m ref') = d # ds \<and> d \<noteq> p"
    using assms(3)
    by (auto simp: primary_redirect_def route_for_def RouteForDomain_def
        split: option.splits list.splits if_splits)
  have P: "?P p ref" using ref(2) by (auto simp: lists_domain_def)
  have "ref \<in> set (Routes m)"
    using ref(1) assms(1) owner_Some by (auto simp: routeFor_owner tables_ok_def split: option.splits)
  with P have "owner (m_heap m) (Routes m) (to_lower p) \<noteq> None" by (auto simp: owner_None)
  then have "find (?P p) ?xs = Some ref'"
    using ref'(1) assms(1) by (auto simp: routeFor_owner owner_def split: option.splits)
  then have at': "ref' = ?xs ! routes_after m p" "routes_after m p < length ?xs"
    by (simp_all add: find_takeWhile routes_after_def)
  show ?thesis
  proof (cases "find (?P host) ?xs")
    case None
    then have "routes_after m host = length ?xs" by (simp add: routes_after_def find_None_takeWhile)
    with at' show ?thesis by simp
  next
    case (Some r)
    then have "r = ref" using ref(1) assms(1) by (simp add: routeFor_owner owner_def)
    with Some have at: "ref = ?xs ! routes_after m host" "routes_after m host < length ?xs"
      by (simp_all add: find_takeWhile routes_after_def)
    then have "routes_after m p \<le> routes_after m host"
      using P unfolding routes_after_def by (intro takeWhile_length_le) (auto simp: routes_after_def)
    moreover have "ref \<noteq> ref'" using ref(2) ref'(2) by auto
    ultimately show ?thesis using at at' by (metis order_le_imp_less_or_eq)
  qed
qed

lemma routes_after_le: "routes_after m host \<le> length (Routes m)"
  using length_takeWhile_le [of _ "rev (Routes m)"] by (simp add: routes_after_def)

lemma primary_is_domain:
  assumes "tables_ok m" "primary_redirect (route_for m) host = Some p"
  shows "isDomainName p" "\<exists>ref \<in> set (Routes m). \<exists>ds. Domains (m_heap m ref) = p # ds"
proof -
  obtain ref where ref: "routeFor m host = Some ref" "\<exists>ds. Domains (m_heap m ref) = p # ds"
    using assms(2)
    by (auto simp: primary_redirect_def route_for_def RouteForDomain_def split: option.splits list.splits if_splits)
  moreover have "ref \<in> set (Routes m)"
    using ref(1) assms(1) owner_Some by (auto simp: routeFor_owner tables_ok_def split: option.splits)
  ultimately show "isDomainName p" "\<exists>ref \<in> set (Routes m). \<exists>ds. Domains (m_heap m ref) = p # ds"
    using assms(1) by (auto simp: tables_ok_def)
qed

lemma follow_ends:
  assumes "tables_ok m"
    and "\<And>ref d ds. ref \<in> set (Routes m) \<Longrightarrow> Domains (m_heap m ref) = d # ds \<Longrightarrow> norm d = d"
  shows "routes_after m (strip_port host) < n \<Longrightarrow>
    redirect_target (route_for m) (follow norm (route_for m) n host) = None"
proof (induction n arbitrary: host)
  case (Suc n)
  show ?case
  proof (cases "redirect_target (route_for m) host")
    case (Some p)
    then have red: "primary_redirect (route_for m) (strip_port host) = Some p" by (simp add: redirect_target_eq)
    have p: "norm p = p" "strip_port p = p" using primary_is_domain [OF assms(1) red] assms(2) by auto
    show ?thesis
    proof (cases "redirect_target (route_for m) p")
      case None
      then have "follow norm (route_for m) n p = p" by (cases n) auto
      with None Some p show ?thesis by simp
    next
      case (Some q)
      then have "primary_redirect (route_for m) p = Some q" by (simp add: redirect_target_eq p)
      then have "routes_after m p < n" using redirect_step [OF assms(1) red] Suc.prems by fastforce
      with Suc.IH [of p] \<open>redirect_target _ host = Some p\<close> p show ?thesis by simp
    qed
  qed simp
qed simp

end
