(* ===== verification/Rewriter.thy ===== *)
theory Rewriter
  imports Decorators Redirectors
begin

text \<open>
  \<^verbatim>\<open>proxy/rewriter.go\<close> and \<^verbatim>\<open>proxy/errors.go\<close>: rewriting of proxied requests and of the responses to
  them, header rules and error pages.

  The routes come from a lookup function, the manager's \<^verbatim>\<open>RouteForDomain\<close> at the time of the call;
  a handler that looks routes up twice takes two of them, since the routes may be replaced in
  between. The HTTP client for error pages is given by its \<^verbatim>\<open>Do\<close>, a function from requests to responses
  (\<^const>\<open>None\<close> when the upstream cannot be contacted or does not answer in time); \<open>client\<close> is that function for
  clients with any settings. \<open>newURL\<close> stands for what
  \<^verbatim>\<open>http.NewRequestWithContext\<close> makes of a URL, which it renders and parses again
  (\<^const>\<open>None\<close> for an error). \<^verbatim>\<open>rand.IntN\<close> is the function \<open>intN\<close>. A panic is the
  result \<^const>\<open>None\<close>.
\<close>

type_synonym lookup = "string \<Rightarrow> Route option"

record RewriterState =
  decorators :: "decorator list"
  errorClient :: "(Request \<Rightarrow> Response option) option"

definition hostForRequest :: "Request \<Rightarrow> string" where
  "hostForRequest req = strip_port (req_Host req)"

definition errorFetchTimeout :: duration where
  "errorFetchTimeout = 5 * second"

definition newErrorClient :: Client where
  "newErrorClient = \<lparr>cl_Timeout = errorFetchTimeout, cl_Transport = zero_transport\<lparr>DisableCompression := True\<rparr>\<rparr>"

definition NewRewriter ::
  "(string \<Rightarrow> 'ip option) \<Rightarrow> ('net \<Rightarrow> 'ip \<Rightarrow> bool) \<Rightarrow> 'net list \<Rightarrow> (Client \<Rightarrow> Request \<Rightarrow> Response option) \<Rightarrow>
   RewriterState" where
  "NewRewriter parseIP contains nets client =
     \<lparr>decorators = [xForwardedForDecorator parseIP contains nets, NewBannedHeaderDecorator,
        userAgentDecorator],
      errorClient = Some (client newErrorClient)\<rparr>"

definition AddDecorator :: "decorator \<Rightarrow> RewriterState \<Rightarrow> RewriterState" where
  "AddDecorator d rw = rw\<lparr>decorators := decorators rw @ [d]\<rparr>"

subsection \<open>Requests\<close>

definition selectUpstream :: "(nat \<Rightarrow> nat) \<Rightarrow> Route \<Rightarrow> string" where
  "selectUpstream intN route = Host (Upstreams route ! intN (length (Upstreams route)))"

definition apply_decorators :: "decorator list \<Rightarrow> Request \<Rightarrow> Request \<Rightarrow> Request" where
  "apply_decorators ds inr out = fold (\<lambda>d out. d inr out) ds out"

text \<open>The outgoing request of \<^verbatim>\<open>RewriteRequest\<close>, given the incoming one and the outgoing one
  so far.\<close>

definition RewriteRequest ::
  "lookup \<Rightarrow> (nat \<Rightarrow> nat) \<Rightarrow> RewriterState \<Rightarrow> Request \<Rightarrow> Request \<Rightarrow> Request option" where
  "RewriteRequest routeForDomain intN rw inr out =
     (case routeForDomain (hostForRequest inr) of
        None \<Rightarrow> Some out
      | Some route \<Rightarrow>
          if Upstreams route = [] then Some out
          else
            (let out' = apply_decorators (decorators rw) inr out in
             case req_URL out' of
               None \<Rightarrow> None
             | Some u \<Rightarrow>
                 Some (out'\<lparr>req_URL :=
                   Some (u\<lparr>url_Scheme := ''http'', url_Host := selectUpstream intN route\<rparr>)\<rparr>)))"

subsection \<open>Header rules\<close>

definition apply_header_rule :: "Header \<Rightarrow> header \<Rightarrow> header" where
  "apply_header_rule r h =
     (case Operation r of
        HeaderOpDelete \<Rightarrow> header_del h (Name r)
      | HeaderOpAdd \<Rightarrow> header_add h (Name r) (Value r)
      | HeaderOpReplace \<Rightarrow> header_set h (Name r) (Value r)
      | HeaderOpDefault \<Rightarrow>
          if header_get h (Name r) = [] then header_set h (Name r) (Value r) else h)"

definition rewriteHeaders :: "lookup \<Rightarrow> header \<Rightarrow> Request \<Rightarrow> header" where
  "rewriteHeaders routeForDomain headers request =
     (case routeForDomain (hostForRequest request) of
        None \<Rightarrow> headers
      | Some route \<Rightarrow> fold apply_header_rule (Headers route) headers)"

subsection \<open>Error pages\<close>

definition forwardedHeaders :: "string list" where
  "forwardedHeaders = [''X-Forwarded-For'', ''X-Forwarded-Host'', ''X-Forwarded-Proto'']"

definition hop_by_hop_headers :: "string list" where
  "hop_by_hop_headers =
     [''Connection'', ''Keep-Alive'', ''Proxy-Authenticate'', ''Proxy-Authorization'', ''Te'',
      ''Trailer'', ''Transfer-Encoding'', ''Upgrade'']"

definition removeHopByHopHeaders :: "header \<Rightarrow> header" where
  "removeHopByHopHeaders h = fold (\<lambda>k h. header_del h k) hop_by_hop_headers h"

text \<open>\<open>order\<close> is the order in which Go ranges over the source map.\<close>

definition copyHeaders :: "string list \<Rightarrow> header \<Rightarrow> header \<Rightarrow> header" where
  "copyHeaders order dst src =
     fold (\<lambda>name h. fold (\<lambda>v h. header_add h name v)
                      (case src name of None \<Rightarrow> [] | Some vs \<Rightarrow> vs) h) order dst"

text \<open>The URL an error page is fetched from.\<close>

definition error_target :: "ErrorMapping \<Rightarrow> URL \<Rightarrow> URL" where
  "error_target mapping original =
     (let target = empty_url\<lparr>url_Scheme := ''http'', url_Host := em_Upstream mapping,
            url_Path := url_Path original, url_RawPath := url_RawPath original,
            url_RawQuery := url_RawQuery original\<rparr>
      in if em_Path mapping \<noteq> []
         then target\<lparr>url_Path := em_Path mapping, url_RawPath := [], url_RawQuery := em_RawQuery mapping\<rparr>
         else target)"

definition forward_headers :: "header \<Rightarrow> header \<Rightarrow> header" where
  "forward_headers original h =
     fold (\<lambda>k h. if header_get original k \<noteq> [] then header_set h k (header_get original k) else h)
       forwardedHeaders h"

definition fetchErrorPage ::
  "lookup \<Rightarrow> (URL \<Rightarrow> URL option) \<Rightarrow> RewriterState \<Rightarrow> int \<Rightarrow> Request \<Rightarrow> Response option" where
  "fetchErrorPage routeForDomain newURL rw status original =
     (case (routeForDomain (hostForRequest original), errorClient rw) of
        (Some route, Some client) \<Rightarrow>
          (case (ErrorMappingForStatus route status, req_URL original) of
             (Some mapping, Some u) \<Rightarrow>
               (case newURL (error_target mapping u) of
                  None \<Rightarrow> None
                | Some target \<Rightarrow>
                    client \<lparr>req_Method = ''GET'', req_URL = Some target, req_Host = url_Host target,
                      req_Header = forward_headers (req_Header original) Map.empty,
                      req_RemoteAddr = [], req_TLS = False\<rparr>)
           | _ \<Rightarrow> None)
      | _ \<Rightarrow> None)"

text \<open>Whether the response was replaced, the response, and whether the body of the original
  response was closed.\<close>

definition replaceWithUpstreamErrorPage ::
  "lookup \<Rightarrow> (URL \<Rightarrow> URL option) \<Rightarrow> RewriterState \<Rightarrow> Response \<Rightarrow> bool \<times> Response \<times> bool" where
  "replaceWithUpstreamErrorPage routeForDomain newURL rw response =
     (case resp_Request response of
        None \<Rightarrow> (False, response, False)
      | Some request \<Rightarrow>
          if req_URL request = None then (False, response, False)
          else
            (case fetchErrorPage routeForDomain newURL rw (resp_StatusCode response) request of
               None \<Rightarrow> (False, response, False)
             | Some replacement \<Rightarrow>
                 (True,
                  replacement\<lparr>resp_Header := removeHopByHopHeaders (resp_Header replacement),
                    resp_Status := resp_Status response, resp_StatusCode := resp_StatusCode response,
                    resp_Request := resp_Request response\<rparr>,
                  resp_Body response \<noteq> None)))"

definition RewriteResponse ::
  "lookup \<Rightarrow> lookup \<Rightarrow> (URL \<Rightarrow> URL option) \<Rightarrow> RewriterState \<Rightarrow> Response \<Rightarrow> Response option" where
  "RewriteResponse lookup1 lookup2 newURL rw response =
     (let response' = (if 400 \<le> resp_StatusCode response
                       then fst (snd (replaceWithUpstreamErrorPage lookup1 newURL rw response))
                       else response)
      in case resp_Request response' of
           None \<Rightarrow> None
         | Some request \<Rightarrow>
             Some (response'\<lparr>resp_Header := rewriteHeaders lookup2 (resp_Header response') request\<rparr>))"

text \<open>\<open>WriteHeader\<close> and \<open>Write\<close> of a response writer: the first status sticks.\<close>

definition WriteHeader :: "int \<Rightarrow> ResponseWriter \<Rightarrow> ResponseWriter" where
  "WriteHeader status w = (if w_Status w = None then w\<lparr>w_Status := Some status\<rparr> else w)"

definition Write :: "string \<Rightarrow> ResponseWriter \<Rightarrow> ResponseWriter" where
  "Write b w = (WriteHeader 200 w)\<lparr>w_Body := w_Body w @ b\<rparr>"

definition serveUpstreamErrorPage ::
  "lookup \<Rightarrow> lookup \<Rightarrow> (URL \<Rightarrow> URL option) \<Rightarrow> (header \<Rightarrow> string list) \<Rightarrow> RewriterState \<Rightarrow>
   ResponseWriter \<Rightarrow> Request \<Rightarrow> int \<Rightarrow> bool \<times> ResponseWriter" where
  "serveUpstreamErrorPage lookup1 lookup2 newURL order rw writer request status =
     (case fetchErrorPage lookup1 newURL rw status request of
        None \<Rightarrow> (False, writer)
      | Some replacement \<Rightarrow>
          (let hdr = removeHopByHopHeaders (resp_Header replacement);
               w1 = writer\<lparr>w_Header := copyHeaders (order hdr) (w_Header writer) hdr\<rparr>;
               w2 = w1\<lparr>w_Header := rewriteHeaders lookup2 (w_Header w1) request\<rparr>;
               w3 = WriteHeader status w2
           in (True, Write (case resp_Body replacement of None \<Rightarrow> [] | Some b \<Rightarrow> b) w3)))"

definition StatusBadGateway :: int where
  "StatusBadGateway = 502"

definition RewriteError ::
  "lookup \<Rightarrow> lookup \<Rightarrow> lookup \<Rightarrow> (URL \<Rightarrow> URL option) \<Rightarrow> (header \<Rightarrow> string list) \<Rightarrow> RewriterState \<Rightarrow>
   (ResponseWriter \<Rightarrow> Request \<Rightarrow> ResponseWriter) \<Rightarrow> ResponseWriter \<Rightarrow> Request \<Rightarrow> ResponseWriter" where
  "RewriteError lookup1 lookup2 lookup3 newURL order rw fn writer req =
     (case serveUpstreamErrorPage lookup1 lookup2 newURL order rw writer req StatusBadGateway of
        (served, w) \<Rightarrow>
          if served then w
          else fn (w\<lparr>w_Header := rewriteHeaders lookup3 (w_Header w) req\<rparr>) req)"

subsection \<open>Header rules act key by key\<close>

text \<open>What a rule does to the values of the header it names.\<close>

fun rule_effect :: "Header \<Rightarrow> string list option \<Rightarrow> string list option" where
  "rule_effect r vs =
     (case Operation r of
        HeaderOpDelete \<Rightarrow> None
      | HeaderOpAdd \<Rightarrow> Some ((case vs of None \<Rightarrow> [] | Some ws \<Rightarrow> ws) @ [Value r])
      | HeaderOpReplace \<Rightarrow> Some [Value r]
      | HeaderOpDefault \<Rightarrow>
          (case vs of Some (w # ws) \<Rightarrow> if w = [] then Some [Value r] else vs | _ \<Rightarrow> Some [Value r]))"

lemma apply_header_rule_apply:
  "apply_header_rule r h k = (if k = canonical (Name r) then rule_effect r (h k) else h k)"
  by (auto simp: apply_header_rule_def hdr_simps header_get_def split: HeaderOp.splits option.splits list.splits)

lemma fold_header_rules:
  "fold apply_header_rule rules h k =
     fold rule_effect (filter (\<lambda>r. canonical (Name r) = k) rules) (h k)"
  by (induction rules arbitrary: h) (auto simp: apply_header_rule_apply)

subsection \<open>Facts about the handlers\<close>

lemma replaceWithUpstreamErrorPage_keeps:
  assumes "replaceWithUpstreamErrorPage lk newURL rw response = (b, response', c)"
  shows "resp_StatusCode response' = resp_StatusCode response" "resp_Status response' = resp_Status response"
    "resp_Request response' = resp_Request response" "\<not> b \<Longrightarrow> response' = response"
  using assms by (auto simp: replaceWithUpstreamErrorPage_def split: option.splits if_splits)

lemma removeHopByHop_apply:
  "removeHopByHopHeaders h k = (if k \<in> canonical ` set hop_by_hop_headers then None else h k)"
  by (simp add: removeHopByHopHeaders_def fold_del_apply)

lemma fold_add_values:
  "fold (\<lambda>v h. header_add h name v) vs h k =
     (if vs \<noteq> [] \<and> k = canonical name then Some ((case h k of None \<Rightarrow> [] | Some ws \<Rightarrow> ws) @ vs) else h k)"
proof (induction vs arbitrary: h)
  case (Cons v vs)
  then show ?case by (cases "vs = []") (auto simp: hdr_simps)
qed simp

text \<open>Copying headers with canonical names: the order in which the map is traversed does not
  matter.\<close>

lemma copyHeaders_apply:
  assumes "distinct order" "set order = dom src" "\<And>k. k \<in> dom src \<Longrightarrow> canonical k = k"
  shows "copyHeaders order dst src k =
    (case src k of None \<Rightarrow> dst k | Some vs \<Rightarrow>
       if vs = [] then dst k else Some ((case dst k of None \<Rightarrow> [] | Some ws \<Rightarrow> ws) @ vs))"
proof -
  have gen: "fold (\<lambda>name h. fold (\<lambda>v h. header_add h name v) (case src name of None \<Rightarrow> [] | Some vs \<Rightarrow> vs) h) names h k =
      (if k \<in> set names then (case src k of None \<Rightarrow> h k | Some vs \<Rightarrow>
         if vs = [] then h k else Some ((case h k of None \<Rightarrow> [] | Some ws \<Rightarrow> ws) @ vs)) else h k)"
    if "distinct names" "set names \<subseteq> dom src" for names h
    using that
  proof (induction names arbitrary: h)
    case (Cons n names)
    then have "canonical n = n" using assms(3) by auto
    with Cons show ?case
      by (auto simp: fold_add_values split: option.splits)
  qed simp
  show ?thesis
    unfolding copyHeaders_def using gen [OF assms(1)] assms(2) by (auto split: option.splits)
qed

lemma apply_decorators_append:
  "apply_decorators (ds @ [d]) inr out = d inr (apply_decorators ds inr out)"
  by (simp add: apply_decorators_def)

subsection \<open>What is sent to upstreams\<close>

text \<open>What \<^verbatim>\<open>RewriteRequest\<close> sends for a request that has a route with upstreams.\<close>

lemma RewriteRequest_routed:
  assumes "rf (hostForRequest inr) = Some route" "Upstreams route \<noteq> []"
    and "RewriteRequest rf intN rw inr out = Some out'"
  obtains u where "req_URL (apply_decorators (decorators rw) inr out) = Some u"
    and "out' = (apply_decorators (decorators rw) inr out)
      \<lparr>req_URL := Some (u\<lparr>url_Scheme := ''http'', url_Host := selectUpstream intN route\<rparr>)\<rparr>"
  using assms by (auto simp: RewriteRequest_def Let_def split: option.splits)

lemma default_decorators:
  "apply_decorators (decorators (NewRewriter parseIP contains nets client)) inr out =
     userAgentDecorator inr (NewBannedHeaderDecorator inr (xForwardedForDecorator parseIP contains nets inr out))"
  by (simp add: NewRewriter_def apply_decorators_def)

lemma default_header:
  "req_Header (apply_decorators (decorators (NewRewriter parseIP contains nets client)) inr out) k =
     (let h = req_Header (xForwardedForDecorator parseIP contains nets inr out) in
      if k \<in> canonical ` set banned_headers then None
      else if k = ''User-Agent'' \<and> h k = None then Some [[]] else h k)"
proof -
  have "''User-Agent'' \<notin> canonical ` set banned_headers" by (simp add: banned_headers_def canonical_names)
  moreover have "req_Header (NewBannedHeaderDecorator inr r) x =
      (if x \<in> canonical ` set banned_headers then None else req_Header r x)" for r x
    by (simp add: NewBannedHeaderDecorator_def bannedHeaderDecorator_def fold_del_apply)
  moreover define ua where "ua = ''User-Agent''"
  ultimately show ?thesis
    unfolding default_decorators userAgentDecorator_apply Let_def ua_def [symmetric] by auto
qed

lemma forwarded_not_banned:
  "k \<in> {''X-Forwarded-For'', ''X-Forwarded-Host'', ''X-Forwarded-Proto''} \<Longrightarrow> k \<notin> canonical ` set banned_headers"
  by (auto simp: banned_headers_def canonical_names)

lemma forwarded_headers_out:
  "let h = req_Header (xForwardedForDecorator parseIP contains nets inr out);
       tr = trusted parseIP contains nets (remote_ip out)
   in h ''X-Forwarded-For'' = Some [forwarded_for tr inr out] \<and>
      h ''X-Forwarded-Host'' = Some [forwarded_host tr inr out] \<and>
      h ''X-Forwarded-Proto'' = Some [forwarded_proto tr inr out]"
  by (simp add: xForwardedFor_eq Let_def hdr_simps canonical_names)

text \<open>The headers of a request for an error page.\<close>

lemma forward_headers_only:
  assumes "forward_headers original Map.empty x = Some v"
  shows "x \<in> set forwardedHeaders \<and> v = [header_get original x]"
proof -
  have keys: "fold (\<lambda>k h. if header_get original k \<noteq> [] then header_set h k (header_get original k) else h) ks h x = Some v \<Longrightarrow>
      (\<forall>k \<in> set ks. canonical k = k) \<Longrightarrow> x \<in> set ks \<and> v = [header_get original x] \<or> h x = Some v" for h ks
  proof (induction ks arbitrary: h)
    case (Cons k ks)
    then show ?case by (fastforce simp: hdr_simps split: if_splits)
  qed simp
  have "\<forall>k \<in> set forwardedHeaders. canonical k = k" by (simp add: forwardedHeaders_def canonical_names)
  from keys [OF assms [unfolded forward_headers_def] this] show ?thesis by simp
qed

text \<open>The header rules of a route act on each header by themselves: the values of a header in the response
  are the original ones changed by the rules that name it, in the order of the configuration
  (delete, append, replace, or set if there is no value or the first is empty).\<close>

lemma header_rules_act_per_header:
  "rewriteHeaders rf headers request k =
     (case rf (hostForRequest request) of
        None \<Rightarrow> headers k
      | Some route \<Rightarrow> fold rule_effect (filter (\<lambda>r. canonical (Name r) = k) (Headers route)) (headers k))"
  by (simp add: rewriteHeaders_def fold_header_rules split: option.split)

end
