(* ===== verification/Cert_Details.thy ===== *)
theory Cert_Details
  imports Routes
begin

text \<open>
  \<^verbatim>\<open>certificate/details.go\<close>: the details of a certificate as they are stored, and the decisions
  that depend on them. Every call of \<^verbatim>\<open>time.Now\<close> is an argument \<open>now\<close>. \<open>x509KeyPair\<close> and
  \<open>parsePEM\<close> stand for \<^verbatim>\<open>tls.X509KeyPair\<close> (the error, if there is one) and for \<^verbatim>\<open>pem.Decode\<close> followed by
  \<^verbatim>\<open>x509.ParseCertificate\<close>.
\<close>

record Details =
  det_Provider :: string
  Issuer :: string
  PrivateKey :: string
  det_Certificate :: string
  det_Subject :: string
  AltNames :: "string list"
  NotAfter :: time
  OcspResponse :: string
  NextOcspUpdate :: time
  requiresStaple :: "bool option"
  AriNextUpdate :: time
  AriRenewalTime :: time
  AriExplanation :: string

definition empty_details :: Details where
  "empty_details =
     \<lparr>det_Provider = [], Issuer = [], PrivateKey = [], det_Certificate = [], det_Subject = [],
      AltNames = [], NotAfter = 0, OcspResponse = [], NextOcspUpdate = 0, requiresStaple = None,
      AriNextUpdate = 0, AriRenewalTime = 0, AriExplanation = []\<rparr>"

definition ValidFor :: "time \<Rightarrow> duration \<Rightarrow> Details \<Rightarrow> bool" where
  "ValidFor now period s \<longleftrightarrow> now + period < NotAfter s"

definition ShouldRenew :: "time \<Rightarrow> duration \<Rightarrow> Details \<Rightarrow> bool" where
  "ShouldRenew now minimumValidity s =
     (if AriRenewalTime s = 0 then \<not> ValidFor now minimumValidity s else AriRenewalTime s < now)"

definition HasStapleFor :: "time \<Rightarrow> duration \<Rightarrow> Details \<Rightarrow> bool" where
  "HasStapleFor now period s \<longleftrightarrow> now + period < NextOcspUpdate s"

definition IsFor :: "string \<Rightarrow> string list \<Rightarrow> Details \<Rightarrow> bool" where
  "IsFor subject altNames s =
     (if det_Subject s \<noteq> subject \<or> length (AltNames s) \<noteq> length altNames then False
      else sort (AltNames s) = sort altNames)"

definition keyPair ::
  "(string \<Rightarrow> string \<Rightarrow> string option) \<Rightarrow> Details \<Rightarrow> (string, TLSCertificate) result" where
  "keyPair x509KeyPair s =
     (case x509KeyPair (det_Certificate s) (PrivateKey s) of
        Some err \<Rightarrow> Error err
      | None \<Rightarrow> Ok \<lparr>tls_chain = det_Certificate s, tls_key = PrivateKey s, OCSPStaple = OcspResponse s\<rparr>)"

datatype pem_result = NoPemBlock | BadCertificate | CertExtensions "string list"

definition must_staple_oid :: string where
  "must_staple_oid = ''1.3.6.1.5.5.7.1.24''"

text \<open>The answer and the details with the answer remembered. \<^const>\<open>None\<close> is the panic of reading
  the bytes of a block that was not found.\<close>

definition RequiresStaple :: "(string \<Rightarrow> pem_result) \<Rightarrow> Details \<Rightarrow> (bool \<times> Details) option" where
  "RequiresStaple parsePEM s =
     (case requiresStaple s of
        Some b \<Rightarrow> Some (b, s)
      | None \<Rightarrow>
          (case parsePEM (det_Certificate s) of
             NoPemBlock \<Rightarrow> None
           | BadCertificate \<Rightarrow> Some (False, s)
           | CertExtensions ids \<Rightarrow>
               (let res = fold (\<lambda>i r. if i = must_staple_oid then True else r) ids False
                in Some (res, s\<lparr>requiresStaple := Some res\<rparr>))))"

subsection \<open>Facts\<close>

lemma IsFor_iff: "IsFor subject altNames s \<longleftrightarrow> det_Subject s = subject \<and> mset (AltNames s) = mset altNames"
proof -
  have "mset (AltNames s) = mset altNames \<Longrightarrow> length (AltNames s) = length altNames"
    by (metis size_mset)
  then show ?thesis by (auto simp: IsFor_def sort_eq_iff_mset)
qed

lemma fold_oid: "fold (\<lambda>i r. if i = x then True else r) ids b \<longleftrightarrow> b \<or> x \<in> set ids"
  by (induction ids arbitrary: b) auto

text \<open>Asking twice gives the same answer: remembering it changes nothing else.\<close>

lemma RequiresStaple_again:
  "RequiresStaple parsePEM s = Some (b, s') \<Longrightarrow> RequiresStaple parsePEM s' = Some (b, s')"
  by (auto simp: RequiresStaple_def Let_def split: option.splits pem_result.splits)

lemma RequiresStaple_frame:
  "RequiresStaple parsePEM s = Some (b, s') \<Longrightarrow> s' = s\<lparr>requiresStaple := requiresStaple s'\<rparr>"
  by (auto simp: RequiresStaple_def Let_def split: option.splits pem_result.splits)

end
