(* ===== verification/Cert_World.thy ===== *)
theory Cert_World
  imports Cert_Details Go_Text "HOL-Library.Monad_Syntax"
begin

text \<open>
  The state the certificate code works on, and the two interfaces of
  \<^verbatim>\<open>certificate/manager.go\<close>: \<^verbatim>\<open>Store\<close> and \<^verbatim>\<open>Supplier\<close>.

  Certificate details are shared by pointer: the details a store returns are the ones it holds,
  and the manager changes them in place before it saves them. The world therefore has a heap of
  details indexed by \<open>cert_ref\<close>, the state \<open>'s\<close> of the store, and the state \<open>'e\<close> of the outside
  (random numbers, the ACME server, ...). Each reading of the clock is a call of its own, so two
  readings in one operation may differ: \<open>w_clock k\<close> is what the \<open>k\<close>-th call of \<^verbatim>\<open>time.Now\<close> returns.
\<close>

type_synonym cert_ref = nat

record ('s, 'e) World =
  w_clock :: "nat \<Rightarrow> time"
  w_tick :: nat
  w_heap :: "cert_ref \<Rightarrow> Details"
  w_next :: cert_ref
  w_store :: 's
  w_env :: 'e

definition time_now :: "('s, 'e) World \<Rightarrow> time \<times> ('s, 'e) World" where
  "time_now w = (w_clock w (w_tick w), w\<lparr>w_tick := Suc (w_tick w)\<rparr>)"

definition new_details :: "Details \<Rightarrow> ('s, 'e) World \<Rightarrow> cert_ref \<times> ('s, 'e) World" where
  "new_details d w = (w_next w, w\<lparr>w_heap := (w_heap w)(w_next w := d), w_next := Suc (w_next w)\<rparr>)"

definition set_details :: "(Details \<Rightarrow> Details) \<Rightarrow> cert_ref \<Rightarrow> ('s, 'e) World \<Rightarrow> ('s, 'e) World" where
  "set_details f ref w = w\<lparr>w_heap := (w_heap w)(ref := f (w_heap w ref))\<rparr>"

subsection \<open>The methods of Details, on details in the world\<close>

definition cert_ValidFor :: "duration \<Rightarrow> cert_ref \<Rightarrow> ('s, 'e) World \<Rightarrow> bool \<times> ('s, 'e) World" where
  "cert_ValidFor period ref w =
     (let (now, w') = time_now w in (ValidFor now period (w_heap w ref), w'))"

definition cert_ShouldRenew :: "duration \<Rightarrow> cert_ref \<Rightarrow> ('s, 'e) World \<Rightarrow> bool \<times> ('s, 'e) World" where
  "cert_ShouldRenew minimumValidity ref w =
     (let (now, w') = time_now w in (ShouldRenew now minimumValidity (w_heap w ref), w'))"

definition cert_HasStapleFor :: "duration \<Rightarrow> cert_ref \<Rightarrow> ('s, 'e) World \<Rightarrow> bool \<times> ('s, 'e) World" where
  "cert_HasStapleFor period ref w =
     (let (now, w') = time_now w in (HasStapleFor now period (w_heap w ref), w'))"

definition cert_RequiresStaple ::
  "(string \<Rightarrow> pem_result) \<Rightarrow> cert_ref \<Rightarrow> ('s, 'e) World \<Rightarrow> (bool \<times> ('s, 'e) World) option" where
  "cert_RequiresStaple parsePEM ref w =
     (case RequiresStaple parsePEM (w_heap w ref) of
        None \<Rightarrow> None
      | Some (b, d) \<Rightarrow> Some (b, set_details (\<lambda>_. d) ref w))"

definition cert_keyPair ::
  "(string \<Rightarrow> string \<Rightarrow> string option) \<Rightarrow> cert_ref \<Rightarrow> ('s, 'e) World \<Rightarrow> TLSCertificate option \<times> string option" where
  "cert_keyPair x509KeyPair ref w =
     (case keyPair x509KeyPair (w_heap w ref) of
        Inl err \<Rightarrow> (None, Some err)
      | Inr cert \<Rightarrow> (Some cert, None))"

subsection \<open>The interfaces Store and Supplier\<close>

text \<open>Locking can block for ever; \<^const>\<open>None\<close> is a call that does not return.\<close>

record ('s, 'e) Store =
  StoreGetCertificate :: "string \<Rightarrow> string \<Rightarrow> string list \<Rightarrow> ('s, 'e) World \<Rightarrow> cert_ref option \<times> ('s, 'e) World"
  SaveCertificate :: "cert_ref \<Rightarrow> ('s, 'e) World \<Rightarrow> string option \<times> ('s, 'e) World"
  LockCertificate :: "string \<Rightarrow> string list \<Rightarrow> ('s, 'e) World \<Rightarrow> ('s, 'e) World option"
  UnlockCertificate :: "string \<Rightarrow> string list \<Rightarrow> ('s, 'e) World \<Rightarrow> ('s, 'e) World option"

record ('s, 'e) Supplier =
  SupplierGetCertificate ::
    "string \<Rightarrow> string list \<Rightarrow> bool \<Rightarrow> ('s, 'e) World \<Rightarrow> (string, cert_ref) result \<times> ('s, 'e) World"
  UpdateStaple :: "cert_ref \<Rightarrow> ('s, 'e) World \<Rightarrow> string option \<times> ('s, 'e) World"
  UpdateRenewalInfo :: "cert_ref \<Rightarrow> ('s, 'e) World \<Rightarrow> string option \<times> ('s, 'e) World"
  MinCertificateValidity :: duration
  MinStapleValidity :: duration

subsection \<open>What operations leave unchanged\<close>

text \<open>The part of the details that is fixed when a certificate is issued: what it is for, the
  certificate itself and its key. Only the staple, the renewal information and the remembered
  answer of \<open>RequiresStaple\<close> change afterwards.\<close>

definition same_cert :: "Details \<Rightarrow> Details \<Rightarrow> bool" where
  "same_cert d d' \<longleftrightarrow>
     det_Provider d' = det_Provider d \<and> Issuer d' = Issuer d \<and> PrivateKey d' = PrivateKey d \<and>
     det_Certificate d' = det_Certificate d \<and> det_Subject d' = det_Subject d \<and>
     AltNames d' = AltNames d \<and> NotAfter d' = NotAfter d \<and>
     (requiresStaple d \<noteq> None \<longrightarrow> requiresStaple d' = requiresStaple d)"

definition heap_frame :: "('s, 'e) World \<Rightarrow> ('s, 'e) World \<Rightarrow> bool" where
  "heap_frame w w' \<longleftrightarrow> w_next w \<le> w_next w' \<and> w_clock w' = w_clock w \<and> w_tick w \<le> w_tick w' \<and>
     (\<forall>ref < w_next w. same_cert (w_heap w ref) (w_heap w' ref))"

text \<open>Frame for operations that do not touch the store.\<close>

definition world_frame :: "('s, 'e) World \<Rightarrow> ('s, 'e) World \<Rightarrow> bool" where
  "world_frame w w' \<longleftrightarrow> heap_frame w w' \<and> w_store w' = w_store w"

lemma same_cert_refl [simp]: "same_cert d d"
  by (simp add: same_cert_def)

lemma same_cert_trans: "same_cert d d' \<Longrightarrow> same_cert d' d'' \<Longrightarrow> same_cert d d''"
  by (auto simp: same_cert_def)

lemma heap_frame_refl [simp]: "heap_frame w w"
  by (simp add: heap_frame_def)

lemma heap_frame_trans: "heap_frame w w' \<Longrightarrow> heap_frame w' w'' \<Longrightarrow> heap_frame w w''"
  unfolding heap_frame_def by (metis same_cert_trans order.strict_trans2 order.trans)

lemma world_frame_refl [simp]: "world_frame w w"
  by (simp add: world_frame_def)

lemma world_frame_trans: "world_frame w w' \<Longrightarrow> world_frame w' w'' \<Longrightarrow> world_frame w w''"
  by (auto simp: world_frame_def intro: heap_frame_trans)

lemma heap_frame_cert: "heap_frame w w' \<Longrightarrow> ref < w_next w \<Longrightarrow> same_cert (w_heap w ref) (w_heap w' ref)"
  by (simp add: heap_frame_def)

lemma IsFor_same: "same_cert d d' \<Longrightarrow> IsFor s as d' = IsFor s as d"
  by (simp add: IsFor_iff same_cert_def)

lemma set_details_frame:
  "(ref < w_next w \<Longrightarrow> same_cert (w_heap w ref) (f (w_heap w ref))) \<Longrightarrow> world_frame w (set_details f ref w)"
  by (auto simp: world_frame_def heap_frame_def set_details_def)

lemma set_details_simps [simp]:
  "w_store (set_details f ref w) = w_store w" "w_next (set_details f ref w) = w_next w"
  "w_clock (set_details f ref w) = w_clock w" "w_tick (set_details f ref w) = w_tick w"
  "w_env (set_details f ref w) = w_env w" "w_heap (set_details f ref w) ref = f (w_heap w ref)"
  by (simp_all add: set_details_def)

lemma tick_frame [simp]: "world_frame w (w\<lparr>w_tick := Suc (w_tick w)\<rparr>)"
  by (simp add: world_frame_def heap_frame_def)

lemma env_frame [simp]: "world_frame w (w\<lparr>w_env := e\<rparr>)"
  by (simp add: world_frame_def heap_frame_def)

lemma new_details_frame: "new_details d w = (ref, w') \<Longrightarrow>
  world_frame w w' \<and> ref = w_next w \<and> w_next w' = Suc (w_next w) \<and> w_heap w' ref = d"
  by (auto simp: new_details_def world_frame_def heap_frame_def)

lemma cert_ValidFor_frame: "cert_ValidFor p ref w = (b, w') \<Longrightarrow> world_frame w w'"
  by (auto simp: cert_ValidFor_def time_now_def Let_def)

lemma cert_ShouldRenew_frame: "cert_ShouldRenew p ref w = (b, w') \<Longrightarrow> world_frame w w'"
  by (auto simp: cert_ShouldRenew_def time_now_def Let_def)

lemma cert_HasStapleFor_frame: "cert_HasStapleFor p ref w = (b, w') \<Longrightarrow> world_frame w w'"
  by (auto simp: cert_HasStapleFor_def time_now_def Let_def)

lemma cert_RequiresStaple_frame: "cert_RequiresStaple pe ref w = Some (b, w') \<Longrightarrow> world_frame w w'"
  by (auto simp: cert_RequiresStaple_def RequiresStaple_def Let_def same_cert_def
      split: option.splits prod.splits pem_result.splits intro!: set_details_frame)

subsection \<open>Certificates that can be decoded\<close>

definition decodes :: "(string \<Rightarrow> pem_result) \<Rightarrow> Details \<Rightarrow> bool" where
  "decodes parsePEM d \<longleftrightarrow> parsePEM (det_Certificate d) \<noteq> NoPemBlock"

definition heap_decodes :: "(string \<Rightarrow> pem_result) \<Rightarrow> ('s, 'e) World \<Rightarrow> bool" where
  "heap_decodes parsePEM w \<longleftrightarrow> (\<forall>ref < w_next w. decodes parsePEM (w_heap w ref))"

lemma decodes_same: "same_cert d d' \<Longrightarrow> decodes pe d \<Longrightarrow> decodes pe d'"
  by (auto simp: decodes_def same_cert_def)

lemma cert_RequiresStaple_returns:
  "decodes pe (w_heap w ref) \<Longrightarrow> \<exists>b w'. cert_RequiresStaple pe ref w = Some (b, w')"
  by (auto simp: cert_RequiresStaple_def RequiresStaple_def decodes_def Let_def
      split: option.splits pem_result.splits)

lemma heap_decodes_frame:
  "heap_frame w w' \<Longrightarrow> w_next w' = w_next w \<Longrightarrow> heap_decodes pe w \<Longrightarrow> heap_decodes pe w'"
  by (auto simp: heap_decodes_def heap_frame_def intro: decodes_same)

lemma RequiresStaple_next: "cert_RequiresStaple pe ref w = Some (b, w') \<Longrightarrow> w_next w' = w_next w"
  by (auto simp: cert_RequiresStaple_def split: option.splits)

lemma reads_simps:
  "cert_ValidFor p ref w = (b, w') \<Longrightarrow> w_next w' = w_next w \<and> w_env w' = w_env w \<and> w_heap w' = w_heap w"
  "cert_ShouldRenew p ref w = (b, w') \<Longrightarrow> w_next w' = w_next w \<and> w_env w' = w_env w \<and> w_heap w' = w_heap w"
  "cert_HasStapleFor p ref w = (b, w') \<Longrightarrow> w_next w' = w_next w \<and> w_env w' = w_env w \<and> w_heap w' = w_heap w"
  by (auto simp: cert_ValidFor_def cert_ShouldRenew_def cert_HasStapleFor_def time_now_def Let_def)

subsection \<open>The contract of a store\<close>

text \<open>What the details issued for a certificate are, apart from the remembered answer of
  \<open>RequiresStaple\<close>, which no store keeps outside this process.\<close>

definition same_issue :: "Details \<Rightarrow> Details \<Rightarrow> bool" where
  "same_issue d d' \<longleftrightarrow>
     det_Provider d' = det_Provider d \<and> Issuer d' = Issuer d \<and> PrivateKey d' = PrivateKey d \<and>
     det_Certificate d' = det_Certificate d \<and> det_Subject d' = det_Subject d \<and>
     AltNames d' = AltNames d \<and> NotAfter d' = NotAfter d \<and> OcspResponse d' = OcspResponse d \<and>
     NextOcspUpdate d' = NextOcspUpdate d \<and> AriNextUpdate d' = AriNextUpdate d \<and>
     AriRenewalTime d' = AriRenewalTime d \<and> AriExplanation d' = AriExplanation d"

text \<open>\<open>sinv\<close> is the store's invariant, \<open>locked None\<close> says that no certificate is locked and
  \<open>locked (Some (s, as))\<close> that exactly the certificate for these names is.\<close>

locale certificate_store =
  fixes st :: "('s, 'e) Store" and parsePEM :: "string \<Rightarrow> pem_result"
    and sinv :: "('s, 'e) World \<Rightarrow> bool"
    and locked :: "(string \<times> string list) option \<Rightarrow> ('s, 'e) World \<Rightarrow> bool"
  assumes sinv_stable: "sinv w \<Longrightarrow> world_frame w w' \<Longrightarrow> sinv w'"
    and locked_stable: "locked l w \<Longrightarrow> w_store w' = w_store w \<Longrightarrow> locked l w'"
    and lookup_frame: "sinv w \<Longrightarrow> StoreGetCertificate st p s as w = (r, w') \<Longrightarrow>
      heap_frame w w' \<and> w_env w' = w_env w \<and> sinv w' \<and> (locked l w \<longrightarrow> locked l w') \<and>
      (heap_decodes parsePEM w \<longrightarrow> heap_decodes parsePEM w')"
    and lookup_for: "sinv w \<Longrightarrow> StoreGetCertificate st p s as w = (Some ref, w') \<Longrightarrow>
      ref < w_next w' \<and> IsFor s as (w_heap w' ref) \<and>
      (det_Provider (w_heap w' ref) = p \<or> det_Provider (w_heap w' ref) = [])"
    and save_frame: "sinv w \<Longrightarrow> heap_decodes parsePEM w \<Longrightarrow> ref < w_next w \<Longrightarrow>
      SaveCertificate st ref w = (err, w') \<Longrightarrow>
      heap_frame w w' \<and> w_env w' = w_env w \<and> sinv w' \<and> (locked l w \<longrightarrow> locked l w') \<and> heap_decodes parsePEM w'"
    and save_lookup: "sinv w \<Longrightarrow> heap_decodes parsePEM w \<Longrightarrow> ref < w_next w \<Longrightarrow> SaveCertificate st ref w = (None, w1) \<Longrightarrow>
      IsFor s as (w_heap w ref) \<Longrightarrow> StoreGetCertificate st p s as w1 = (Some ref', w2) \<Longrightarrow>
      p = det_Provider (w_heap w ref) \<Longrightarrow> det_Provider (w_heap w2 ref') = p \<Longrightarrow>
      same_issue (w_heap w ref) (w_heap w2 ref')"
    and lock_returns: "locked None w \<Longrightarrow> \<exists>w'. LockCertificate st s as w = Some w'"
    and lock_frame: "sinv w \<Longrightarrow> locked None w \<Longrightarrow> LockCertificate st s as w = Some w' \<Longrightarrow>
      heap_frame w w' \<and> w_env w' = w_env w \<and> w_next w' = w_next w \<and> sinv w' \<and> locked (Some (s, as)) w'"
    and unlock_returns: "locked (Some (s, as)) w \<Longrightarrow> \<exists>w'. UnlockCertificate st s as w = Some w'"
    and unlock_frame: "sinv w \<Longrightarrow> locked (Some (s, as)) w \<Longrightarrow> UnlockCertificate st s as w = Some w' \<Longrightarrow>
      heap_frame w w' \<and> w_env w' = w_env w \<and> w_next w' = w_next w \<and> sinv w' \<and> locked None w'"

subsection \<open>The contract of a supplier\<close>

text \<open>\<open>env_ok\<close> is what the supplier relies on outside the program.\<close>

locale certificate_supplier =
  fixes sup :: "('s, 'e) Supplier" and parsePEM :: "string \<Rightarrow> pem_result" and env_ok :: "'e \<Rightarrow> bool"
  assumes supply_frame: "env_ok (w_env w) \<Longrightarrow> SupplierGetCertificate sup s as b w = (res, w') \<Longrightarrow>
      world_frame w w' \<and> env_ok (w_env w') \<and> (heap_decodes parsePEM w \<longrightarrow> heap_decodes parsePEM w')"
    and supply_new: "env_ok (w_env w) \<Longrightarrow> SupplierGetCertificate sup s as b w = (Inr ref, w') \<Longrightarrow>
      w_next w \<le> ref \<and> ref < w_next w' \<and> det_Subject (w_heap w' ref) = s \<and> AltNames (w_heap w' ref) = as"
    and staple_frame: "env_ok (w_env w) \<Longrightarrow> UpdateStaple sup ref w = (err, w') \<Longrightarrow>
      world_frame w w' \<and> w_next w' = w_next w \<and> env_ok (w_env w')"
    and renewal_frame: "env_ok (w_env w) \<Longrightarrow> UpdateRenewalInfo sup ref w = (err, w') \<Longrightarrow>
      world_frame w w' \<and> w_next w' = w_next w \<and> env_ok (w_env w')"

end
