(* ===== verification/Suppliers.thy ===== *)
theory Suppliers
  imports Cert_World
begin

text \<open>
  The two suppliers of certificates, \<^verbatim>\<open>certificate/supplier_selfsigned.go\<close> and
  \<^verbatim>\<open>certificate/supplier_lego.go\<close>.

  What they use from outside is collected in \<open>Pki\<close>: the cryptographic operations, the random
  numbers and, for the ACME supplier, lego's client and rate limiter. The operations that depend on
  the outside take its state \<open>'e\<close> and return it changed. \<open>pki_ok\<close> says what is relied on: a
  certificate that has just been encoded or parsed consists of a PEM block.
\<close>

text \<open>\<^verbatim>\<open>x509.Certificate\<close>, as far as it is filled in for a self-signed certificate.\<close>

record CertTemplate =
  SerialNumber :: int
  Organization :: "string list"
  CommonName :: string
  tpl_NotBefore :: time
  tpl_NotAfter :: time
  DNSNames :: "string list"

record ObtainRequest =
  or_Domains :: "string list"
  Bundle :: bool
  MustStaple :: bool
  or_Profile :: string
  KeyType :: string

record Resource =
  IssuerCertificate :: string
  res_PrivateKey :: string
  res_Certificate :: string

record OcspInfo =
  ocsp_good :: bool
  NextUpdate :: time

record RenewalInfo =
  win_Start :: time
  win_End :: time
  RetryAfter :: duration
  ExplanationURL :: string

datatype renewal_error = ErrNoARI | OtherRenewalError string

record 'e Pki =
  x509KeyPair :: "string \<Rightarrow> string \<Rightarrow> string option"
  parsePEM :: "string \<Rightarrow> pem_result"
  GenerateKey :: "'e \<Rightarrow> (string, string) result \<times> 'e"
  CreateCertificate :: "CertTemplate \<Rightarrow> string \<Rightarrow> 'e \<Rightarrow> (string, string) result \<times> 'e"
  PemEncodeKey :: "string \<Rightarrow> string"
  PemEncodeCertificate :: "string \<Rightarrow> string"
  ParsePEMCertificate :: "string \<Rightarrow> (string, time) result"
  LimiterWait :: "'e \<Rightarrow> string option \<times> 'e"
  Obtain :: "ObtainRequest \<Rightarrow> 'e \<Rightarrow> (string, Resource) result \<times> 'e"
  GetOCSP :: "string \<Rightarrow> 'e \<Rightarrow> (string, string \<times> OcspInfo option) result \<times> 'e"
  GetRenewalInfo :: "string \<Rightarrow> 'e \<Rightarrow> (renewal_error, RenewalInfo) result \<times> 'e"
  Int64N :: "int \<Rightarrow> 'e \<Rightarrow> int \<times> 'e"

definition pki_ok :: "'e Pki \<Rightarrow> bool" where
  "pki_ok P \<longleftrightarrow> (\<forall>der. parsePEM P (PemEncodeCertificate P der) \<noteq> NoPemBlock) \<and>
     (\<forall>c t. ParsePEMCertificate P c = Inr t \<longrightarrow> parsePEM P c \<noteq> NoPemBlock)"

text \<open>A call of an operation that depends on the outside.\<close>

definition outside :: "('e \<Rightarrow> 'a \<times> 'e) \<Rightarrow> ('s, 'e) World \<Rightarrow> 'a \<times> ('s, 'e) World" where
  "outside f w = (let (a, e) = f (w_env w) in (a, w\<lparr>w_env := e\<rparr>))"

definition hours :: "int \<Rightarrow> duration" where
  "hours n = hour * n"

subsection \<open>The self-signed supplier\<close>

definition SelfSigned_GetCertificate ::
  "'e Pki \<Rightarrow> string \<Rightarrow> string list \<Rightarrow> bool \<Rightarrow> ('s, 'e) World \<Rightarrow> (string, cert_ref) result \<times> ('s, 'e) World" where
  "SelfSigned_GetCertificate P subject altNames shouldStaple w =
     (case outside (GenerateKey P) w of
        (Inl err, w1) \<Rightarrow> (Error err, w1)
      | (Inr key, w1) \<Rightarrow>
          (let (now1, w2) = time_now w1;
               (now2, w3) = time_now w2;
               template = \<lparr>SerialNumber = 1, Organization = [''Centauri''], CommonName = subject,
                 tpl_NotBefore = now1 - hour, tpl_NotAfter = now2 + hours (24 * 30),
                 DNSNames = subject # altNames\<rparr>
           in case outside (CreateCertificate P template key) w3 of
                (Inl err, w4) \<Rightarrow> (Error err, w4)
              | (Inr derBytes, w4) \<Rightarrow>
                  (let (now3, w5) = time_now w4;
                       (ref, w6) = new_details (empty_details
                         \<lparr>PrivateKey := PemEncodeKey P key, det_Certificate := PemEncodeCertificate P derBytes,
                          det_Subject := subject, AltNames := altNames, NotAfter := tpl_NotAfter template,
                          NextOcspUpdate := now3 + hours (24 * 30)\<rparr>) w5
                   in (Ok ref, w6))))"

definition SelfSigned_UpdateStaple :: "cert_ref \<Rightarrow> ('s, 'e) World \<Rightarrow> string option \<times> ('s, 'e) World" where
  "SelfSigned_UpdateStaple ref w = (None, w)"

definition SelfSigned_UpdateRenewalInfo :: "cert_ref \<Rightarrow> ('s, 'e) World \<Rightarrow> string option \<times> ('s, 'e) World" where
  "SelfSigned_UpdateRenewalInfo ref w = (None, w)"

definition NewSelfSignedSupplier :: "'e Pki \<Rightarrow> ('s, 'e) Supplier" where
  "NewSelfSignedSupplier P =
     \<lparr>SupplierGetCertificate = SelfSigned_GetCertificate P, UpdateStaple = SelfSigned_UpdateStaple,
      UpdateRenewalInfo = SelfSigned_UpdateRenewalInfo,
      MinCertificateValidity = hours (24 * 7), MinStapleValidity = second\<rparr>"

subsection \<open>The ACME supplier\<close>

record LegoSupplier =
  ls_profile :: string
  ls_keyType :: string

text \<open>Contexts and their timeouts only decide what the calls of the client return.\<close>

definition Lego_UpdateStaple ::
  "'e Pki \<Rightarrow> cert_ref \<Rightarrow> ('s, 'e) World \<Rightarrow> string option \<times> ('s, 'e) World" where
  "Lego_UpdateStaple P ref w =
     (case outside (GetOCSP P (det_Certificate (w_heap w ref))) w of
        (Inl err, w1) \<Rightarrow> (Some err, w1)
      | (Inr (b, response), w1) \<Rightarrow>
          (case response of
             None \<Rightarrow> (Some ''OCSP response was not good'', w1)
           | Some r \<Rightarrow>
               if \<not> ocsp_good r then (Some ''OCSP response was not good'', w1)
               else (None, set_details (\<lambda>d. d\<lparr>OcspResponse := b, NextOcspUpdate := NextUpdate r\<rparr>) ref w1)))"

definition Lego_GetCertificate ::
  "'e Pki \<Rightarrow> LegoSupplier \<Rightarrow> string \<Rightarrow> string list \<Rightarrow> bool \<Rightarrow> ('s, 'e) World \<Rightarrow>
     (string, cert_ref) result \<times> ('s, 'e) World" where
  "Lego_GetCertificate P s subject altNames shouldStaple w =
     (case outside (LimiterWait P) w of
        (Some err, w1) \<Rightarrow> (Error err, w1)
      | (None, w1) \<Rightarrow>
          (case outside (Obtain P \<lparr>or_Domains = subject # altNames, Bundle = True, MustStaple = shouldStaple,
                                  or_Profile = ls_profile s, KeyType = ls_keyType s\<rparr>) w1 of
             (Inl err, w2) \<Rightarrow> (Error err, w2)
           | (Inr res, w2) \<Rightarrow>
               (case ParsePEMCertificate P (res_Certificate res) of
                  Inl err \<Rightarrow> (Error (''unable to parse returned certificate: '' @ err), w2)
                | Inr notAfter \<Rightarrow>
                    (let (ref, w3) = new_details (empty_details
                           \<lparr>Issuer := IssuerCertificate res, PrivateKey := res_PrivateKey res,
                            det_Certificate := res_Certificate res, det_Subject := subject,
                            AltNames := altNames, NotAfter := notAfter\<rparr>) w2
                     in if shouldStaple
                        then (case Lego_UpdateStaple P ref w3 of
                                (Some err, w4) \<Rightarrow> (Error (''unable to get OCSP staple for certificate: '' @ err), w4)
                              | (None, w4) \<Rightarrow> (Ok ref, w4))
                        else (Ok ref, w3)))))"

text \<open>\<^verbatim>\<open>Sub\<close> of two instants saturates at the ends of the range of a 64-bit duration.\<close>

definition time_Sub :: "time \<Rightarrow> time \<Rightarrow> duration" where
  "time_Sub t u = max (- (2 ^ 63)) (min (2 ^ 63 - 1) (t - u))"

definition Lego_UpdateRenewalInfo ::
  "'e Pki \<Rightarrow> cert_ref \<Rightarrow> ('s, 'e) World \<Rightarrow> string option \<times> ('s, 'e) World" where
  "Lego_UpdateRenewalInfo P ref w =
     (case ParsePEMCertificate P (det_Certificate (w_heap w ref)) of
        Inl err \<Rightarrow> (Some (''unable to parse certificate: '' @ err), w)
      | Inr _ \<Rightarrow>
          (case outside (GetRenewalInfo P (det_Certificate (w_heap w ref))) w of
             (Inl ErrNoARI, w1) \<Rightarrow>
               (None, set_details (\<lambda>d. d\<lparr>AriRenewalTime := 0, AriNextUpdate := NotAfter d,
                                        AriExplanation := ''ARI not supported''\<rparr>) ref w1)
           | (Inl (OtherRenewalError err), w1) \<Rightarrow> (Some err, w1)
           | (Inr response, w1) \<Rightarrow>
               (let windowDuration = time_Sub (win_End response) (win_Start response);
                    (n, w2) = (if second \<le> windowDuration then outside (Int64N P windowDuration) w1 else (0, w1));
                    (now, w3) = time_now w2
                in (None, set_details (\<lambda>d. d\<lparr>AriRenewalTime := win_Start response + n,
                                            AriNextUpdate := now + RetryAfter response,
                                            AriExplanation := ExplanationURL response\<rparr>) ref w3))))"

definition lego_supplier :: "'e Pki \<Rightarrow> LegoSupplier \<Rightarrow> ('s, 'e) Supplier" where
  "lego_supplier P s =
     \<lparr>SupplierGetCertificate = Lego_GetCertificate P s, UpdateStaple = Lego_UpdateStaple P,
      UpdateRenewalInfo = Lego_UpdateRenewalInfo P,
      MinCertificateValidity = hours (24 * 30), MinStapleValidity = hours 24\<rparr>"

subsection \<open>The contract of a supplier\<close>

text \<open>No new details, and the issued part of the old ones unchanged.\<close>

definition quiet :: "('s, 'e) World \<Rightarrow> ('s, 'e) World \<Rightarrow> bool" where
  "quiet w w' \<longleftrightarrow> world_frame w w' \<and> w_next w' = w_next w"

lemma quiet_refl [simp]: "quiet w w"
  by (simp add: quiet_def)

lemma quiet_frame: "quiet w w' \<Longrightarrow> world_frame w w'"
  by (simp add: quiet_def)

lemma quiet_trans: "quiet w w' \<Longrightarrow> quiet w' w'' \<Longrightarrow> quiet w w''"
  by (auto simp: quiet_def intro: world_frame_trans)

lemma outside_quiet: "outside f w = (a, w') \<Longrightarrow> quiet w w'"
  by (auto simp: outside_def quiet_def Let_def split: prod.splits)

lemma time_now_quiet: "time_now w = (t, w') \<Longrightarrow> quiet w w'"
  by (auto simp: time_now_def quiet_def)

lemma set_details_quiet: "quiet w v \<Longrightarrow> (\<And>d. same_cert d (f d)) \<Longrightarrow> quiet w (set_details f ref v)"
  using quiet_trans [of w v] by (simp add: quiet_def set_details_frame)

lemma quiet_decodes: "quiet w w' \<Longrightarrow> heap_decodes pe w \<Longrightarrow> heap_decodes pe w'"
  using heap_decodes_frame by (auto simp: quiet_def world_frame_def)

text \<open>A new certificate for the given names is added to the world.\<close>

definition supplied ::
  "(string \<Rightarrow> pem_result) \<Rightarrow> string \<Rightarrow> string list \<Rightarrow> ('s, 'e) World \<Rightarrow> cert_ref \<Rightarrow> ('s, 'e) World \<Rightarrow> bool" where
  "supplied pe s as w ref w' \<longleftrightarrow> world_frame w w' \<and> w_next w \<le> ref \<and> ref < w_next w' \<and>
     det_Subject (w_heap w' ref) = s \<and> AltNames (w_heap w' ref) = as \<and>
     (heap_decodes pe w \<longrightarrow> heap_decodes pe w')"

lemma new_details_supplied:
  assumes "quiet w v" "new_details d v = (ref, w')" "decodes pe d" "det_Subject d = s" "AltNames d = as"
  shows "supplied pe s as w ref w'"
proof -
  have "heap_decodes pe v \<Longrightarrow> heap_decodes pe w'"
    using assms(2,3) by (auto simp: new_details_def heap_decodes_def less_Suc_eq)
  then show ?thesis
    using assms new_details_frame [OF assms(2)] quiet_decodes [OF assms(1), of pe]
    by (auto simp: supplied_def quiet_def intro: world_frame_trans)
qed

lemma supplied_quiet:
  assumes "supplied pe s as w ref v" "quiet v w'"
  shows "supplied pe s as w ref w'"
proof -
  have "same_cert (w_heap v ref) (w_heap w' ref)"
    using assms by (auto simp: supplied_def quiet_def world_frame_def heap_frame_def)
  with assms quiet_decodes [OF assms(2), of pe] show ?thesis
    by (auto simp: supplied_def quiet_def same_cert_def intro: world_frame_trans)
qed

lemma SelfSigned_GetCertificate_effect:
  assumes "pki_ok P" "SelfSigned_GetCertificate P subject altNames b w = (res, w')"
  shows "case res of Inl _ \<Rightarrow> quiet w w' | Inr ref \<Rightarrow> supplied (parsePEM P) subject altNames w ref w'"
  using assms(2) unfolding SelfSigned_GetCertificate_def
  by (auto simp: Let_def decodes_def assms(1) [unfolded pki_ok_def] split: prod.splits sum.splits
      dest!: outside_quiet time_now_quiet elim!: new_details_supplied [rotated] intro: quiet_trans)
    (meson quiet_trans)

lemma Lego_UpdateStaple_quiet: "Lego_UpdateStaple P ref w = (err, w') \<Longrightarrow> quiet w w'"
  unfolding Lego_UpdateStaple_def
  by (auto split: prod.splits sum.splits option.splits if_splits dest!: outside_quiet
      intro!: set_details_quiet simp: same_cert_def)

lemma Lego_UpdateRenewalInfo_quiet: "Lego_UpdateRenewalInfo P ref w = (err, w') \<Longrightarrow> quiet w w'"
  unfolding Lego_UpdateRenewalInfo_def
  by (auto simp: Let_def same_cert_def split: prod.splits sum.splits renewal_error.splits if_splits
      dest!: outside_quiet time_now_quiet intro: quiet_trans intro!: set_details_quiet)

lemma Lego_GetCertificate_effect:
  assumes "pki_ok P" "Lego_GetCertificate P s subject altNames b w = (res, w')"
  shows "case res of
      Inl _ \<Rightarrow> world_frame w w' \<and> (heap_decodes (parsePEM P) w \<longrightarrow> heap_decodes (parsePEM P) w')
    | Inr ref \<Rightarrow> supplied (parsePEM P) subject altNames w ref w'"
proof -
  obtain e1 w1 where 1: "outside (LimiterWait P) w = (e1, w1)" by fastforce
  obtain r w2 where 2: "outside (Obtain P \<lparr>or_Domains = subject # altNames, Bundle = True, MustStaple = b,
      or_Profile = ls_profile s, KeyType = ls_keyType s\<rparr>) w1 = (r, w2)" by fastforce
  have q1: "quiet w w1" and q2: "quiet w w2"
    using outside_quiet [OF 1] outside_quiet [OF 2] quiet_trans by blast+
  show ?thesis
  proof (cases "\<exists>re t. e1 = None \<and> r = Inr re \<and> ParsePEMCertificate P (res_Certificate re) = Inr t")
    case False
    with assms(2) 1 2 q1 q2 show ?thesis
      by (auto simp: Lego_GetCertificate_def split: option.splits sum.splits intro: quiet_frame quiet_decodes)
  next
    case True
    then obtain re t where ok: "e1 = None" "r = Inr re" "ParsePEMCertificate P (res_Certificate re) = Inr t" by blast
    obtain ref w3 where 3: "new_details (empty_details
        \<lparr>Issuer := IssuerCertificate re, PrivateKey := res_PrivateKey re,
         det_Certificate := res_Certificate re, det_Subject := subject,
         AltNames := altNames, NotAfter := t\<rparr>) w2 = (ref, w3)" by fastforce
    obtain e4 w4 where 4: "Lego_UpdateStaple P ref w3 = (e4, w4)" by fastforce
    have new: "supplied (parsePEM P) subject altNames w ref w3"
      using assms(1) ok(3) by (intro new_details_supplied [OF q2 3]) (auto simp: decodes_def pki_ok_def)
    moreover have "supplied (parsePEM P) subject altNames w ref w4"
      by (rule supplied_quiet [OF new Lego_UpdateStaple_quiet [OF 4]])
    ultimately show ?thesis
      using assms(2) 1 2 ok 3 4
      by (auto simp: Lego_GetCertificate_def supplied_def split: option.splits if_splits)
  qed
qed

interpretation self_signed: certificate_supplier "NewSelfSignedSupplier P" "parsePEM P" "\<lambda>_. pki_ok P" for P
proof unfold_locales
  fix w w' :: "('b, 'a) World" and s as b res
  assume "pki_ok P" "SupplierGetCertificate (NewSelfSignedSupplier P) s as b w = (res, w')"
  then show "world_frame w w' \<and> pki_ok P \<and> (heap_decodes (parsePEM P) w \<longrightarrow> heap_decodes (parsePEM P) w')"
    using SelfSigned_GetCertificate_effect [of P s as b w res w'] quiet_decodes [of w w']
    by (auto simp: NewSelfSignedSupplier_def supplied_def quiet_def split: sum.splits)
next
  fix w w' :: "('b, 'a) World" and s as b ref
  assume "pki_ok P" "SupplierGetCertificate (NewSelfSignedSupplier P) s as b w = (Inr ref, w')"
  then show "w_next w \<le> ref \<and> ref < w_next w' \<and> det_Subject (w_heap w' ref) = s \<and> AltNames (w_heap w' ref) = as"
    using SelfSigned_GetCertificate_effect [of P s as b w "Inr ref" w']
    by (auto simp: NewSelfSignedSupplier_def supplied_def)
qed (auto simp: NewSelfSignedSupplier_def SelfSigned_UpdateStaple_def SelfSigned_UpdateRenewalInfo_def)

interpretation lego: certificate_supplier "lego_supplier P s" "parsePEM P" "\<lambda>_. pki_ok P" for P s
proof unfold_locales
  fix w w' :: "('b, 'a) World" and su as b res
  assume "pki_ok P" "SupplierGetCertificate (lego_supplier P s) su as b w = (res, w')"
  then show "world_frame w w' \<and> pki_ok P \<and> (heap_decodes (parsePEM P) w \<longrightarrow> heap_decodes (parsePEM P) w')"
    using Lego_GetCertificate_effect [of P s su as b w res w']
    by (auto simp: lego_supplier_def supplied_def split: sum.splits)
next
  fix w w' :: "('b, 'a) World" and su as b ref
  assume "pki_ok P" "SupplierGetCertificate (lego_supplier P s) su as b w = (Inr ref, w')"
  then show "w_next w \<le> ref \<and> ref < w_next w' \<and> det_Subject (w_heap w' ref) = su \<and> AltNames (w_heap w' ref) = as"
    using Lego_GetCertificate_effect [of P s su as b w "Inr ref" w']
    by (auto simp: lego_supplier_def supplied_def)
qed (auto simp: lego_supplier_def dest!: Lego_UpdateStaple_quiet Lego_UpdateRenewalInfo_quiet simp: quiet_def)

end
