(* ===== verification/Json_Store.thy ===== *)
theory Json_Store
  imports Cert_World
begin

text \<open>
  \<^verbatim>\<open>certificate/store.go\<close>: the store that keeps its certificates in memory and writes them to a JSON
  file whenever one is saved.

  The file is represented by what reading it back gives: nothing, an error, or a list of details.
  \<^verbatim>\<open>requiresStaple\<close> is not exported, so it is not part of the file. The outcome of each write is an
  input: \<open>js_writes k\<close> says whether the \<open>k\<close>-th save writes the file, and otherwise which error
  there was (of serialising or writing) and what is in the file afterwards.
  A mutex of \<^verbatim>\<open>locks\<close> is its state: \<^const>\<open>True\<close> while it is held.
\<close>

datatype disk_file = NoFile | Unreadable string | NotJson string | Saved "Details list"

datatype write_outcome = Written | WriteFailed string disk_file

record JsonStore =
  js_certificates :: "cert_ref list"
  js_locks :: "string \<rightharpoonup> bool"
  js_file :: disk_file
  js_writes :: "nat \<Rightarrow> write_outcome"
  js_saves :: nat

type_synonym 'e json_world = "(JsonStore, 'e) World"

definition set_store :: "(JsonStore \<Rightarrow> JsonStore) \<Rightarrow> 'e json_world \<Rightarrow> 'e json_world" where
  "set_store f w = w\<lparr>w_store := f (w_store w)\<rparr>"

definition forget_staple :: "Details \<Rightarrow> Details" where
  "forget_staple d = d\<lparr>requiresStaple := None\<rparr>"

fun alloc_details :: "Details list \<Rightarrow> ('s, 'e) World \<Rightarrow> cert_ref list \<times> ('s, 'e) World" where
  "alloc_details [] w = ([], w)"
| "alloc_details (d # ds) w =
     (let (ref, w1) = new_details d w; (refs, w2) = alloc_details ds w1 in (ref # refs, w2))"

definition load :: "'e json_world \<Rightarrow> string option \<times> 'e json_world" where
  "load w =
     (case js_file (w_store w) of
        NoFile \<Rightarrow> (None, w)
      | Unreadable err \<Rightarrow> (Some err, w)
      | NotJson err \<Rightarrow> (Some err, w)
      | Saved ds \<Rightarrow>
          (let (refs, w') = alloc_details ds w
           in (None, set_store (\<lambda>j. j\<lparr>js_certificates := refs\<rparr>) w')))"

definition NewStore :: "'e json_world \<Rightarrow> (string, 'e json_world) result" where
  "NewStore w =
     (let w1 = set_store (\<lambda>j. j\<lparr>js_certificates := [], js_locks := Map.empty\<rparr>) w in
      case load w1 of
        (Some err, _) \<Rightarrow> Error err
      | (None, w2) \<Rightarrow> Ok w2)"

text \<open>\<^verbatim>\<open>pruneCertificates\<close> reads the clock for every certificate.\<close>

fun prune_loop :: "cert_ref list \<Rightarrow> 'e json_world \<Rightarrow> cert_ref list \<times> 'e json_world" where
  "prune_loop [] w = ([], w)"
| "prune_loop (ref # refs) w =
     (let (valid, w1) = cert_ValidFor 0 ref w; (savedCerts, w2) = prune_loop refs w1
      in (if valid then ref # savedCerts else savedCerts, w2))"

definition pruneCertificates :: "'e json_world \<Rightarrow> 'e json_world" where
  "pruneCertificates w =
     (let (savedCerts, w') = prune_loop (js_certificates (w_store w)) w
      in set_store (\<lambda>j. j\<lparr>js_certificates := savedCerts\<rparr>) w')"

definition save :: "'e json_world \<Rightarrow> string option \<times> 'e json_world" where
  "save w =
     (let w1 = pruneCertificates w;
          b = Saved (map (\<lambda>ref. forget_staple (w_heap w1 ref)) (js_certificates (w_store w1)));
          j = w_store w1
      in case js_writes j (js_saves j) of
           Written \<Rightarrow> (None, set_store (\<lambda>j. j\<lparr>js_file := b, js_saves := Suc (js_saves j)\<rparr>) w1)
         | WriteFailed err left \<Rightarrow>
             (Some err, set_store (\<lambda>j. j\<lparr>js_file := left, js_saves := Suc (js_saves j)\<rparr>) w1))"

fun lookup_loop ::
  "(cert_ref \<Rightarrow> Details) \<Rightarrow> string \<Rightarrow> string \<Rightarrow> string list \<Rightarrow> cert_ref list \<Rightarrow> cert_ref option \<Rightarrow> cert_ref option" where
  "lookup_loop h provider subjectName altNames [] legacy = legacy"
| "lookup_loop h provider subjectName altNames (c # cs) legacy =
     (if \<not> IsFor subjectName altNames (h c) then lookup_loop h provider subjectName altNames cs legacy
      else if det_Provider (h c) = provider then Some c
      else if det_Provider (h c) = [] then lookup_loop h provider subjectName altNames cs (Some c)
      else lookup_loop h provider subjectName altNames cs legacy)"

definition JsonStore_GetCertificate ::
  "string \<Rightarrow> string \<Rightarrow> string list \<Rightarrow> 'e json_world \<Rightarrow> cert_ref option \<times> 'e json_world" where
  "JsonStore_GetCertificate provider subjectName altNames w =
     (lookup_loop (w_heap w) provider subjectName altNames (js_certificates (w_store w)) None, w)"

definition lock_key :: "string \<Rightarrow> string list \<Rightarrow> string" where
  "lock_key subjectName altNames = join '';'' (subjectName # altNames)"

text \<open>The key of the mutex, which is created if it does not exist.\<close>

definition lockFor :: "string \<Rightarrow> string list \<Rightarrow> 'e json_world \<Rightarrow> string \<times> 'e json_world" where
  "lockFor subjectName altNames w =
     (let key = lock_key subjectName altNames in
      case js_locks (w_store w) key of
        Some _ \<Rightarrow> (key, w)
      | None \<Rightarrow> (key, set_store (\<lambda>j. j\<lparr>js_locks := (js_locks j)(key \<mapsto> False)\<rparr>) w))"

definition JsonStore_LockCertificate :: "string \<Rightarrow> string list \<Rightarrow> 'e json_world \<Rightarrow> 'e json_world option" where
  "JsonStore_LockCertificate subjectName altNames w =
     (let (key, w') = lockFor subjectName altNames w in
      if js_locks (w_store w') key = Some True then None
      else Some (set_store (\<lambda>j. j\<lparr>js_locks := (js_locks j)(key \<mapsto> True)\<rparr>) w'))"

definition JsonStore_UnlockCertificate :: "string \<Rightarrow> string list \<Rightarrow> 'e json_world \<Rightarrow> 'e json_world option" where
  "JsonStore_UnlockCertificate subjectName altNames w =
     (let (key, w') = lockFor subjectName altNames w in
      if js_locks (w_store w') key = Some True
      then Some (set_store (\<lambda>j. j\<lparr>js_locks := (js_locks j)(key \<mapsto> False)\<rparr>) w')
      else None)"

fun remove_loop ::
  "(cert_ref \<Rightarrow> Details) \<Rightarrow> string \<Rightarrow> string \<Rightarrow> string list \<Rightarrow> cert_ref list \<Rightarrow> cert_ref list" where
  "remove_loop h provider subjectName altNames [] = []"
| "remove_loop h provider subjectName altNames (c # cs) =
     (if IsFor subjectName altNames (h c) \<and> det_Provider (h c) = provider then cs
      else c # remove_loop h provider subjectName altNames cs)"

definition removeCertificate :: "string \<Rightarrow> string \<Rightarrow> string list \<Rightarrow> 'e json_world \<Rightarrow> 'e json_world" where
  "removeCertificate provider subjectName altNames w =
     set_store (\<lambda>j. j\<lparr>js_certificates :=
       remove_loop (w_heap w) provider subjectName altNames (js_certificates j)\<rparr>) w"

definition JsonStore_SaveCertificate :: "cert_ref \<Rightarrow> 'e json_world \<Rightarrow> string option \<times> 'e json_world" where
  "JsonStore_SaveCertificate ref w =
     (let cert = w_heap w ref;
          w1 = removeCertificate (det_Provider cert) (det_Subject cert) (AltNames cert) w;
          w2 = set_store (\<lambda>j. j\<lparr>js_certificates := js_certificates j @ [ref]\<rparr>) w1
      in save w2)"

definition json_store :: "(JsonStore, 'e) Store" where
  "json_store =
     \<lparr>StoreGetCertificate = JsonStore_GetCertificate, SaveCertificate = JsonStore_SaveCertificate,
      LockCertificate = JsonStore_LockCertificate, UnlockCertificate = JsonStore_UnlockCertificate\<rparr>"

subsection \<open>The store as a map\<close>

text \<open>What identifies a certificate in the store: who supplied it and the names it is for, where
  the order of the alternative names does not matter.\<close>

type_synonym cert_key = "string \<times> string \<times> string multiset"

definition cert_key :: "Details \<Rightarrow> cert_key" where
  "cert_key d = (det_Provider d, det_Subject d, mset (AltNames d))"

definition json_inv :: "'e json_world \<Rightarrow> bool" where
  "json_inv w \<longleftrightarrow> distinct (map (\<lambda>ref. cert_key (w_heap w ref)) (js_certificates (w_store w))) \<and>
     (\<forall>ref \<in> set (js_certificates (w_store w)). ref < w_next w)"

definition json_locked :: "(string \<times> string list) option \<Rightarrow> 'e json_world \<Rightarrow> bool" where
  "json_locked l w \<longleftrightarrow> (\<forall>k. js_locks (w_store w) k = Some True \<longleftrightarrow>
     (case l of None \<Rightarrow> False | Some (s, as) \<Rightarrow> k = lock_key s as))"

definition cert_map :: "(cert_ref \<Rightarrow> Details) \<Rightarrow> cert_ref list \<Rightarrow> cert_key \<rightharpoonup> cert_ref" where
  "cert_map h cs = map_of (map (\<lambda>ref. (cert_key (h ref), ref)) cs)"

definition json_abs :: "'e json_world \<Rightarrow> cert_key \<rightharpoonup> cert_ref" where
  "json_abs w = cert_map (w_heap w) (js_certificates (w_store w))"

lemma key_match: "IsFor s as d \<and> det_Provider d = p \<longleftrightarrow> cert_key d = (p, s, mset as)"
  by (auto simp: IsFor_iff cert_key_def)

lemma IsFor_key: "IsFor s as d \<longleftrightarrow> cert_key d = (det_Provider d, s, mset as)"
  by (auto simp: IsFor_iff cert_key_def)

lemma cert_map_Nil: "cert_map h [] k = None"
  by (simp add: cert_map_def)

lemma cert_map_Cons: "cert_map h (c # cs) k = (if k = cert_key (h c) then Some c else cert_map h cs k)"
  by (simp add: cert_map_def)

lemma cert_map_Some:
  "distinct (map (\<lambda>c. cert_key (h c)) cs) \<Longrightarrow> cert_map h cs k = Some c \<longleftrightarrow> c \<in> set cs \<and> cert_key (h c) = k"
  by (auto simp: cert_map_def comp_def inj_on_def intro!: map_of_is_SomeI dest!: map_of_SomeD)

lemma cert_map_None: "cert_map h cs k = None \<longleftrightarrow> k \<notin> (\<lambda>c. cert_key (h c)) ` set cs"
  by (simp add: cert_map_def map_of_eq_None_iff image_image)

text \<open>The lookup loop is a lookup in the map, with the certificate without a provider as a
  fallback.\<close>

lemma lookup_loop_map:
  assumes "distinct (map (\<lambda>c. cert_key (h c)) cs)"
    and "\<And>l. legacy = Some l \<Longrightarrow> ([], s, mset as) \<notin> (\<lambda>c. cert_key (h c)) ` set cs"
  shows "lookup_loop h p s as cs legacy =
     (case cert_map h cs (p, s, mset as) of Some c \<Rightarrow> Some c
      | None \<Rightarrow> (case cert_map h cs ([], s, mset as) of Some c \<Rightarrow> Some c | None \<Rightarrow> legacy))"
  using assms
proof (induction cs arbitrary: legacy)
  case Nil
  then show ?case by (simp add: cert_map_def)
next
  case (Cons c cs)
  let ?K = "\<lambda>p. (p, s, mset as)"
  have IH: "lookup_loop h p s as cs l = (case cert_map h cs (?K p) of Some c \<Rightarrow> Some c
      | None \<Rightarrow> (case cert_map h cs (?K []) of Some c \<Rightarrow> Some c | None \<Rightarrow> l))"
    if "l \<noteq> None \<Longrightarrow> ?K [] \<notin> (\<lambda>c. cert_key (h c)) ` set cs" for l
    using Cons.IH [of l] Cons.prems(1) that by auto
  show ?case
  proof (cases "IsFor s as (h c)")
    case False
    then have "?K q \<noteq> cert_key (h c)" for q by (metis key_match)
    with False IH [of legacy] Cons.prems(2) show ?thesis by (auto simp: cert_map_Cons cong: option.case_cong)
  next
    case True
    then have key: "cert_key (h c) = ?K (det_Provider (h c))" by (simp add: IsFor_key)
    have new: "?K (det_Provider (h c)) \<notin> (\<lambda>c. cert_key (h c)) ` set cs" using Cons.prems(1) key by auto
    consider "det_Provider (h c) = p" | "det_Provider (h c) \<noteq> p" "det_Provider (h c) = []"
      | "det_Provider (h c) \<noteq> p" "det_Provider (h c) \<noteq> []" by blast
    then show ?thesis
    proof cases
      case 1
      with True key show ?thesis by (simp add: cert_map_Cons)
    next
      case 2
      moreover from 2 new have "cert_map h cs (?K []) = None" by (simp add: cert_map_None)
      ultimately show ?thesis using True key new IH [of "Some c"] by (simp add: cert_map_Cons cong: option.case_cong)
    next
      case 3
      then have "?K p \<noteq> ?K (det_Provider (h c))" "?K [] \<noteq> ?K (det_Provider (h c))" by auto
      with 3 True key IH [of legacy] Cons.prems(2) show ?thesis by (auto simp: cert_map_Cons cong: option.case_cong)
    qed
  qed
qed

lemma JsonStore_GetCertificate_map:
  assumes "json_inv w"
  shows "JsonStore_GetCertificate p s as w =
     (case json_abs w (p, s, mset as) of Some c \<Rightarrow> Some c | None \<Rightarrow> json_abs w ([], s, mset as), w)"
  using assms lookup_loop_map [of "w_heap w" "js_certificates (w_store w)" None]
  by (auto simp: JsonStore_GetCertificate_def json_inv_def json_abs_def split: option.splits)

lemma lookup_found:
  assumes "json_inv w" "JsonStore_GetCertificate p s as w = (Some ref, w')"
  shows "ref \<in> set (js_certificates (w_store w))" "IsFor s as (w_heap w ref)"
    "det_Provider (w_heap w ref) = p \<or> det_Provider (w_heap w ref) = []"
proof -
  have "json_abs w (p, s, mset as) = Some ref \<or> json_abs w ([], s, mset as) = Some ref"
    using assms(2) unfolding JsonStore_GetCertificate_map [OF assms(1)] by (auto split: option.splits)
  then obtain q where "q = p \<or> q = []" "json_abs w (q, s, mset as) = Some ref" by blast
  moreover from this have "ref \<in> set (js_certificates (w_store w))" "cert_key (w_heap w ref) = (q, s, mset as)"
    using assms(1) cert_map_Some unfolding json_abs_def json_inv_def by metis+
  ultimately show "ref \<in> set (js_certificates (w_store w))" "IsFor s as (w_heap w ref)"
    "det_Provider (w_heap w ref) = p \<or> det_Provider (w_heap w ref) = []"
    using key_match by metis+
qed

subsection \<open>Saving\<close>

lemma remove_loop_filter:
  "distinct (map (\<lambda>c. cert_key (h c)) cs) \<Longrightarrow>
   remove_loop h p s as cs = filter (\<lambda>c. cert_key (h c) \<noteq> (p, s, mset as)) cs"
  by (induction cs) (auto simp: key_match image_iff intro!: filter_True [symmetric])

definition survives :: "'e json_world \<Rightarrow> cert_ref \<Rightarrow> nat \<Rightarrow> bool" where
  "survives w ref k \<longleftrightarrow> ValidFor (w_clock w k) 0 (w_heap w ref)"

lemma prune_loop_eq:
  "prune_loop refs w =
     (map fst (filter (\<lambda>(r, k). survives w r k) (zip refs [w_tick w..<w_tick w + length refs])),
      w\<lparr>w_tick := w_tick w + length refs\<rparr>)"
proof (induction refs arbitrary: w)
  case (Cons r refs)
  have "[w_tick w..<w_tick w + length (r # refs)] = w_tick w # [Suc (w_tick w)..<Suc (w_tick w) + length refs]"
    by (simp add: upt_conv_Cons del: upt_Suc)
  with Cons [of "w\<lparr>w_tick := Suc (w_tick w)\<rparr>"] show ?case
    by (simp add: cert_ValidFor_def time_now_def survives_def)
qed simp

definition pruned :: "'e json_world \<Rightarrow> cert_ref list \<Rightarrow> cert_ref list" where
  "pruned w refs = map fst (filter (\<lambda>(r, k). survives w r k) (zip refs [w_tick w..<w_tick w + length refs]))"

lemma pruned_subseq: "subseq (pruned w refs) refs"
proof -
  have "subseq (map fst (filter P (zip refs ks))) refs" if "length ks = length refs" for ks :: "nat list" and P
    using that by (induction refs ks rule: list_induct2') auto
  then show ?thesis by (simp add: pruned_def)
qed

lemma pruned_mem:
  "ref \<in> set (pruned w refs) \<longleftrightarrow>
     (\<exists>i < length refs. refs ! i = ref \<and> survives w ref (w_tick w + i))"
  by (force simp: pruned_def set_zip)

text \<open>What saving does to the certificates in memory.\<close>

definition saved_certificates :: "cert_ref \<Rightarrow> 'e json_world \<Rightarrow> cert_ref list" where
  "saved_certificates ref w =
     filter (\<lambda>c. cert_key (w_heap w c) \<noteq> cert_key (w_heap w ref)) (js_certificates (w_store w)) @ [ref]"

lemma SaveCertificate_effect:
  assumes "json_inv w" "JsonStore_SaveCertificate ref w = (err, w')"
  shows "js_certificates (w_store w') = pruned w (saved_certificates ref w)"
    and "w_heap w' = w_heap w" "w_next w' = w_next w" "w_env w' = w_env w" "w_clock w' = w_clock w"
    and "js_locks (w_store w') = js_locks (w_store w)" "w_tick w' = w_tick w + length (saved_certificates ref w)"
    and "err = None \<Longrightarrow> js_file (w_store w') =
      Saved (map (\<lambda>ref. forget_staple (w_heap w' ref)) (js_certificates (w_store w')))"
  using assms
  by (auto simp: JsonStore_SaveCertificate_def Let_def removeCertificate_def set_store_def save_def
      pruneCertificates_def prune_loop_eq pruned_def saved_certificates_def remove_loop_filter json_inv_def
      survives_def cert_key_def split: write_outcome.splits)

lemma SaveCertificate_file:
  assumes "JsonStore_SaveCertificate ref w = (None, w')"
  shows "js_file (w_store w') = Saved (map (\<lambda>ref. forget_staple (w_heap w' ref)) (js_certificates (w_store w')))"
  using assms by (auto simp: JsonStore_SaveCertificate_def Let_def save_def set_store_def split: write_outcome.splits)

lemma subseq_distinct_map: "subseq xs ys \<Longrightarrow> distinct (map f ys) \<Longrightarrow> distinct (map f xs)"
  by (auto simp: subseq_conv_nths distinct_map inj_on_def dest: in_set_nthsD)

lemma subseq_subset: "subseq xs ys \<Longrightarrow> set xs \<subseteq> set ys"
  by (auto simp: subseq_conv_nths dest: in_set_nthsD)

lemma SaveCertificate_inv:
  assumes "json_inv w" "ref < w_next w" "JsonStore_SaveCertificate ref w = (err, w')"
  shows "json_inv w'"
proof -
  note eff = SaveCertificate_effect [OF assms(1,3)]
  have sub: "subseq (js_certificates (w_store w')) (saved_certificates ref w)"
    by (simp add: eff pruned_subseq)
  have "distinct (map (\<lambda>c. cert_key (w_heap w c)) (saved_certificates ref w))"
    using assms(1) by (auto simp: saved_certificates_def json_inv_def distinct_map_filter)
  moreover have "\<forall>c \<in> set (saved_certificates ref w). c < w_next w"
    using assms by (auto simp: saved_certificates_def json_inv_def)
  ultimately show ?thesis
    using sub subseq_distinct_map [OF sub] subseq_subset [OF sub] by (auto simp: json_inv_def eff)
qed

lemma saved_map:
  assumes "json_inv w"
  shows "cert_map (w_heap w) (saved_certificates ref w) = (json_abs w)(cert_key (w_heap w ref) \<mapsto> ref)"
proof -
  have "cert_map h (filter (\<lambda>c. cert_key (h c) \<noteq> k) cs @ [r]) q = (if q = k then Some r else cert_map h cs q)"
    if "cert_key (h r) = k" for h k cs q and r :: cert_ref
    using that by (induction cs) (auto simp: cert_map_Cons cert_map_Nil)
  then show ?thesis by (simp add: saved_certificates_def json_abs_def fun_eq_iff)
qed

text \<open>Saving a certificate is an update of the map, followed by the removal of what has expired:
  every entry is the one of the updated map or is gone, and it is gone exactly if it had
  expired when its expiry was checked.\<close>

lemma SaveCertificate_map:
  assumes "json_inv w" "ref < w_next w" "JsonStore_SaveCertificate ref w = (err, w')"
    and "((json_abs w)(cert_key (w_heap w ref) \<mapsto> ref)) k = Some c"
  obtains now where "now \<in> w_clock w ` {w_tick w..<w_tick w'}"
    and "json_abs w' k = (if now < NotAfter (w_heap w c) then Some c else None)"
proof -
  note eff = SaveCertificate_effect [OF assms(1,3)]
  let ?cs = "saved_certificates ref w"
  have d: "distinct (map (\<lambda>c. cert_key (w_heap w c)) ?cs)"
    using assms(1) by (auto simp: saved_certificates_def json_inv_def distinct_map_filter)
  have d': "distinct (map (\<lambda>c. cert_key (w_heap w c)) (js_certificates (w_store w')))"
    using SaveCertificate_inv [OF assms(1-3)] by (simp add: json_inv_def eff)
  from assms(4) have "cert_map (w_heap w) ?cs k = Some c" by (simp add: saved_map [OF assms(1)])
  then have c: "c \<in> set ?cs" "cert_key (w_heap w c) = k" using cert_map_Some [OF d] by auto
  then obtain i where i: "i < length ?cs" "?cs ! i = c" by (auto simp: in_set_conv_nth)
  have uniq: "j = i" if "j < length ?cs" "?cs ! j = c" for j
    using that i d by (metis distinct_map nth_eq_iff_index_eq)
  let ?now = "w_clock w (w_tick w + i)"
  have mem: "c \<in> set (js_certificates (w_store w')) \<longleftrightarrow> ?now < NotAfter (w_heap w c)"
  proof -
    have "c \<in> set (js_certificates (w_store w')) \<longleftrightarrow>
        (\<exists>j < length ?cs. ?cs ! j = c \<and> survives w c (w_tick w + j))"
      unfolding eff(1) by (rule pruned_mem)
    also have "\<dots> \<longleftrightarrow> survives w c (w_tick w + i)" using i uniq by blast
    finally show ?thesis by (simp add: survives_def ValidFor_def)
  qed
  have "json_abs w' k = (if ?now < NotAfter (w_heap w c) then Some c else None)"
  proof (cases "?now < NotAfter (w_heap w c)")
    case True
    with mem c cert_map_Some [OF d'] show ?thesis by (simp add: json_abs_def eff)
  next
    case False
    have "c' = c" if "c' \<in> set (js_certificates (w_store w'))" "cert_key (w_heap w c') = k" for c'
      using that c d subseq_subset [OF pruned_subseq [of w ?cs]] by (auto simp: eff distinct_map inj_on_def)
    with False mem show ?thesis by (auto simp: json_abs_def eff cert_map_None)
  qed
  moreover have "?now \<in> w_clock w ` {w_tick w..<w_tick w'}" using i by (simp add: eff)
  ultimately show thesis using that by blast
qed

lemma SaveCertificate_map_None:
  assumes "json_inv w" "ref < w_next w" "JsonStore_SaveCertificate ref w = (err, w')"
    and "((json_abs w)(cert_key (w_heap w ref) \<mapsto> ref)) k = None"
  shows "json_abs w' k = None"
proof -
  note eff = SaveCertificate_effect [OF assms(1,3)]
  from assms(4) have "cert_map (w_heap w) (saved_certificates ref w) k = None" by (simp add: saved_map [OF assms(1)])
  then show ?thesis
    using subseq_subset [OF pruned_subseq [of w "saved_certificates ref w"]]
    by (auto simp: json_abs_def eff cert_map_None)
qed

lemma save_then_lookup:
  assumes "json_inv w" "ref < w_next w" "JsonStore_SaveCertificate ref w = (err, w1)"
    and "IsFor s as (w_heap w ref)" "JsonStore_GetCertificate p s as w1 = (Some ref', w2)"
    and "p = det_Provider (w_heap w ref)" "det_Provider (w_heap w2 ref') = p"
  shows "ref' = ref \<and> w_heap w2 ref' = w_heap w ref"
proof -
  note eff = SaveCertificate_effect [OF assms(1,3)]
  have inv: "json_inv w1" by (rule SaveCertificate_inv [OF assms(1-3)])
  have key: "cert_key (w_heap w ref) = (p, s, mset as)" using assms(4,6) by (simp add: IsFor_key)
  have w2: "w2 = w1" using assms(5) by (simp add: JsonStore_GetCertificate_def)
  have "ref' \<in> set (js_certificates (w_store w1))" "IsFor s as (w_heap w1 ref')"
    using lookup_found [OF inv assms(5)] by auto
  moreover from this have "cert_key (w_heap w1 ref') = (p, s, mset as)"
    using assms(7) w2 IsFor_key by simp
  ultimately have "ref' = ref"
    using key subseq_subset [OF pruned_subseq [of w "saved_certificates ref w"]]
    by (auto simp: eff saved_certificates_def)
  then show ?thesis by (simp add: w2 eff)
qed

subsection \<open>Locks\<close>

definition set_lock :: "string \<Rightarrow> bool \<Rightarrow> 'e json_world \<Rightarrow> 'e json_world" where
  "set_lock key b = set_store (\<lambda>j. j\<lparr>js_locks := (js_locks j)(key \<mapsto> b)\<rparr>)"

lemma LockCertificate_eq:
  "JsonStore_LockCertificate s as w =
     (if js_locks (w_store w) (lock_key s as) = Some True then None else Some (set_lock (lock_key s as) True w))"
  by (auto simp: JsonStore_LockCertificate_def lockFor_def set_lock_def set_store_def Let_def split: option.splits)

lemma UnlockCertificate_eq:
  "JsonStore_UnlockCertificate s as w =
     (if js_locks (w_store w) (lock_key s as) = Some True then Some (set_lock (lock_key s as) False w) else None)"
  by (auto simp: JsonStore_UnlockCertificate_def lockFor_def set_lock_def set_store_def Let_def split: option.splits)

lemma json_lock:
  assumes "json_locked None w"
  shows "JsonStore_LockCertificate s as w = Some (set_lock (lock_key s as) True w)"
    and "json_locked (Some (s, as)) (set_lock (lock_key s as) True w)"
  using assms by (auto simp: LockCertificate_eq json_locked_def set_lock_def set_store_def)

lemma json_unlock:
  assumes "json_locked (Some (s, as)) w"
  shows "JsonStore_UnlockCertificate s as w = Some (set_lock (lock_key s as) False w)"
    and "json_locked None (set_lock (lock_key s as) False w)"
  using assms by (auto simp: UnlockCertificate_eq json_locked_def set_lock_def set_store_def)

lemma set_lock_frame:
  "json_inv (set_lock k b w) = json_inv w" "heap_frame w (set_lock k b w)"
  "w_env (set_lock k b w) = w_env w" "w_next (set_lock k b w) = w_next w"
  by (simp_all add: json_inv_def heap_frame_def set_lock_def set_store_def)

subsection \<open>Restarting\<close>

lemma alloc_details_old:
  "alloc_details ds w = (refs, w') \<Longrightarrow> i < w_next w \<Longrightarrow> w_heap w' i = w_heap w i"
proof (induction ds arbitrary: w refs)
  case (Cons d ds)
  obtain refs' where "alloc_details ds (snd (new_details d w)) = (refs', w')"
    using Cons.prems(1) by (auto split: prod.splits)
  from Cons.IH [OF this] Cons.prems(2) show ?case by (simp add: new_details_def)
qed simp

lemma alloc_details_all:
  "alloc_details ds w = (refs, w') \<Longrightarrow>
   world_frame w w' \<and> list_all2 (\<lambda>d ref. w_heap w' ref = d \<and> w_next w \<le> ref \<and> ref < w_next w') ds refs"
proof (induction ds arbitrary: w refs)
  case (Cons d ds)
  obtain ref w1 refs' where 1: "new_details d w = (ref, w1)" and 2: "alloc_details ds w1 = (refs', w')"
    and refs: "refs = ref # refs'"
    using Cons.prems by (auto simp: split: prod.splits)
  note new = new_details_frame [OF 1] and IH = Cons.IH [OF 2]
  have "w_heap w' ref = d" using alloc_details_old [OF 2] new by auto
  moreover have "list_all2 (\<lambda>d ref. w_heap w' ref = d \<and> w_next w \<le> ref \<and> ref < w_next w') ds refs'"
    using IH new by (auto elim!: list_all2_mono)
  moreover have "w_next w1 \<le> w_next w'" using IH by (simp add: world_frame_def heap_frame_def)
  ultimately show ?case using new refs IH world_frame_trans by auto
qed simp

text \<open>Lookups depend only on the details, not on where they are.\<close>

lemma lookup_loop_rel:
  assumes "list_all2 (\<lambda>c c'. h' c' = forget_staple (h c)) cs cs'"
    and "rel_option (\<lambda>c c'. h' c' = forget_staple (h c)) legacy legacy'"
  shows "rel_option (\<lambda>c c'. h' c' = forget_staple (h c))
    (lookup_loop h p s as cs legacy) (lookup_loop h' p s as cs' legacy')"
  using assms
  by (induction arbitrary: legacy legacy' rule: list_all2_induct) (auto simp: forget_staple_def IsFor_iff)

text \<open>A store opened on the file of a successful save answers every lookup as the one that
  saved it.\<close>

lemma reopen_lookup:
  assumes "JsonStore_SaveCertificate ref w = (None, w1)"
  obtains w2 where "NewStore w1 = Ok w2"
    and "\<And>p s as. map_option (w_heap w2) (fst (JsonStore_GetCertificate p s as w2)) =
      map_option (\<lambda>c. forget_staple (w_heap w1 c)) (fst (JsonStore_GetCertificate p s as w1))"
proof -
  let ?cs = "js_certificates (w_store w1)" and ?ds = "map (\<lambda>ref. forget_staple (w_heap w1 ref)) (js_certificates (w_store w1))"
  let ?w = "set_store (\<lambda>j. j\<lparr>js_certificates := [], js_locks := Map.empty\<rparr>) w1"
  have disk: "js_file (w_store ?w) = Saved ?ds" using SaveCertificate_file [OF assms] by (simp add: set_store_def)
  obtain refs w' where al: "alloc_details ?ds ?w = (refs, w')" by fastforce
  let ?w2 = "set_store (\<lambda>j. j\<lparr>js_certificates := refs\<rparr>) w'"
  have "NewStore w1 = Ok ?w2" using disk al by (simp add: NewStore_def load_def Let_def)
  moreover have rel: "list_all2 (\<lambda>c c'. w_heap ?w2 c' = forget_staple (w_heap w1 c)) ?cs refs"
    using conjunct2 [OF alloc_details_all [OF al]] by (auto simp: list_all2_map1 set_store_def elim!: list_all2_mono)
  have "map_option (w_heap ?w2) (fst (JsonStore_GetCertificate p s as ?w2)) =
      map_option (\<lambda>c. forget_staple (w_heap w1 c)) (fst (JsonStore_GetCertificate p s as w1))" for p s as
    using lookup_loop_rel [OF rel, of None None p s as]
    by (auto simp: JsonStore_GetCertificate_def set_store_def option_rel_Some1 option_rel_Some2 option.rel_sel
        map_option_case split: option.splits)
  ultimately show thesis using that by blast
qed

subsection \<open>The contract of a store\<close>

lemma json_sinv_stable: "json_inv w \<Longrightarrow> world_frame w w' \<Longrightarrow> json_inv w'"
  by (auto simp: json_inv_def world_frame_def heap_frame_def same_cert_def cert_key_def cong: map_cong)

lemma json_locked_stable: "json_locked l w \<Longrightarrow> w_store w' = w_store w \<Longrightarrow> json_locked l w'"
  by (simp add: json_locked_def)

lemma json_lookup_frame:
  "json_inv w \<Longrightarrow> StoreGetCertificate json_store p s as w = (r, w') \<Longrightarrow>
   heap_frame w w' \<and> w_env w' = w_env w \<and> json_inv w' \<and> (json_locked l w \<longrightarrow> json_locked l w') \<and>
   (heap_decodes pe w \<longrightarrow> heap_decodes pe w')"
  by (auto simp: json_store_def JsonStore_GetCertificate_def)

lemma json_lookup_for:
  assumes "json_inv w" "StoreGetCertificate json_store p s as w = (Some ref, w')"
  shows "ref < w_next w' \<and> IsFor s as (w_heap w' ref) \<and>
    (det_Provider (w_heap w' ref) = p \<or> det_Provider (w_heap w' ref) = [])"
proof -
  have "JsonStore_GetCertificate p s as w = (Some ref, w)" "w' = w"
    using assms(2) by (auto simp: json_store_def JsonStore_GetCertificate_def)
  with lookup_found [OF assms(1) this(1)] assms(1) show ?thesis by (auto simp: json_inv_def)
qed

lemma json_save_frame:
  assumes "json_inv w" "heap_decodes pe w" "ref < w_next w" "SaveCertificate json_store ref w = (err, w')"
  shows "heap_frame w w' \<and> w_env w' = w_env w \<and> json_inv w' \<and> (json_locked l w \<longrightarrow> json_locked l w') \<and>
    heap_decodes pe w'"
proof -
  have sv: "JsonStore_SaveCertificate ref w = (err, w')" using assms(4) by (simp add: json_store_def)
  show ?thesis
    using SaveCertificate_inv [OF assms(1,3) sv] assms(2)
    by (simp add: heap_frame_def heap_decodes_def json_locked_def SaveCertificate_effect [OF assms(1) sv])
qed

lemma json_save_lookup:
  assumes "json_inv w" "heap_decodes pe w" "ref < w_next w" "SaveCertificate json_store ref w = (None, w1)"
    and "IsFor s as (w_heap w ref)" "StoreGetCertificate json_store p s as w1 = (Some ref', w2)"
    and "p = det_Provider (w_heap w ref)" "det_Provider (w_heap w2 ref') = p"
  shows "same_issue (w_heap w ref) (w_heap w2 ref')"
proof -
  have "w_heap w2 ref' = w_heap w ref"
    using save_then_lookup [of w ref None w1 s as p ref' w2] assms unfolding json_store_def by auto
  then show ?thesis by (simp add: same_issue_def)
qed

lemma json_lock_returns:
  "json_locked None w \<Longrightarrow> \<exists>w'. LockCertificate json_store s as w = Some w'"
  "json_locked (Some (s, as)) w \<Longrightarrow> \<exists>w'. UnlockCertificate json_store s as w = Some w'"
  by (simp_all add: json_store_def json_lock(1) json_unlock(1))

lemma json_lock_frame:
  "json_inv w \<Longrightarrow> json_locked None w \<Longrightarrow> LockCertificate json_store s as w = Some w' \<Longrightarrow>
   heap_frame w w' \<and> w_env w' = w_env w \<and> w_next w' = w_next w \<and> json_inv w' \<and> json_locked (Some (s, as)) w'"
  "json_inv w \<Longrightarrow> json_locked (Some (s, as)) w \<Longrightarrow> UnlockCertificate json_store s as w = Some w' \<Longrightarrow>
   heap_frame w w' \<and> w_env w' = w_env w \<and> w_next w' = w_next w \<and> json_inv w' \<and> json_locked None w'"
  using json_lock [of w s as] json_unlock [of s as w] by (auto simp: json_store_def set_lock_frame)

lemmas json_laws = json_sinv_stable json_locked_stable json_lookup_frame json_lookup_for json_save_frame
  json_save_lookup json_lock_returns json_lock_frame

interpretation json: certificate_store json_store parsePEM json_inv json_locked for parsePEM
  by unfold_locales (rule json_laws, assumption+)+

end
