(* ===== verification/Wildcards.thy ===== *)
theory Wildcards
  imports Proxy_Manager
begin

text \<open>
  \<^verbatim>\<open>certificate/wildcards.go\<close>: the resolver that replaces names by wildcard names before it asks
  another certificate provider.
\<close>

fun wildcard_domains :: "string list \<Rightarrow> string list" where
  "wildcard_domains [] = []"
| "wildcard_domains (d # ds) =
     (if d \<noteq> [] \<and> hd d = CHR ''.'' then d # wildcard_domains ds
      else if d \<noteq> [] then (CHR ''.'' # d) # wildcard_domains ds
      else wildcard_domains ds)"

record 'p WildcardResolver =
  wr_upstream :: "'p CertificateProvider"
  wr_domains :: "string list"

definition NewWildcardResolver :: "'p CertificateProvider \<Rightarrow> string list \<Rightarrow> 'p WildcardResolver" where
  "NewWildcardResolver upstream domains = \<lparr>wr_upstream = upstream, wr_domains = wildcard_domains domains\<rparr>"

fun applyWildcard :: "string list \<Rightarrow> string \<Rightarrow> string" where
  "applyWildcard [] domain = domain"
| "applyWildcard (w # ws) domain =
     (let prefix = trim_suffix domain w in
      if prefix \<noteq> domain \<and> count_char CHR ''.'' prefix = 0 then CHR ''*'' # w
      else applyWildcard ws domain)"

fun applyWildcards :: "string list \<Rightarrow> string list \<Rightarrow> string list" where
  "applyWildcards ws [] = []"
| "applyWildcards ws (d # ds) = applyWildcard ws d # applyWildcards ws ds"

definition WildcardResolver_GetCertificate ::
  "'p WildcardResolver \<Rightarrow> string \<Rightarrow> string \<Rightarrow> string list \<Rightarrow> 'p \<Rightarrow>
    ((TLSCertificate option \<times> string option) \<times> 'p) option" where
  "WildcardResolver_GetCertificate w preferredSupplier subject altNames =
     GetCertificate (wr_upstream w) preferredSupplier
       (applyWildcard (wr_domains w) subject) (applyWildcards (wr_domains w) altNames)"

definition WildcardResolver_GetExistingCertificate ::
  "'p WildcardResolver \<Rightarrow> string \<Rightarrow> string \<Rightarrow> string list \<Rightarrow> 'p \<Rightarrow>
    ((TLSCertificate option \<times> bool \<times> string option) \<times> 'p) option" where
  "WildcardResolver_GetExistingCertificate w preferredSupplier subject altNames =
     GetExistingCertificate (wr_upstream w) preferredSupplier
       (applyWildcard (wr_domains w) subject) (applyWildcards (wr_domains w) altNames)"

definition wildcard_provider :: "'p WildcardResolver \<Rightarrow> 'p CertificateProvider" where
  "wildcard_provider w =
     \<lparr>GetCertificate = WildcardResolver_GetCertificate w,
      GetExistingCertificate = WildcardResolver_GetExistingCertificate w\<rparr>"

subsection \<open>Which names a certificate name covers\<close>

text \<open>A name of a certificate covers a host name if they are equal, or if it is a wildcard and the
  host name has exactly one label in place of the star.\<close>

definition name_covers :: "string \<Rightarrow> string \<Rightarrow> bool" where
  "name_covers n d \<longleftrightarrow> n = d \<or>
     (\<exists>label rest. n = ''*.'' @ rest \<and> d = label @ ''.'' @ rest \<and> label \<noteq> [] \<and> CHR ''.'' \<notin> set label)"

lemma wildcard_domains_dot: "w \<in> set (wildcard_domains ds) \<Longrightarrow> \<exists>rest. w = CHR ''.'' # rest"
  by (induction ds) (auto split: if_splits simp: hd_conv_nth neq_Nil_conv)

text \<open>What \<open>applyWildcard\<close> returns: the name itself where no wildcard fits, or the first
  wildcard domain that is left when one label is removed.\<close>

lemma applyWildcard_cases:
  "applyWildcard ws d = d \<or>
   (\<exists>w \<in> set ws. \<exists>label. applyWildcard ws d = CHR ''*'' # w \<and> d = label @ w \<and> w \<noteq> [] \<and> CHR ''.'' \<notin> set label)"
proof (induction ws)
  case (Cons w ws)
  show ?case
  proof (cases "trim_suffix d w \<noteq> d \<and> count_char CHR ''.'' (trim_suffix d w) = 0")
    case True
    then obtain p where "w \<noteq> []" "d = p @ w" by (auto simp: trim_suffix_neq)
    with True have "CHR ''.'' \<notin> set p" by (simp add: count_char_0)
    with True \<open>w \<noteq> []\<close> \<open>d = p @ w\<close> show ?thesis by (auto simp: Let_def)
  next
    case False
    then have "applyWildcard (w # ws) d = applyWildcard ws d" by (auto simp: Let_def)
    with Cons show ?thesis by auto
  qed
qed simp

lemma applyWildcards_map: "applyWildcards ws ds = map (applyWildcard ws) ds"
  by (induction ds) auto

text \<open>Each name is replaced on its own: the names of the example in \<^verbatim>\<open>docs/wildcards.md\<close> contain the wildcard name twice.\<close>

lemma wildcards_are_repeated:
  "applyWildcards (wildcard_domains [''example.com'']) [''example.com'', ''test.example.com'', ''admin.example.com''] =
     [''example.com'', ''*.example.com'', ''*.example.com'']"
  by code_simp

text \<open>A name for which no wildcard domain fits is not changed, and one for which some does is.\<close>

lemma applyWildcard_unchanged:
  "(\<And>w label. w \<in> set ws \<Longrightarrow> d = label @ w \<Longrightarrow> w \<noteq> [] \<Longrightarrow> CHR ''.'' \<in> set label) \<Longrightarrow> applyWildcard ws d = d"
  using applyWildcard_cases [of ws d] by blast

lemma applyWildcard_covers:
  assumes "d \<noteq> []" "hd d \<noteq> CHR ''.''"
  shows "name_covers (applyWildcard (wildcard_domains ws) d) d"
proof -
  from applyWildcard_cases [of "wildcard_domains ws" d]
  show ?thesis
  proof
    assume "\<exists>w \<in> set (wildcard_domains ws). \<exists>label. applyWildcard (wildcard_domains ws) d = CHR ''*'' # w \<and>
        d = label @ w \<and> w \<noteq> [] \<and> CHR ''.'' \<notin> set label"
    then obtain w label where w: "w \<in> set (wildcard_domains ws)" "d = label @ w" "CHR ''.'' \<notin> set label"
      "applyWildcard (wildcard_domains ws) d = CHR ''*'' # w" by blast
    obtain rest where "w = CHR ''.'' # rest" using wildcard_domains_dot [OF w(1)] by blast
    moreover from this w(2) assms have "label \<noteq> []" by auto
    ultimately show ?thesis using w by (auto simp: name_covers_def)
  qed (simp add: name_covers_def)
qed

text \<open>The resolver keeps the contract of the provider it wraps.\<close>

context certificate_provider
begin

lemma wildcard_provider_ok:
  "certificate_provider (wildcard_provider (NewWildcardResolver prov ws)) pinv"
  by unfold_locales
    (auto simp: wildcard_provider_def WildcardResolver_GetCertificate_def NewWildcardResolver_def
      WildcardResolver_GetExistingCertificate_def get_returns existing_returns
      dest: get_inv get_ok existing_inv existing_ok)

end

end
