(* ===== verification/Manager_Atomics.thy ===== *)
theory Manager_Atomics
  imports Proxy_Manager
begin

text \<open>
  \<^verbatim>\<open>proxy/manager.go\<close> and \<^verbatim>\<open>proxy/route.go\<close> at the granularity of their atomic stores. A goroutine that installs
  routes publishes the domain map, the route list and the fallback one after the other; a goroutine that checks a certificate
  stores the certificate and its status one after the other; a request loads the domain map, the fallback and the status one
  after the other. \<open>micro_step\<close> interleaves the single stores of any number of goroutines; the steps of \<open>mgr_step\<close>
  are the runs in which the stores of one operation follow each other.

  A call of the certificate provider is one step, at the beginning of a check. The certificates of new routes are loaded
  before anybody else can see the routes, so that loading them is one step too.
\<close>

datatype store =
    StoreCertificate route_ref "TLSCertificate option"
  | StoreStatus route_ref CertificateStatus
  | StoreDomains "string \<rightharpoonup> route_ref"
  | StoreRoutes "route_ref list"
  | StoreFallback "route_ref option"

fun do_store :: "store \<Rightarrow> 'p Manager \<Rightarrow> 'p Manager" where
  "do_store (StoreCertificate ref c) m = upd_route (setCertificate c) ref m"
| "do_store (StoreStatus ref st) m = upd_route (setCertificateStatus st) ref m"
| "do_store (StoreDomains dm) m = m\<lparr>m_domains := Some dm\<rparr>"
| "do_store (StoreRoutes refs) m = m\<lparr>m_routes := Some refs\<rparr>"
| "do_store (StoreFallback fb) m = m\<lparr>m_fallback := fb\<rparr>"

text \<open>The stores that \<^verbatim>\<open>loadCertificate\<close>, the check of one route and \<^verbatim>\<open>SetRoutes\<close> make, in their order.\<close>

definition load_stores :: "route_ref \<Rightarrow> 'p Manager \<Rightarrow> (store list \<times> 'p) option" where
  "load_stores ref m =
     (case m_provider m of
        None \<Rightarrow> Some ([StoreStatus ref CertificateNotRequired], m_pstate m)
      | Some prov \<Rightarrow>
          (case CertificateNames (m_heap m ref) of
             None \<Rightarrow> None
           | Some (primary, alts) \<Rightarrow>
               (case GetExistingCertificate prov (Provider (m_heap m ref)) primary alts (m_pstate m) of
                  None \<Rightarrow> None
                | Some ((cert, needsRenewal, err), ps) \<Rightarrow>
                    if Domains (m_heap m ref) = [] then None
                    else Some (case err of
                        None \<Rightarrow> [StoreCertificate ref cert,
                          StoreStatus ref (if needsRenewal then CertificateExpiringSoon else CertificateGood)]
                      | Some _ \<Rightarrow> [StoreCertificate ref None, StoreStatus ref CertificateMissing], ps))))"

definition check_stores :: "route_ref \<Rightarrow> 'p Manager \<Rightarrow> (store list \<times> 'p) option" where
  "check_stores ref m =
     (case m_provider m of
        None \<Rightarrow> Some ([StoreStatus ref CertificateNotRequired], m_pstate m)
      | Some prov \<Rightarrow>
          (case CertificateNames (m_heap m ref) of
             None \<Rightarrow> None
           | Some (primary, alts) \<Rightarrow>
               (case GetCertificate prov (Provider (m_heap m ref)) primary alts (m_pstate m) of
                  None \<Rightarrow> None
                | Some ((cert, err), ps) \<Rightarrow>
                    (case err of
                       None \<Rightarrow> Some ([StoreCertificate ref cert, StoreStatus ref CertificateGood], ps)
                     | Some _ \<Rightarrow>
                         if Domains (m_heap m ref) = [] then None else load_stores ref (m\<lparr>m_pstate := ps\<rparr>)))))"

definition publish_stores :: "route_ref list \<Rightarrow> route_ref option \<Rightarrow> 'p Manager \<Rightarrow> (string, store list) result" where
  "publish_stores refs fb m =
     (case build_domains (m_heap m) refs Map.empty of
        Inl e \<Rightarrow> Error e
      | Inr dm \<Rightarrow> Ok [StoreDomains dm, StoreRoutes refs, StoreFallback fb])"

subsection \<open>The stores of an operation, one after the other\<close>

lemma load_stores_all:
  "loadCertificate ref m = map_option (\<lambda>(ss, ps). fold do_store ss (m\<lparr>m_pstate := ps\<rparr>)) (load_stores ref m)"
  by (auto simp: loadCertificate_def load_stores_def Let_def simp del: CertificateNames_Some split: option.splits prod.splits)

lemma check_stores_all:
  "check_route ref m = map_option (\<lambda>(ss, ps). fold do_store ss (m\<lparr>m_pstate := ps\<rparr>)) (check_stores ref m)"
  by (auto simp: check_route_def updateCert_def check_stores_def load_stores_all Let_def
      simp del: CertificateNames_Some split: option.splits prod.splits)

lemma publish_stores_all:
  "SetRoutes refs fb m =
     (case each_route loadCertificate refs m of
        None \<Rightarrow> None
      | Some m1 \<Rightarrow> (case publish_stores refs fb m1 of Inl e \<Rightarrow> Some (Some e, m1) | Inr ss \<Rightarrow> Some (None, fold do_store ss m1)))"
  by (auto simp: SetRoutes_def Update_def publish_stores_def split: option.splits sum.splits)

subsection \<open>Interleaving\<close>

text \<open>The manager, the stores that the goroutine of the source still has to make, and those of each goroutine that checks
  certificates. In runs with \<open>excl\<close>, a route is checked by one goroutine at a time.\<close>

record 'p micro =
  mi_manager :: "'p Manager"
  mi_install :: "store list"
  mi_checks :: "nat \<Rightarrow> store list"

fun store_ref :: "store \<Rightarrow> route_ref option" where
  "store_ref (StoreCertificate ref c) = Some ref"
| "store_ref (StoreStatus ref st) = Some ref"
| "store_ref _ = None"

definition checks_ref :: "'p micro \<Rightarrow> nat \<Rightarrow> route_ref \<Rightarrow> bool" where
  "checks_ref s g ref \<longleftrightarrow> Some ref \<in> store_ref ` set (mi_checks s g)"

inductive micro_step :: "bool \<Rightarrow> ('p \<Rightarrow> bool) \<Rightarrow> 'p micro \<Rightarrow> 'p micro \<Rightarrow> bool" for excl pinv where
  install: "mi_install s = [] \<Longrightarrow> list_all route_ok rs \<Longrightarrow> (\<And>i. fb = Some i \<Longrightarrow> i < length rs) \<Longrightarrow>
    refs = [m_next (mi_manager s)..<m_next (mi_manager s) + length rs] \<Longrightarrow>
    each_route loadCertificate refs (alloc_routes rs (mi_manager s)) = Some m1 \<Longrightarrow>
    publish_stores refs (map_option (\<lambda>i. m_next (mi_manager s) + i) fb) m1 = Ok ss \<Longrightarrow>
    micro_step excl pinv s (s\<lparr>mi_manager := m1, mi_install := ss\<rparr>)"
| install_fails: "mi_install s = [] \<Longrightarrow> list_all route_ok rs \<Longrightarrow>
    refs = [m_next (mi_manager s)..<m_next (mi_manager s) + length rs] \<Longrightarrow>
    each_route loadCertificate refs (alloc_routes rs (mi_manager s)) = Some m1 \<Longrightarrow>
    publish_stores refs (map_option (\<lambda>i. m_next (mi_manager s) + i) fb) m1 = Error e \<Longrightarrow>
    micro_step excl pinv s (s\<lparr>mi_manager := m1\<rparr>)"
| publish: "mi_install s = st # ss \<Longrightarrow>
    micro_step excl pinv s (s\<lparr>mi_manager := do_store st (mi_manager s), mi_install := ss\<rparr>)"
| check: "mi_checks s g = [] \<Longrightarrow> ref < m_next (mi_manager s) \<Longrightarrow> (excl \<Longrightarrow> (\<And>g'. \<not> checks_ref s g' ref)) \<Longrightarrow>
    check_stores ref (mi_manager s) = Some (ss, ps) \<Longrightarrow>
    micro_step excl pinv s (s\<lparr>mi_manager := (mi_manager s)\<lparr>m_pstate := ps\<rparr>, mi_checks := (mi_checks s)(g := ss)\<rparr>)"
| stores: "mi_checks s g = st # ss \<Longrightarrow>
    micro_step excl pinv s (s\<lparr>mi_manager := do_store st (mi_manager s), mi_checks := (mi_checks s)(g := ss)\<rparr>)"
| world: "pinv ps \<Longrightarrow> micro_step excl pinv s (s\<lparr>mi_manager := (mi_manager s)\<lparr>m_pstate := ps\<rparr>\<rparr>)"

abbreviation at_rest :: "'p Manager \<Rightarrow> 'p micro" where
  "at_rest m \<equiv> \<lparr>mi_manager = m, mi_install = [], mi_checks = (\<lambda>_. [])\<rparr>"

inductive micro_reachable :: "bool \<Rightarrow> ('p \<Rightarrow> bool) \<Rightarrow> 'p CertificateProvider option \<Rightarrow> 'p micro \<Rightarrow> bool"
  for excl pinv prov where
  start: "pinv ps \<Longrightarrow> micro_reachable excl pinv prov (at_rest (NewManager prov ps))"
| step: "micro_reachable excl pinv prov s \<Longrightarrow> micro_step excl pinv s s' \<Longrightarrow> micro_reachable excl pinv prov s'"

text \<open>What a request finds when it loads the domain map, the fallback and the status at three moments.\<close>

definition RouteForDomain_loads :: "'p Manager \<Rightarrow> 'p Manager \<Rightarrow> 'p Manager \<Rightarrow> string \<Rightarrow> route_ref option" where
  "RouteForDomain_loads m1 m2 m3 domain =
     (case (case Get m1 domain of Some ref \<Rightarrow> Some ref | None \<Rightarrow> m_fallback m2) of
        None \<Rightarrow> None
      | Some ref \<Rightarrow> if certificateStatus (m_heap m3 ref) \<le> CertificateMissing then None else Some ref)"

lemma RouteForDomain_one_moment: "RouteForDomain_loads m m m = RouteForDomain m"
  by (simp add: fun_eq_iff RouteForDomain_loads_def RouteForDomain_def routeFor_def)

subsection \<open>An operation without interruption\<close>

lemma publish_run:
  "mi_install s = ss \<Longrightarrow> (micro_step excl pinv)\<^sup>*\<^sup>* s (s\<lparr>mi_manager := fold do_store ss (mi_manager s), mi_install := []\<rparr>)"
proof (induction ss arbitrary: s)
  case (Cons st ss)
  let ?s = "s\<lparr>mi_manager := do_store st (mi_manager s), mi_install := ss\<rparr>"
  have "micro_step excl pinv s ?s" by (rule micro_step.publish [OF Cons.prems])
  with Cons.IH [of ?s] show ?case by (simp add: converse_rtranclp_into_rtranclp)
next
  case Nil
  then have "s\<lparr>mi_manager := mi_manager s, mi_install := []\<rparr> = s" by simp
  then show ?case by simp
qed

lemma stores_run:
  "mi_checks s g = ss \<Longrightarrow> (micro_step excl pinv)\<^sup>*\<^sup>* s
     (s\<lparr>mi_manager := fold do_store ss (mi_manager s), mi_checks := (mi_checks s)(g := [])\<rparr>)"
proof (induction ss arbitrary: s)
  case (Cons st ss)
  let ?s = "s\<lparr>mi_manager := do_store st (mi_manager s), mi_checks := (mi_checks s)(g := ss)\<rparr>"
  have "?s\<lparr>mi_manager := fold do_store ss (mi_manager ?s), mi_checks := (mi_checks ?s)(g := [])\<rparr> =
      s\<lparr>mi_manager := fold do_store (st # ss) (mi_manager s), mi_checks := (mi_checks s)(g := [])\<rparr>"
    by (cases s) (simp add: fun_eq_iff)
  moreover have "micro_step excl pinv s ?s" by (rule micro_step.stores [OF Cons.prems])
  moreover have "mi_checks ?s g = ss" by simp
  ultimately show ?case using Cons.IH [of ?s] by (metis converse_rtranclp_into_rtranclp)
next
  case Nil
  then have eq: "s\<lparr>mi_manager := fold do_store [] (mi_manager s), mi_checks := (mi_checks s)(g := [])\<rparr> = s"
    by (simp add: fun_upd_idem)
  show ?case unfolding eq by (rule rtranclp.rtrancl_refl)
qed

lemma mgr_step_run: "mgr_step pinv m m' \<Longrightarrow> (micro_step excl pinv)\<^sup>*\<^sup>* (at_rest m) (at_rest m')"
proof (induction rule: mgr_step.induct)
  case (install rs fb m err m')
  let ?refs = "[m_next m..<m_next m + length rs]" and ?fb = "map_option (\<lambda>i. m_next m + i) fb"
  obtain m1 where m1: "each_route loadCertificate ?refs (alloc_routes rs m) = Some m1"
    using install.hyps(3) by (auto simp: install_routes_def SetRoutes_def split: option.splits)
  show ?case
  proof (cases "publish_stores ?refs ?fb m1")
    case (Inl e)
    then have "m' = m1" using install.hyps(3) m1 by (simp add: install_routes_def publish_stores_all)
    moreover have "micro_step excl pinv (at_rest m) ((at_rest m)\<lparr>mi_manager := m1\<rparr>)"
      by (rule micro_step.install_fails [where fb = fb]) (use install.hyps(1) m1 Inl in simp_all)
    ultimately show ?thesis by auto
  next
    case (Inr ss)
    then have "m' = fold do_store ss m1" using install.hyps(3) m1 by (simp add: install_routes_def publish_stores_all)
    moreover have "micro_step excl pinv (at_rest m) ((at_rest m)\<lparr>mi_manager := m1, mi_install := ss\<rparr>)"
      by (rule micro_step.install [where fb = fb]) (use install.hyps(1,2) m1 Inr in simp_all)
    ultimately show ?thesis
      using publish_run [of "(at_rest m)\<lparr>mi_manager := m1, mi_install := ss\<rparr>" ss excl pinv]
      by (simp add: converse_rtranclp_into_rtranclp)
  qed
next
  case (check ref m m')
  then obtain ss ps where ss: "check_stores ref m = Some (ss, ps)" "m' = fold do_store ss (m\<lparr>m_pstate := ps\<rparr>)"
    by (auto simp: check_stores_all)
  let ?s = "(at_rest m)\<lparr>mi_manager := m\<lparr>m_pstate := ps\<rparr>, mi_checks := (\<lambda>_. [])(0 := ss)\<rparr>"
  have "micro_step excl pinv (at_rest m) ?s"
    using micro_step.check [of "at_rest m" 0 ref excl ss ps pinv] check.hyps(1) ss(1) by (simp add: checks_ref_def)
  moreover have "(micro_step excl pinv)\<^sup>*\<^sup>* ?s (at_rest m')"
    using stores_run [of ?s 0 ss excl pinv] ss(2) by (simp add: fun_upd_idem)
  ultimately show ?case by (rule converse_rtranclp_into_rtranclp)
next
  case (world ps m)
  then show ?case using micro_step.world [of pinv ps excl "at_rest m"] by auto
qed

subsection \<open>What every interleaving keeps\<close>

text \<open>Every route that exists has a domain, and only routes that exist can be found, now or after the stores to come.\<close>

fun store_ok :: "nat \<Rightarrow> store \<Rightarrow> bool" where
  "store_ok n (StoreDomains dm) = (ran dm \<subseteq> {..<n})"
| "store_ok n (StoreFallback fb) = (\<forall>ref. fb = Some ref \<longrightarrow> ref < n)"
| "store_ok n _ = True"

definition refs_ok :: "'p micro \<Rightarrow> bool" where
  "refs_ok s \<longleftrightarrow>
     (let m = mi_manager s in
      (\<forall>ref < m_next m. Domains (m_heap m ref) \<noteq> []) \<and>
      (\<forall>dm. m_domains m = Some dm \<longrightarrow> ran dm \<subseteq> {..<m_next m}) \<and> (\<forall>ref. m_fallback m = Some ref \<longrightarrow> ref < m_next m) \<and>
      list_all (store_ok (m_next m)) (mi_install s) \<and> (\<forall>g. list_all (store_ok (m_next m)) (mi_checks s g)))"

lemma check_stores_ok: "check_stores ref m = Some (ss, ps) \<Longrightarrow> list_all (store_ok n) ss"
  by (auto simp: check_stores_def load_stores_def split: option.splits prod.splits if_splits)

lemma store_ok_mono: "store_ok n st \<Longrightarrow> n \<le> n' \<Longrightarrow> store_ok n' st"
  by (cases st) auto

lemma list_store_ok_mono: "list_all (store_ok n) ss \<Longrightarrow> n \<le> n' \<Longrightarrow> list_all (store_ok n') ss"
  by (auto simp: list_all_iff intro: store_ok_mono)

lemma do_store_next [simp]: "m_next (do_store st m) = m_next m" "m_provider (do_store st m) = m_provider m"
  "m_pstate (do_store st m) = m_pstate m" "Domains (m_heap (do_store st m) ref) = Domains (m_heap m ref)"
  by (cases st; simp add: upd_route_def route_simps)+

lemma do_store_refs_ok:
  assumes "refs_ok s" "store_ok (m_next (mi_manager s)) st"
  shows "refs_ok (s\<lparr>mi_manager := do_store st (mi_manager s)\<rparr>)"
  using assms by (cases st) (auto simp: refs_ok_def Let_def upd_route_def route_simps)

text \<open>The domain map of new routes refers to these routes only.\<close>

lemma build_domains_ran: "build_domains h refs Map.empty = Ok dm \<Longrightarrow> ran dm \<subseteq> set refs"
  by (auto simp: build_domains_Inr ran_def split: option.splits dest: owner_Some)

lemma loaded_refs_ok:
  assumes "refs_ok s" "list_all route_ok rs" "refs = [m_next (mi_manager s)..<m_next (mi_manager s) + length rs]"
    and "each_route loadCertificate refs (alloc_routes rs (mi_manager s)) = Some m1"
  shows "refs_ok (s\<lparr>mi_manager := m1\<rparr>) \<and> m_next m1 = m_next (mi_manager s) + length rs"
proof -
  let ?m = "mi_manager s"
  have f: "cert_frame (alloc_routes rs ?m) m1" by (rule each_load_frame [OF assms(4)])
  then have n: "m_next m1 = m_next ?m + length rs" by (simp add: cert_frame_def)
  have "Domains (m_heap (alloc_routes rs ?m) ref) \<noteq> []" if "ref < m_next ?m + length rs" for ref
    using that assms(1) alloc_routes_old [of ref ?m rs] new_refs_ok [OF assms(2), of ref ?m]
    by (cases "ref < m_next ?m") (auto simp: refs_ok_def route_ok_def building_ok_def Let_def)
  moreover have "list_all (store_ok (m_next m1)) ss" if "list_all (store_ok (m_next ?m)) ss" for ss
    using that n by (auto intro: list_store_ok_mono)
  ultimately show ?thesis
    using assms(1) f n by (fastforce simp: refs_ok_def cert_frame_def same_config_def Let_def)
qed

lemma publish_stores_ok:
  assumes "publish_stores refs fb m1 = Ok ss" "set refs \<subseteq> {..<n}" "\<And>ref. fb = Some ref \<Longrightarrow> ref < n"
  shows "list_all (store_ok n) ss"
  using assms build_domains_ran by (fastforce simp: publish_stores_def split: sum.splits)

lemma micro_step_refs_ok: "micro_step excl pinv s s' \<Longrightarrow> refs_ok s \<Longrightarrow> refs_ok s'"
proof (induction rule: micro_step.induct)
  case (install s rs fb refs m1 ss)
  note l = loaded_refs_ok [OF install.prems install.hyps(2,4,5)]
  have "list_all (store_ok (m_next m1)) ss"
    by (rule publish_stores_ok [OF install.hyps(6)]) (use l install.hyps(3,4) in auto)
  with conjunct1 [OF l] show ?case by (simp add: refs_ok_def Let_def)
next
  case (install_fails s rs refs m1 fb e)
  then show ?case using loaded_refs_ok by blast
next
  case (publish s st ss)
  then have "store_ok (m_next (mi_manager s)) st" by (simp add: refs_ok_def Let_def)
  from do_store_refs_ok [OF publish.prems this] publish show ?case by (simp add: refs_ok_def Let_def)
next
  case (check s g ref ss ps)
  then show ?case using check_stores_ok by (auto simp: refs_ok_def Let_def)
next
  case (stores s g st ss)
  then have "list_all (store_ok (m_next (mi_manager s))) (st # ss)" by (metis refs_ok_def)
  with do_store_refs_ok [OF stores.prems, of st] stores show ?case by (auto simp: refs_ok_def Let_def)
qed (simp add: refs_ok_def Let_def)

lemma micro_reachable_refs_ok: "micro_reachable excl pinv prov s \<Longrightarrow> refs_ok s"
proof (induction rule: micro_reachable.induct)
  case start
  show ?case by (simp add: refs_ok_def NewManager_def Let_def)
next
  case step
  then show ?case using micro_step_refs_ok by blast
qed

text \<open>References stay valid.\<close>

lemma micro_step_next: "micro_step excl pinv s s' \<Longrightarrow> m_next (mi_manager s) \<le> m_next (mi_manager s')"
  by (induction rule: micro_step.induct) (auto dest!: each_load_frame simp: cert_frame_def)

lemma micro_steps_next: "(micro_step excl pinv)\<^sup>*\<^sup>* s s' \<Longrightarrow> m_next (mi_manager s) \<le> m_next (mi_manager s')"
  by (induction rule: rtranclp_induct) (auto dest: micro_step_next)

lemma micro_reachable_steps: "(micro_step excl pinv)\<^sup>*\<^sup>* s s' \<Longrightarrow> micro_reachable excl pinv prov s \<Longrightarrow> micro_reachable excl pinv prov s'"
  by (induction rule: rtranclp_induct) (auto intro: micro_reachable.step)

text \<open>Whatever a request loads in the course of a run, the route it finds exists and has a domain.\<close>

lemma loads_find_a_route:
  assumes "micro_reachable excl pinv prov s1" "(micro_step excl pinv)\<^sup>*\<^sup>* s1 s2" "(micro_step excl pinv)\<^sup>*\<^sup>* s2 s3"
    and "RouteForDomain_loads (mi_manager s1) (mi_manager s2) (mi_manager s3) domain = Some ref"
  shows "Domains (m_heap (mi_manager s3) ref) \<noteq> []"
proof -
  have r: "micro_reachable excl pinv prov s2" using assms(1,2) by (rule micro_reachable_steps [rotated])
  have ok: "refs_ok s1" "refs_ok s2" "refs_ok s3"
    using micro_reachable_refs_ok assms(1) r micro_reachable_steps [OF assms(3) r] by blast+
  have "Get (mi_manager s1) domain = Some ref \<or> m_fallback (mi_manager s2) = Some ref"
    using assms(4) by (auto simp: RouteForDomain_loads_def split: option.splits if_splits)
  then have "ref < m_next (mi_manager s3)"
    using ok(1,2) micro_steps_next [OF assms(2)] micro_steps_next [OF assms(3)]
    by (fastforce simp: refs_ok_def Let_def Get_def ran_def split: option.splits)
  with ok(3) show ?thesis by (simp add: refs_ok_def Let_def)
qed

subsection \<open>Certificates and their status\<close>

text \<open>What a check still has to store: a certificate and a status that says that it is there, or no certificate and the status that says so;
  or only the status.\<close>

definition matching :: "TLSCertificate option \<Rightarrow> CertificateStatus \<Rightarrow> bool" where
  "matching c st \<longleftrightarrow> st \<notin> {CertificateNotChecked, CertificateNotRequired} \<and> (c = None \<longleftrightarrow> st = CertificateMissing)"

inductive pending_ok :: "(route_ref \<Rightarrow> Route) \<Rightarrow> store list \<Rightarrow> bool" for h where
  nothing: "pending_ok h []"
| both: "matching c st \<Longrightarrow> pending_ok h [StoreCertificate ref c, StoreStatus ref st]"
| status: "matching c st \<Longrightarrow> st \<noteq> CertificateMissing \<longrightarrow> certificate (h ref) \<noteq> None \<Longrightarrow> pending_ok h [StoreStatus ref st]"

inductive_cases pending_Cons: "pending_ok h (st # ss)"

text \<open>The status of a route is \<open>withdrawn\<close> when the certificate has been removed and the status is the next thing to be stored.\<close>

definition being_withdrawn :: "'p micro \<Rightarrow> route_ref \<Rightarrow> bool" where
  "being_withdrawn s ref \<longleftrightarrow> (\<exists>g. mi_checks s g = [StoreStatus ref CertificateMissing])"

definition status_ok :: "'p micro \<Rightarrow> route_ref \<Rightarrow> bool" where
  "status_ok s ref \<longleftrightarrow>
     (let r = m_heap (mi_manager s) ref in
      certificateStatus r \<noteq> CertificateNotRequired \<and>
      (\<not> certificateStatus r \<le> CertificateMissing \<longrightarrow> certificate r \<noteq> None \<or> being_withdrawn s ref))"

definition checks_ok :: "'p micro \<Rightarrow> bool" where
  "checks_ok s \<longleftrightarrow>
     (\<forall>g. pending_ok (m_heap (mi_manager s)) (mi_checks s g)) \<and>
     (\<forall>g ref. checks_ref s g ref \<longrightarrow> ref < m_next (mi_manager s)) \<and>
     (\<forall>g g' ref. checks_ref s g ref \<longrightarrow> checks_ref s g' ref \<longrightarrow> g = g') \<and>
     (\<forall>st \<in> set (mi_install s). store_ref st = None) \<and> (\<forall>ref. status_ok s ref)"

lemma do_store_no_ref: "store_ref st = None \<Longrightarrow> m_heap (do_store st m) = m_heap m"
  by (cases st) auto

lemma pending_refs: "pending_ok h (st # ss) \<Longrightarrow> \<exists>ref. store_ref ` set (st # ss) = {Some ref} \<and> store_ref st = Some ref"
  by (auto elim!: pending_Cons)

lemma do_store_other: "store_ref st = Some ref \<Longrightarrow> ref' \<noteq> ref \<Longrightarrow> m_heap (do_store st m) ref' = m_heap m ref'"
  by (cases st) (auto simp: upd_route_def)

lemma pending_frame:
  assumes "pending_ok h ss" "\<And>ref. Some ref \<in> store_ref ` set ss \<Longrightarrow> h' ref = h ref"
  shows "pending_ok h' ss"
  using assms(1)
proof cases
  case (status c st ref)
  then show ?thesis using assms(2) [of ref] by (auto intro: pending_ok.status)
qed (auto intro: pending_ok.intros)

text \<open>The one store of a check.\<close>

text \<open>A store of goroutine \<open>g\<close>, which alone checks the route \<open>ref\<close>: what it means for this route, and for the others.\<close>

lemma own_store_ok:
  assumes "checks_ok s" "mi_checks s g = st # ss" "store_ref st = Some ref"
  shows "pending_ok (m_heap (do_store st (mi_manager s))) ss \<and>
    status_ok (s\<lparr>mi_manager := do_store st (mi_manager s), mi_checks := (mi_checks s)(g := ss)\<rparr>) ref"
proof -
  have "pending_ok (m_heap (mi_manager s)) (st # ss)" using assms(1,2) by (auto simp: checks_ok_def dest: spec [of _ g])
  then show ?thesis
    using assms
  proof cases
    case (both c st' r)
    have "\<not> being_withdrawn s ref"
    proof
      assume "being_withdrawn s ref"
      then obtain g' where g': "mi_checks s g' = [StoreStatus ref CertificateMissing]" by (auto simp: being_withdrawn_def)
      then have "g' = g" using assms by (auto simp: checks_ok_def checks_ref_def)
      with g' both assms(2) show False by simp
    qed
    moreover have "status_ok s ref" using assms(1) by (simp add: checks_ok_def)
    ultimately show ?thesis
      using both assms(3) by (cases c) (auto simp: status_ok_def being_withdrawn_def matching_def upd_route_def route_simps Let_def
          intro: pending_ok.status [where c = c])
  next
    case (status c st' r)
    then show ?thesis
      using assms(3) by (auto simp: status_ok_def matching_def upd_route_def route_simps Let_def less_eq_CertificateStatus_def
          intro: pending_ok.nothing)
  qed
qed

lemma other_store_ok:
  assumes "checks_ok s" "mi_checks s g = st # ss" "store_ref ` set (st # ss) = {Some ref}" "ref' \<noteq> ref"
  shows "status_ok (s\<lparr>mi_manager := do_store st (mi_manager s), mi_checks := (mi_checks s)(g := ss)\<rparr>) ref'" (is "status_ok ?s ref'")
proof -
  have "being_withdrawn ?s ref'" if "being_withdrawn s ref'" using that assms(2-4) by (force simp: being_withdrawn_def)
  moreover have "status_ok s ref'" using assms(1) by (simp add: checks_ok_def)
  moreover have "store_ref st = Some ref" using assms(3) by auto
  ultimately show ?thesis using do_store_other [OF _ assms(4), of st "mi_manager s"] by (auto simp: status_ok_def Let_def)
qed

lemma stores_checks_ok:
  assumes "checks_ok s" "mi_checks s g = st # ss"
  shows "checks_ok (s\<lparr>mi_manager := do_store st (mi_manager s), mi_checks := (mi_checks s)(g := ss)\<rparr>)" (is "checks_ok ?s")
proof -
  let ?h = "m_heap (mi_manager s)" and ?h' = "m_heap (do_store st (mi_manager s))"
  have p: "pending_ok ?h (st # ss)" and all: "pending_ok ?h (mi_checks s g')" for g'
    using assms by (auto simp: checks_ok_def dest: spec [of _ g])
  obtain ref where ref: "store_ref ` set (st # ss) = {Some ref}" "store_ref st = Some ref" using pending_refs [OF p] by blast
  have mine: "checks_ref s g' ref \<Longrightarrow> g' = g" for g'
    using assms ref by (auto simp: checks_ok_def checks_ref_def)
  have other: "pending_ok ?h' (mi_checks s g')" if "g' \<noteq> g" for g'
  proof (rule pending_frame [OF all])
    fix r
    assume "Some r \<in> store_ref ` set (mi_checks s g')"
    then have "r \<noteq> ref" using that mine by (auto simp: checks_ref_def)
    then show "?h' r = ?h r" by (rule do_store_other [OF ref(2)])
  qed
  note own = own_store_ok [OF assms ref(2)]
  have status: "status_ok ?s r" for r using own other_store_ok [OF assms ref(1)] by (cases "r = ref") auto
  have sub: "checks_ref ?s g' r \<Longrightarrow> checks_ref s g' r" for g' r
    using assms(2) by (auto simp: checks_ref_def split: if_splits)
  have "pending_ok ?h' (mi_checks ?s g')" for g' using own other by simp
  with assms(1) status show ?thesis
    unfolding checks_ok_def by (auto dest!: sub)
qed

text \<open>Changes of the state of the provider, and the publication of routes.\<close>

lemma checks_ok_same_heap:
  assumes "checks_ok s" "m_heap m = m_heap (mi_manager s)" "m_next m = m_next (mi_manager s)" "\<forall>st \<in> set ss. store_ref st = None"
  shows "checks_ok (s\<lparr>mi_manager := m, mi_install := ss\<rparr>)"
  using assms by (auto simp: checks_ok_def checks_ref_def status_ok_def being_withdrawn_def)

context certificate_provider
begin

lemma load_stores_matching:
  assumes "m_provider m = Some prov" "pinv (m_pstate m)" "load_stores ref m = Some (ss, ps)"
  shows "pinv ps \<and> (\<exists>c st. matching c st \<and> ss = [StoreCertificate ref c, StoreStatus ref st])"
proof -
  obtain n as c b err where "GetExistingCertificate prov (Provider (m_heap m ref)) n as (m_pstate m) = Some ((c, b, err), ps)"
    and "ss = (case err of
        None \<Rightarrow> [StoreCertificate ref c, StoreStatus ref (if b then CertificateExpiringSoon else CertificateGood)]
      | Some _ \<Rightarrow> [StoreCertificate ref None, StoreStatus ref CertificateMissing])"
    using assms(1,3) by (auto simp: load_stores_def split: option.splits prod.splits if_splits)
  with existing_inv [OF assms(2)] existing_ok [OF assms(2)] show ?thesis
    by (cases err) (auto simp: matching_def)
qed

lemma check_stores_matching:
  assumes "m_provider m = Some prov" "pinv (m_pstate m)" "check_stores ref m = Some (ss, ps)"
  shows "pinv ps \<and> (\<exists>c st. matching c st \<and> ss = [StoreCertificate ref c, StoreStatus ref st])"
proof -
  obtain n as c err ps' where g: "GetCertificate prov (Provider (m_heap m ref)) n as (m_pstate m) = Some ((c, err), ps')"
    and ss: "(case err of None \<Rightarrow> Some ([StoreCertificate ref c, StoreStatus ref CertificateGood], ps')
      | Some _ \<Rightarrow> if Domains (m_heap m ref) = [] then None else load_stores ref (m\<lparr>m_pstate := ps'\<rparr>)) = Some (ss, ps)"
    using assms(1,3) by (auto simp: check_stores_def split: option.splits prod.splits)
  have p: "pinv ps'" by (rule get_inv [OF assms(2) g])
  show ?thesis
  proof (cases err)
    case None
    with g ss p get_ok [OF assms(2)] show ?thesis by (auto simp: matching_def)
  next
    case (Some e)
    with ss have "load_stores ref (m\<lparr>m_pstate := ps'\<rparr>) = Some (ss, ps)" by (auto split: if_splits)
    with load_stores_matching [of "m\<lparr>m_pstate := ps'\<rparr>"] assms(1) p show ?thesis by simp
  qed
qed

text \<open>Loading the certificates of routes changes these routes only, and leaves each with a certificate or without a status that promises one.\<close>

lemma load_new_routes:
  assumes "m_provider m = Some prov" "pinv (m_pstate m)" "each_route loadCertificate refs m = Some m1"
  shows "m_provider m1 = Some prov \<and> pinv (m_pstate m1) \<and> (\<forall>ref. ref \<notin> set refs \<longrightarrow> m_heap m1 ref = m_heap m ref) \<and>
    (\<forall>ref \<in> set refs. cert_ok True (m_heap m1 ref))"
  using assms
proof (induction refs arbitrary: m)
  case (Cons r refs)
  obtain m' where m': "loadCertificate r m = Some m'" "each_route loadCertificate refs m' = Some m1"
    using Cons.prems(3) by (auto split: option.splits)
  then obtain ss ps where ss: "load_stores r m = Some (ss, ps)" "m' = fold do_store ss (m\<lparr>m_pstate := ps\<rparr>)"
    by (auto simp: load_stores_all)
  then obtain c st where ps: "pinv ps" and c: "matching c st" "ss = [StoreCertificate r c, StoreStatus r st]"
    using load_stores_matching [OF Cons.prems(1,2)] by blast
  have h: "m_heap m' x = (if x = r then setCertificateStatus st (setCertificate c (m_heap m r)) else m_heap m x)" for x
    using ss(2) c(2) by (simp add: upd_route_def)
  have "m_provider m' = Some prov" "pinv (m_pstate m')" using ss(2) c(2) ps Cons.prems(1) by (simp_all add: upd_route_def)
  from Cons.IH [OF this m'(2)] h c(1) show ?case
    by (auto simp: cert_ok_def matching_def route_simps less_eq_CertificateStatus_def)
qed simp

lemma loaded_checks_ok:
  assumes "checks_ok s" "m_provider (mi_manager s) = Some prov" "pinv (m_pstate (mi_manager s))" "list_all route_ok rs"
    and "refs = [m_next (mi_manager s)..<m_next (mi_manager s) + length rs]"
    and "each_route loadCertificate refs (alloc_routes rs (mi_manager s)) = Some m1"
  shows "checks_ok (s\<lparr>mi_manager := m1\<rparr>) \<and> m_provider m1 = Some prov \<and> pinv (m_pstate m1)"
proof -
  let ?m = "mi_manager s"
  have l: "m_provider m1 = Some prov" "pinv (m_pstate m1)"
    "\<And>ref. ref \<notin> set refs \<Longrightarrow> m_heap m1 ref = m_heap (alloc_routes rs ?m) ref"
    "\<And>ref. ref \<in> set refs \<Longrightarrow> cert_ok True (m_heap m1 ref)"
    using load_new_routes [OF _ _ assms(6)] assms(2,3) by simp_all
  have n: "m_next m1 = m_next ?m + length rs" using each_load_frame [OF assms(6)] by (simp add: cert_frame_def)
  have old: "m_heap m1 ref = m_heap ?m ref" if "ref \<notin> set refs" for ref
    using l(3) [OF that] that assms(5) by (auto simp: alloc_routes_def)
  have "pending_ok (m_heap m1) (mi_checks s g)" for g
  proof (rule pending_frame)
    show "pending_ok (m_heap ?m) (mi_checks s g)" using assms(1) by (simp add: checks_ok_def)
    show "m_heap m1 ref = m_heap ?m ref" if "Some ref \<in> store_ref ` set (mi_checks s g)" for ref
    proof (rule old)
      have "ref < m_next ?m" using that assms(1) unfolding checks_ok_def checks_ref_def by blast
      then show "ref \<notin> set refs" by (simp add: assms(5))
    qed
  qed
  moreover have "status_ok (s\<lparr>mi_manager := m1\<rparr>) ref" for ref
  proof (cases "ref \<in> set refs")
    case True
    then show ?thesis using l(4) by (auto simp: status_ok_def cert_ok_def Let_def)
  next
    case False
    then show ?thesis using old assms(1) by (simp add: checks_ok_def status_ok_def being_withdrawn_def)
  qed
  ultimately show ?thesis using assms(1) l n by (fastforce simp: checks_ok_def checks_ref_def)
qed

definition tls_checks_ok :: "'p micro \<Rightarrow> bool" where
  "tls_checks_ok s \<longleftrightarrow> checks_ok s \<and> m_provider (mi_manager s) = Some prov \<and> pinv (m_pstate (mi_manager s))"

lemma micro_step_checks_ok: "micro_step True pinv s s' \<Longrightarrow> tls_checks_ok s \<Longrightarrow> tls_checks_ok s'"
proof (induction rule: micro_step.induct)
  case (install s rs fb refs m1 ss)
  then have l: "checks_ok (s\<lparr>mi_manager := m1\<rparr>)" "m_provider m1 = Some prov" "pinv (m_pstate m1)"
    using loaded_checks_ok by (auto simp: tls_checks_ok_def)
  moreover have "\<forall>st \<in> set ss. store_ref st = None" using install.hyps(6) by (auto simp: publish_stores_def split: sum.splits)
  ultimately show ?case using checks_ok_same_heap [OF l(1), of m1 ss] by (simp add: tls_checks_ok_def)
next
  case (install_fails s rs refs m1 fb e)
  then show ?case using loaded_checks_ok by (auto simp: tls_checks_ok_def)
next
  case (publish s st ss)
  then have "checks_ok s" "\<forall>x \<in> set (st # ss). store_ref x = None" by (auto simp: tls_checks_ok_def checks_ok_def)
  then have "checks_ok (s\<lparr>mi_manager := do_store st (mi_manager s), mi_install := ss\<rparr>)"
    by (intro checks_ok_same_heap do_store_no_ref) simp_all
  with publish.prems show ?case by (simp add: tls_checks_ok_def)
next
  case (check s g ref ss ps)
  then obtain c st where ss: "pinv ps" "matching c st" "ss = [StoreCertificate ref c, StoreStatus ref st]"
    using check_stores_matching unfolding tls_checks_ok_def by blast
  let ?s = "s\<lparr>mi_manager := (mi_manager s)\<lparr>m_pstate := ps\<rparr>, mi_checks := (mi_checks s)(g := ss)\<rparr>"
  have "checks_ref ?s g' r \<longleftrightarrow> (if g' = g then r = ref else checks_ref s g' r)" for g' r
    using ss(3) by (auto simp: checks_ref_def)
  moreover have "status_ok ?s r" if "status_ok s r" for r
  proof -
    have "being_withdrawn ?s r" if "being_withdrawn s r" using that check.hyps(1) by (force simp: being_withdrawn_def)
    then show ?thesis using that by (auto simp: status_ok_def Let_def)
  qed
  ultimately have "checks_ok ?s"
    using check.prems check.hyps(2,3) ss pending_ok.both [OF ss(2)] by (auto simp: tls_checks_ok_def checks_ok_def)
  with check.prems ss(1) show ?case by (simp add: tls_checks_ok_def)
next
  case (stores s g st ss)
  then show ?case using stores_checks_ok [of s g st ss] by (simp add: tls_checks_ok_def)
next
  case (world ps s)
  then show ?case using checks_ok_same_heap [of s "(mi_manager s)\<lparr>m_pstate := ps\<rparr>" "mi_install s"]
    by (simp add: tls_checks_ok_def checks_ok_def)
qed

lemma micro_reachable_checks_ok: "micro_reachable True pinv (Some prov) s \<Longrightarrow> tls_checks_ok s"
proof (induction rule: micro_reachable.induct)
  case (start ps)
  then show ?case
    by (simp add: tls_checks_ok_def checks_ok_def checks_ref_def status_ok_def NewManager_def new_route_def pending_ok.nothing
        less_eq_CertificateStatus_def)
next
  case (step s s')
  then show ?case using micro_step_checks_ok by blast
qed

text \<open>A domain that is served has a certificate, unless a goroutine has just removed the certificate and is about to store that it is missing.\<close>

lemma micro_served_has_certificate:
  assumes "micro_reachable True pinv (Some prov) s" "RouteForDomain (mi_manager s) d = Some ref"
  shows "(\<exists>c. CertificateForClient (mi_manager s) d = Ok (Some c)) \<or> being_withdrawn s ref"
proof -
  have ok: "tls_checks_ok s" by (rule micro_reachable_checks_ok [OF assms(1)])
  then have "status_ok s ref" by (simp add: tls_checks_ok_def checks_ok_def)
  moreover have "routeFor (mi_manager s) d = Some ref" "\<not> certificateStatus (m_heap (mi_manager s) ref) \<le> CertificateMissing"
    using assms(2) by (auto simp: RouteForDomain_def split: option.splits if_splits)
  ultimately show ?thesis
    using ok by (auto simp: status_ok_def Let_def CertificateForClient_def Certificate_def tls_checks_ok_def)
qed

end

subsection \<open>Schedules\<close>

text \<open>Runs without \<open>excl\<close>, given by the order in which the goroutines act.\<close>

datatype micro_event = Installs "Route list" "nat option" | Publishes | Checks nat route_ref | Stores nat

fun micro_exec :: "micro_event \<Rightarrow> 'p micro \<Rightarrow> 'p micro option" where
  "micro_exec (Installs rs fb) s =
     (let m = mi_manager s; refs = [m_next m..<m_next m + length rs] in
      if mi_install s \<noteq> [] \<or> \<not> list_all route_ok rs \<or> (case fb of None \<Rightarrow> False | Some i \<Rightarrow> length rs \<le> i) then None
      else (case each_route loadCertificate refs (alloc_routes rs m) of
              None \<Rightarrow> None
            | Some m1 \<Rightarrow>
                (case publish_stores refs (map_option (\<lambda>i. m_next m + i) fb) m1 of
                   Inl e \<Rightarrow> None
                 | Inr ss \<Rightarrow> Some (s\<lparr>mi_manager := m1, mi_install := ss\<rparr>))))"
| "micro_exec Publishes s =
     (case mi_install s of
        [] \<Rightarrow> None
      | st # ss \<Rightarrow> Some (s\<lparr>mi_manager := do_store st (mi_manager s), mi_install := ss\<rparr>))"
| "micro_exec (Checks g ref) s =
     (if mi_checks s g \<noteq> [] \<or> \<not> ref < m_next (mi_manager s) then None
      else map_option (\<lambda>(ss, ps). s\<lparr>mi_manager := (mi_manager s)\<lparr>m_pstate := ps\<rparr>, mi_checks := (mi_checks s)(g := ss)\<rparr>)
        (check_stores ref (mi_manager s)))"
| "micro_exec (Stores g) s =
     (case mi_checks s g of
        [] \<Rightarrow> None
      | st # ss \<Rightarrow> Some (s\<lparr>mi_manager := do_store st (mi_manager s), mi_checks := (mi_checks s)(g := ss)\<rparr>))"

fun micro_run :: "micro_event list \<Rightarrow> 'p micro \<Rightarrow> 'p micro option" where
  "micro_run [] s = Some s"
| "micro_run (e # es) s = (case micro_exec e s of None \<Rightarrow> None | Some s' \<Rightarrow> micro_run es s')"

lemma micro_exec_step: "micro_exec e s = Some s' \<Longrightarrow> micro_step False pinv s s'"
proof (cases e)
  case (Installs rs fb)
  assume "micro_exec e s = Some s'"
  with Installs show ?thesis
    by (auto simp: Let_def split: if_splits option.splits sum.splits
        intro!: micro_step.install [where rs = rs and fb = fb])
qed (auto split: if_splits list.splits intro: micro_step.publish micro_step.check micro_step.stores)

lemma micro_run_reachable:
  "micro_run es s = Some s' \<Longrightarrow> micro_reachable False pinv prov s \<Longrightarrow> micro_reachable False pinv prov s'"
proof (induction es arbitrary: s)
  case (Cons e es)
  then obtain s1 where "micro_exec e s = Some s1" "micro_run es s1 = Some s'" by (auto split: option.splits)
  then show ?case using Cons micro_reachable.step micro_exec_step by metis
qed simp

text \<open>A goroutine that the schedule does not mention has nothing to store.\<close>

lemma micro_exec_other:
  "micro_exec e s = Some s' \<Longrightarrow> (\<forall>ref. e \<noteq> Checks g ref) \<Longrightarrow> mi_checks s g = [] \<Longrightarrow> mi_checks s' g = []"
  by (cases e) (auto split: if_splits option.splits sum.splits list.splits simp: Let_def)

lemma micro_run_other:
  "micro_run es s = Some s' \<Longrightarrow> (\<forall>ref. Checks g ref \<notin> set es) \<Longrightarrow> mi_checks s g = [] \<Longrightarrow> mi_checks s' g = []"
proof (induction es arbitrary: s)
  case (Cons e es)
  then obtain s1 where "micro_exec e s = Some s1" "micro_run es s1 = Some s'" by (auto split: option.splits)
  then show ?case using Cons micro_exec_other [of e s s1 g] by auto
qed simp

lemma mgr_reachable_at_rest: "mgr_reachable pinv prov m \<Longrightarrow> micro_reachable excl pinv prov (at_rest m)"
proof (induction rule: mgr_reachable.induct)
  case (start ps)
  then show ?case by (rule micro_reachable.start)
next
  case (step m m')
  then show ?case using mgr_step_run micro_reachable_steps by blast
qed

end
