(* ===== verification/Cert_Manager.thy ===== *)
theory Cert_Manager
  imports Suppliers Json_Store Wildcards Manager_Atomics
begin

text \<open>
  \<^verbatim>\<open>certificate/manager.go\<close> and \<^verbatim>\<open>certificate/provider.go\<close>: the manager that obtains, renews and
  staples certificates with a supplier and keeps them in a store, and the provider the proxy uses.

  Calls take the world and return it; \<^const>\<open>None\<close> is a call that does not return, because it panics or waits for
  a lock for ever. Whether \<^verbatim>\<open>GetCertificate\<close> returns normally or early, the deferred unlock runs.
\<close>

record ('s, 'e) CertManager =
  shouldStaple :: bool
  cm_store :: "('s, 'e) Store"
  suppliers :: "string \<rightharpoonup> ('s, 'e) Supplier"
  supplierPreference :: "string list"

definition NewCertManager ::
  "('s, 'e) Store \<Rightarrow> (string \<rightharpoonup> ('s, 'e) Supplier) \<Rightarrow> string list \<Rightarrow> bool \<Rightarrow> ('s, 'e) CertManager" where
  "NewCertManager st sups prefs staple =
     \<lparr>shouldStaple = staple, cm_store = st, suppliers = sups, supplierPreference = prefs\<rparr>"

fun first_supplier ::
  "(string \<rightharpoonup> ('s, 'e) Supplier) \<Rightarrow> string list \<Rightarrow> (('s, 'e) Supplier \<times> string) option" where
  "first_supplier sups [] = None"
| "first_supplier sups (n # ns) = (case sups n of Some s \<Rightarrow> Some (s, n) | None \<Rightarrow> first_supplier sups ns)"

definition supplier ::
  "('s, 'e) CertManager \<Rightarrow> string \<Rightarrow> (string, ('s, 'e) Supplier \<times> string) result" where
  "supplier m preferred =
     (if preferred \<noteq> [] then
        (case suppliers m preferred of
           None \<Rightarrow> Error (''requested supplier not found: '' @ preferred)
         | Some s \<Rightarrow> Ok (s, preferred))
      else
        (case first_supplier (suppliers m) (supplierPreference m) of
           Some r \<Rightarrow> Ok r
         | None \<Rightarrow> Error (''no suppliers found for preference: ['' @ join '' '' (supplierPreference m) @ '']'')))"

definition updateRenewalInfo ::
  "('s, 'e) CertManager \<Rightarrow> ('s, 'e) Supplier \<Rightarrow> cert_ref \<Rightarrow> bool \<Rightarrow> ('s, 'e) World \<Rightarrow> ('s, 'e) World" where
  "updateRenewalInfo m sp cert do_save w =
     (case UpdateRenewalInfo sp cert w of
        (Some _, w1) \<Rightarrow> w1
      | (None, w1) \<Rightarrow> if do_save then snd (SaveCertificate (cm_store m) cert w1) else w1)"

definition obtain_cert ::
  "'e Pki \<Rightarrow> ('s, 'e) CertManager \<Rightarrow> ('s, 'e) Supplier \<Rightarrow> string \<Rightarrow> string \<Rightarrow> string list \<Rightarrow> ('s, 'e) World \<Rightarrow>
     (TLSCertificate option \<times> string option) \<times> ('s, 'e) World" where
  "obtain_cert P m sp supplierName subject altNames w =
     (case SupplierGetCertificate sp subject altNames (shouldStaple m) w of
        (Inl err, w1) \<Rightarrow> ((None, Some (''failed to obtain certificate for '' @ subject @ '': '' @ err)), w1)
      | (Inr cert, w1) \<Rightarrow>
          (let w2 = set_details (\<lambda>d. d\<lparr>det_Provider := supplierName\<rparr>) cert w1;
               w3 = updateRenewalInfo m sp cert False w2
           in case SaveCertificate (cm_store m) cert w3 of
                (Some err, w4) \<Rightarrow>
                  ((None, Some (''failed to save certificate for '' @ subject @ '': '' @ err)), w4)
              | (None, w4) \<Rightarrow> (cert_keyPair (x509KeyPair P) cert w4, w4)))"

definition staple ::
  "'e Pki \<Rightarrow> ('s, 'e) CertManager \<Rightarrow> ('s, 'e) Supplier \<Rightarrow> cert_ref \<Rightarrow> ('s, 'e) World \<Rightarrow>
     (TLSCertificate option \<times> string option) \<times> ('s, 'e) World" where
  "staple P m sp cert w =
     (case UpdateStaple sp cert w of
        (Some err, w1) \<Rightarrow>
          ((None, Some (''failed to obtain OCSP staple for '' @ det_Subject (w_heap w1 cert) @ '': '' @ err)), w1)
      | (None, w1) \<Rightarrow>
          (case SaveCertificate (cm_store m) cert w1 of
             (Some err, w2) \<Rightarrow>
               ((None, Some (''failed to save certificate for '' @ det_Subject (w_heap w2 cert) @ '': '' @ err)), w2)
           | (None, w2) \<Rightarrow> (cert_keyPair (x509KeyPair P) cert w2, w2)))"

text \<open>\<open>cert.RequiresStaple() && !cert.HasStapleFor(period)\<close>: the clock is read only if a staple is
  required.\<close>

definition needs_staple ::
  "'e Pki \<Rightarrow> duration \<Rightarrow> cert_ref \<Rightarrow> ('s, 'e) World \<Rightarrow> (bool \<times> ('s, 'e) World) option" where
  "needs_staple P period cert w =
     do { (req, w1) \<leftarrow> cert_RequiresStaple (parsePEM P) cert w;
          if req then (let (has, w2) = cert_HasStapleFor period cert w1 in Some (\<not> has, w2))
          else Some (False, w1) }"

text \<open>The part of \<^verbatim>\<open>GetCertificate\<close> between taking the lock and releasing it.\<close>

definition get_locked ::
  "'e Pki \<Rightarrow> ('s, 'e) CertManager \<Rightarrow> ('s, 'e) Supplier \<Rightarrow> string \<Rightarrow> string \<Rightarrow> string list \<Rightarrow> ('s, 'e) World \<Rightarrow>
     ((TLSCertificate option \<times> string option) \<times> ('s, 'e) World) option" where
  "get_locked P m sp supplierName subject altNames w =
     (case StoreGetCertificate (cm_store m) supplierName subject altNames w of
        (None, w1) \<Rightarrow> Some (obtain_cert P m sp supplierName subject altNames w1)
      | (Some cert, w1) \<Rightarrow>
          (let (now, w2) = time_now w1;
               w3 = (if AriNextUpdate (w_heap w2 cert) < now then updateRenewalInfo m sp cert True w2 else w2);
               (renew, w4) = cert_ShouldRenew (MinCertificateValidity sp) cert w3
           in if renew then Some (obtain_cert P m sp supplierName subject altNames w4)
              else do { (unstapled, w5) \<leftarrow> needs_staple P (MinStapleValidity sp) cert w4;
                        if unstapled then Some (staple P m sp cert w5)
                        else Some (cert_keyPair (x509KeyPair P) cert w5, w5) }))"

definition Manager_GetCertificate ::
  "'e Pki \<Rightarrow> ('s, 'e) CertManager \<Rightarrow> string \<Rightarrow> string \<Rightarrow> string list \<Rightarrow> ('s, 'e) World \<Rightarrow>
     ((TLSCertificate option \<times> string option) \<times> ('s, 'e) World) option" where
  "Manager_GetCertificate P m preferredSupplier subject altNames w =
     (case supplier m preferredSupplier of
        Inl err \<Rightarrow> Some ((None, Some err), w)
      | Inr (sp, supplierName) \<Rightarrow>
          do { w1 \<leftarrow> LockCertificate (cm_store m) subject altNames w;
               (res, w2) \<leftarrow> get_locked P m sp supplierName subject altNames w1;
               w3 \<leftarrow> UnlockCertificate (cm_store m) subject altNames w2;
               Some (res, w3) })"

definition Manager_GetExistingCertificate ::
  "'e Pki \<Rightarrow> ('s, 'e) CertManager \<Rightarrow> string \<Rightarrow> string \<Rightarrow> string list \<Rightarrow> ('s, 'e) World \<Rightarrow>
     ((TLSCertificate option \<times> bool \<times> string option) \<times> ('s, 'e) World) option" where
  "Manager_GetExistingCertificate P m preferredSupplier subject altNames w =
     (case supplier m preferredSupplier of
        Inl err \<Rightarrow> Some ((None, False, Some err), w)
      | Inr (sp, supplierName) \<Rightarrow>
          (case StoreGetCertificate (cm_store m) supplierName subject altNames w of
             (None, w1) \<Rightarrow> Some ((None, True, Some ''no stored certificate found''), w1)
           | (Some cert, w1) \<Rightarrow>
               (let (valid, w2) = cert_ValidFor 0 cert w1 in
                do { (expired, w3) \<leftarrow> (if \<not> valid then Some (True, w2) else needs_staple P 0 cert w2);
                     if expired then Some ((None, True, Some ''certificate has expired''), w3)
                     else
                       (let (key, err) = cert_keyPair (x509KeyPair P) cert w3;
                            (renew, w4) = cert_ShouldRenew (MinCertificateValidity sp) cert w3
                        in do { (needRenewal, w5) \<leftarrow>
                                  (if renew then Some (True, w4) else needs_staple P (MinStapleValidity sp) cert w4);
                                Some ((key, needRenewal, err), w5) }) })))"

definition manager_provider :: "'e Pki \<Rightarrow> ('s, 'e) CertManager \<Rightarrow> ('s, 'e) World CertificateProvider" where
  "manager_provider P m =
     \<lparr>GetCertificate = Manager_GetCertificate P m,
      GetExistingCertificate = Manager_GetExistingCertificate P m\<rparr>"

text \<open>\<^verbatim>\<open>NewProvider\<close>. \<open>lego\<close> is the ACME supplier, if one is configured and could be created.\<close>

record ('s, 'e) ProviderConfig =
  pc_Store :: "('s, 'e) Store"
  pc_Lego :: "LegoSupplier option"
  PreferredSuppliers :: "string list"
  WildcardDomains :: "string list"
  UseStaples :: bool

definition provider_suppliers :: "'e Pki \<Rightarrow> LegoSupplier option \<Rightarrow> string \<rightharpoonup> ('s, 'e) Supplier" where
  "provider_suppliers P lego =
     (let sups = [''selfsigned'' \<mapsto> NewSelfSignedSupplier P]
      in case lego of None \<Rightarrow> sups | Some l \<Rightarrow> sups(''lego'' \<mapsto> lego_supplier P l))"

definition provider_manager :: "'e Pki \<Rightarrow> ('s, 'e) ProviderConfig \<Rightarrow> ('s, 'e) CertManager" where
  "provider_manager P config =
     NewCertManager (pc_Store config) (provider_suppliers P (pc_Lego config))
       (PreferredSuppliers config) (UseStaples config)"

definition NewProvider :: "'e Pki \<Rightarrow> ('s, 'e) ProviderConfig \<Rightarrow> ('s, 'e) World WildcardResolver" where
  "NewProvider P config =
     NewWildcardResolver (manager_provider P (provider_manager P config)) (WildcardDomains config)"

subsection \<open>The manager over any store and suppliers that keep their contracts\<close>

lemma cert_keyPair_ok: "cert_keyPair kp ref w = (c, None) \<Longrightarrow> c \<noteq> None"
  by (auto simp: cert_keyPair_def split: sum.splits)

lemma first_supplier_Some: "first_supplier sups ns = Some (sp, n) \<Longrightarrow> sups n = Some sp \<and> n \<in> set ns"
  by (induction ns) (auto split: option.splits)

lemma supplier_Ok: "supplier m p = Inr (sp, n) \<Longrightarrow> suppliers m n = Some sp"
  by (auto simp: supplier_def split: if_splits option.splits dest: first_supplier_Some)

lemma needs_staple_quiet:
  assumes "needs_staple P d ref w = Some (b, w')"
  shows "quiet w w'" "w_env w' = w_env w"
proof -
  obtain req w1 where 1: "cert_RequiresStaple (parsePEM P) ref w = Some (req, w1)"
    and w': "w' = w1 \<or> (\<exists>h. cert_HasStapleFor d ref w1 = (h, w'))"
    using assms by (auto simp: needs_staple_def bind_eq_Some_conv split: if_splits prod.splits)
  have "quiet w w1" "w_env w1 = w_env w"
    using cert_RequiresStaple_frame [OF 1] RequiresStaple_next [OF 1] 1
    by (auto simp: quiet_def cert_RequiresStaple_def split: option.splits)
  moreover have "quiet w1 w'" "w_env w' = w_env w1"
    using w' by (auto simp: quiet_def dest: cert_HasStapleFor_frame reads_simps)
  ultimately show "quiet w w'" "w_env w' = w_env w" by (auto intro: quiet_trans)
qed

lemma needs_staple_returns: "decodes (parsePEM P) (w_heap w ref) \<Longrightarrow> \<exists>b w'. needs_staple P d ref w = Some (b, w')"
  using cert_RequiresStaple_returns [of "parsePEM P" w ref]
  by (auto simp: needs_staple_def split: prod.splits)

locale cert_manager =
  certificate_store "cm_store m" "parsePEM P" sinv locked
  for m :: "('s, 'e) CertManager" and P :: "'e Pki" and sinv locked +
  fixes env_ok :: "'e \<Rightarrow> bool"
  assumes suppliers_ok: "suppliers m n = Some sp \<Longrightarrow> certificate_supplier sp (parsePEM P) env_ok"
begin

definition winv :: "(string \<times> string list) option \<Rightarrow> ('s, 'e) World \<Rightarrow> bool" where
  "winv l w \<longleftrightarrow> sinv w \<and> locked l w \<and> env_ok (w_env w) \<and> heap_decodes (parsePEM P) w"

text \<open>\<open>step l w w'\<close>: from one good world to another, without losing details.\<close>

definition step :: "(string \<times> string list) option \<Rightarrow> ('s, 'e) World \<Rightarrow> ('s, 'e) World \<Rightarrow> bool" where
  "step l w w' \<longleftrightarrow> winv l w \<and> winv l w' \<and> heap_frame w w'"

lemma step_refl: "winv l w \<Longrightarrow> step l w w"
  by (simp add: step_def)

lemma step_trans: "step l w w' \<Longrightarrow> step l w' w'' \<Longrightarrow> step l w w''"
  by (auto simp: step_def intro: heap_frame_trans)

lemma step_winv: "step l w w' \<Longrightarrow> winv l w'"
  by (simp add: step_def)

lemma step_next: "step l w w' \<Longrightarrow> ref < w_next w \<Longrightarrow> ref < w_next w'"
  by (simp add: step_def heap_frame_def)

lemma step_quiet:
  assumes "winv l w" "quiet w w'" "env_ok (w_env w')"
  shows "step l w w'"
  using assms sinv_stable [of w w'] locked_stable [of l w w'] quiet_decodes [of w w' "parsePEM P"]
  by (auto simp: step_def winv_def quiet_def world_frame_def)

lemma lookup_step:
  assumes "winv l w" "StoreGetCertificate (cm_store m) p s as w = (r, w')"
  shows "step l w w'" "r = Some ref \<Longrightarrow> ref < w_next w'"
  using assms lookup_frame [of w p s as r w'] lookup_for [of w p s as ref w'] by (auto simp: step_def winv_def)

lemma save_step:
  "winv l w \<Longrightarrow> ref < w_next w \<Longrightarrow> SaveCertificate (cm_store m) ref w = (err, w') \<Longrightarrow> step l w w'"
  using save_frame [of w ref err w'] by (auto simp: step_def winv_def)

lemma renewal_step:
  assumes "certificate_supplier sp (parsePEM P) env_ok" "winv l w" "ref < w_next w"
  shows "step l w (updateRenewalInfo m sp ref b w)"
proof -
  obtain err w1 where 1: "UpdateRenewalInfo sp ref w = (err, w1)" by fastforce
  have s1: "step l w w1"
    using certificate_supplier.renewal_frame [OF assms(1) _ 1] assms(2)
    by (intro step_quiet) (auto simp: winv_def quiet_def)
  obtain err' w2 where 2: "SaveCertificate (cm_store m) ref w1 = (err', w2)" by fastforce
  have "step l w1 w2" using save_step [OF _ _ 2] s1 step_next [OF s1 assms(3)] by (auto simp: step_def)
  with s1 1 2 show ?thesis
    by (auto simp: updateRenewalInfo_def intro: step_trans split: option.splits)
qed

lemma staple_step:
  assumes "certificate_supplier sp (parsePEM P) env_ok" "winv l w" "ref < w_next w"
    and "staple P m sp ref w = ((c, err), w')"
  shows "step l w w'" "err = None \<Longrightarrow> c \<noteq> None"
proof -
  obtain e1 w1 where 1: "UpdateStaple sp ref w = (e1, w1)" by fastforce
  have s1: "step l w w1"
    using certificate_supplier.staple_frame [OF assms(1) _ 1] assms(2)
    by (intro step_quiet) (auto simp: winv_def quiet_def)
  obtain e2 w2 where 2: "SaveCertificate (cm_store m) ref w1 = (e2, w2)" by fastforce
  have s2: "step l w w2"
    using save_step [OF _ _ 2] s1 step_next [OF s1 assms(3)] step_trans by (auto simp: step_def)
  show "step l w w'" "err = None \<Longrightarrow> c \<noteq> None"
    using assms(4) 1 2 s1 s2 cert_keyPair_ok by (auto simp: staple_def split: option.splits)
qed

lemma obtain_step:
  assumes sp: "certificate_supplier sp (parsePEM P) env_ok" and w: "winv l w"
    and ob: "obtain_cert P m sp n s as w = ((c, err), w')"
  shows "step l w w'" "err = None \<Longrightarrow> c \<noteq> None"
proof -
  obtain r w1 where 1: "SupplierGetCertificate sp s as (shouldStaple m) w = (r, w1)" by fastforce
  have env: "env_ok (w_env w)" using w by (simp add: winv_def)
  have fr1: "world_frame w w1" "env_ok (w_env w1)" "heap_decodes (parsePEM P) w1"
    using certificate_supplier.supply_frame [OF sp env 1] w by (simp_all add: winv_def)
  have s1: "step l w w1"
    using fr1 w sinv_stable [of w w1] locked_stable [of l w w1] by (auto simp: step_def winv_def world_frame_def)
  show "step l w w'" "err = None \<Longrightarrow> c \<noteq> None"
  proof (atomize (full), cases r)
    case (Inl e)
    with 1 ob s1 show "step l w w' \<and> (err = None \<longrightarrow> c \<noteq> None)" by (auto simp: obtain_cert_def)
  next
    case (Inr ref)
    let ?w2 = "set_details (\<lambda>d. d\<lparr>det_Provider := n\<rparr>) ref w1"
    have new: "w_next w \<le> ref" "ref < w_next w1"
      using certificate_supplier.supply_new [OF sp env] 1 Inr by blast+
    have "world_frame w ?w2" using fr1(1) new by (auto simp: world_frame_def heap_frame_def set_details_def)
    moreover have "heap_decodes (parsePEM P) ?w2"
      using fr1(3) by (auto simp: heap_decodes_def set_details_def decodes_def)
    ultimately have s2: "step l w ?w2"
      using fr1 w sinv_stable [of w ?w2] locked_stable [of l w ?w2] by (auto simp: step_def winv_def world_frame_def)
    obtain w3 where w3: "w3 = updateRenewalInfo m sp ref False ?w2" by simp
    have s3: "step l w w3" "ref < w_next w3"
      using renewal_step [OF sp _ , of l ?w2 ref False] s2 new step_trans [OF s2] step_next [of l ?w2 w3 ref]
      by (auto simp: w3 step_def)
    obtain e4 w4 where 4: "SaveCertificate (cm_store m) ref w3 = (e4, w4)" by fastforce
    have "step l w w4" using save_step [OF _ s3(2) 4] s3(1) step_trans by (auto simp: step_def)
    with Inr 1 4 ob show "step l w w' \<and> (err = None \<longrightarrow> c \<noteq> None)"
      using cert_keyPair_ok by (auto simp: obtain_cert_def Let_def w3 split: option.splits)
  qed
qed

lemma needs_staple_step:
  assumes "winv l w" "ref < w_next w"
  obtains b w' where "needs_staple P d ref w = Some (b, w')" "step l w w'"
proof -
  have "decodes (parsePEM P) (w_heap w ref)" using assms by (simp add: winv_def heap_decodes_def)
  then obtain b w' where n: "needs_staple P d ref w = Some (b, w')" using needs_staple_returns by blast
  have "step l w w'" using step_quiet [OF assms(1) needs_staple_quiet(1) [OF n]] needs_staple_quiet(2) [OF n] assms(1)
    by (simp add: winv_def)
  with n that show thesis by blast
qed

lemma read_step:
  "winv l w \<Longrightarrow> time_now w = (t, w') \<Longrightarrow> step l w w'"
  "winv l w \<Longrightarrow> cert_ShouldRenew p ref w = (b, w') \<Longrightarrow> step l w w'"
  "winv l w \<Longrightarrow> cert_ValidFor p ref w = (b, w') \<Longrightarrow> step l w w'"
  by (auto simp: winv_def time_now_def cert_ShouldRenew_def cert_ValidFor_def quiet_def intro!: step_quiet)

text \<open>\<open>v\<close> has come about from \<open>w\<close>, the details at \<open>ref\<close> are still there, and \<open>I\<close> holds, which is kept by everything that does not touch
  the store.\<close>

definition tracks ::
  "(string \<times> string list) option \<Rightarrow> (('s, 'e) World \<Rightarrow> bool) \<Rightarrow> ('s, 'e) World \<Rightarrow> cert_ref \<Rightarrow> ('s, 'e) World \<Rightarrow> bool" where
  "tracks l I w ref v \<longleftrightarrow> step l w v \<and> I v \<and> ref < w_next v \<and> (\<forall>u u'. I u \<longrightarrow> quiet u u' \<longrightarrow> I u')"

lemma tracks_quiet: "tracks l I w ref v \<Longrightarrow> step l v v' \<Longrightarrow> quiet v v' \<Longrightarrow> tracks l I w ref v'"
  unfolding tracks_def using step_trans step_next by blast

lemma tracks_reads:
  assumes "tracks l I w ref v"
  shows "time_now v = (t, v') \<Longrightarrow> tracks l I w ref v'" "cert_ValidFor p r v = (b, v') \<Longrightarrow> tracks l I w ref v'"
    "cert_ShouldRenew p r v = (b, v') \<Longrightarrow> tracks l I w ref v'"
  using tracks_quiet [OF assms, of v'] read_step [of l v] assms
  by (auto simp: tracks_def quiet_def time_now_def cert_ValidFor_def cert_ShouldRenew_def dest: step_winv)

lemma tracks_staple:
  assumes "tracks l I w ref v"
  obtains b v' where "(if c then Some (True, v) else needs_staple P d ref v) = Some (b, v')" "tracks l I w ref v'"
proof (cases c)
  case False
  obtain b v' where n: "needs_staple P d ref v = Some (b, v')" "step l v v'"
    using needs_staple_step [of l v ref] assms step_winv unfolding tracks_def by metis
  with False that tracks_quiet [OF assms n(2) needs_staple_quiet(1) [OF n(1)]] show thesis by simp
qed (use assms that in simp)

lemma tracks_names: "tracks l I w ref v \<Longrightarrow> ref < w_next w \<Longrightarrow> IsFor s as (w_heap w ref) \<Longrightarrow> IsFor s as (w_heap v ref)"
  by (auto simp: tracks_def step_def heap_frame_def IsFor_same)

text \<open>How \<^verbatim>\<open>GetCertificate\<close> comes to its result, with a property \<open>I\<close> of worlds that lookups, updates of renewal information and
  everything that does not touch the store keep.\<close>

lemma get_locked_cases:
  assumes sp: "certificate_supplier sp (parsePEM P) env_ok" and w: "winv l w"
    and I_lookup: "\<And>r v. StoreGetCertificate (cm_store m) n s as w = (r, v) \<Longrightarrow> I v"
    and I_quiet: "\<And>v v'. I v \<Longrightarrow> quiet v v' \<Longrightarrow> I v'"
    and I_renewal: "\<And>v ref. I v \<Longrightarrow> winv l v \<Longrightarrow> ref < w_next v \<Longrightarrow> I (updateRenewalInfo m sp ref True v)"
  obtains (obtained) v where "step l w v" "I v" "get_locked P m sp n s as w = Some (obtain_cert P m sp n s as v)"
  | (stapled) v ref where "step l w v" "I v" "ref < w_next v" "IsFor s as (w_heap v ref)"
      "get_locked P m sp n s as w = Some (staple P m sp ref v)"
  | (found) v ref where "step l w v" "I v" "ref < w_next v" "IsFor s as (w_heap v ref)"
      "get_locked P m sp n s as w = Some (cert_keyPair (x509KeyPair P) ref v, v)"
proof -
  obtain r w1 where 1: "StoreGetCertificate (cm_store m) n s as w = (r, w1)" by fastforce
  have s1: "step l w w1" "I w1" using lookup_step(1) [OF w 1] I_lookup [OF 1] by simp_all
  show thesis
  proof (cases r)
    case None
    with 1 s1 show thesis by (intro obtained) (auto simp: get_locked_def)
  next
    case (Some ref)
    have i1: "ref < w_next w1" "IsFor s as (w_heap w1 ref)" using lookup_for [of w n s as ref w1] w 1 Some by (simp_all add: winv_def)
    have t1: "tracks l I w1 ref w1" using s1 i1 I_quiet step_refl step_winv by (auto simp: tracks_def)
    obtain now w2 where 2: "time_now w1 = (now, w2)" by fastforce
    note t2 = tracks_reads(1) [OF t1 2]
    define w3 where "w3 = (if AriNextUpdate (w_heap w2 ref) < now then updateRenewalInfo m sp ref True w2 else w2)"
    have s2: "step l w1 w2" "I w2" "winv l w2" "ref < w_next w2" using t2 step_winv by (auto simp: tracks_def)
    note r2 = renewal_step [OF sp s2(3,4), of True]
    have "tracks l I w1 ref (updateRenewalInfo m sp ref True w2)"
      using t2 step_trans [OF s2(1) r2] step_next [OF r2 s2(4)] I_renewal [OF s2(2-4)] by (simp add: tracks_def)
    then have t3: "tracks l I w1 ref w3" using t2 by (simp add: w3_def)
    obtain renew w4 where 4: "cert_ShouldRenew (MinCertificateValidity sp) ref w3 = (renew, w4)" by fastforce
    note t4 = tracks_reads(3) [OF t3 4]
    obtain b w5 where 5: "(if False then Some (True, w4) else needs_staple P (MinStapleValidity sp) ref w4) = Some (b, w5)"
      and t5: "tracks l I w1 ref w5" by (rule tracks_staple [OF t4])
    have s4: "step l w w4" "I w4" and s5: "step l w w5" "I w5" "ref < w_next w5" "IsFor s as (w_heap w5 ref)"
      using t4 t5 step_trans [OF s1(1)] tracks_names [OF t5 i1] by (simp_all add: tracks_def)
    show thesis
      using Some 1 2 4 5 obtained [OF s4] stapled [OF s5] found [OF s5]
      by (cases renew; cases b) (auto simp: get_locked_def Let_def w3_def [symmetric])
  qed
qed

lemma get_locked_step:
  assumes sp: "certificate_supplier sp (parsePEM P) env_ok" and w: "winv l w"
  shows "\<exists>c err w'. get_locked P m sp n s as w = Some ((c, err), w') \<and> step l w w' \<and> (err = None \<longrightarrow> c \<noteq> None)"
proof (rule get_locked_cases [OF sp w, of n s as "\<lambda>_. True"])
  fix v
  assume v: "step l w v" "get_locked P m sp n s as w = Some (obtain_cert P m sp n s as v)"
  obtain c err w' where ob: "obtain_cert P m sp n s as v = ((c, err), w')" by (metis prod.exhaust)
  with v obtain_step [OF sp step_winv [OF v(1)] ob] step_trans [OF v(1)] show ?thesis by auto
next
  fix v ref
  assume v: "step l w v" "ref < w_next v" "get_locked P m sp n s as w = Some (staple P m sp ref v)"
  obtain c err w' where st: "staple P m sp ref v = ((c, err), w')" by (metis prod.exhaust)
  with v staple_step [OF sp step_winv [OF v(1)] v(2) st] step_trans [OF v(1)] show ?thesis by auto
next
  fix v ref
  assume "step l w v" "get_locked P m sp n s as w = Some (cert_keyPair (x509KeyPair P) ref v, v)"
  then show ?thesis by (cases "cert_keyPair (x509KeyPair P) ref v") (auto dest: cert_keyPair_ok)
qed simp_all

text \<open>\<^verbatim>\<open>GetCertificate\<close> returns, whatever happens in between the lock is released at the end, and
  what is returned is a certificate or an error.\<close>

lemma GetCertificate_step:
  assumes "winv None w"
  shows "\<exists>c err w'. Manager_GetCertificate P m p s as w = Some ((c, err), w') \<and> step None w w' \<and>
    (err = None \<longrightarrow> c \<noteq> None)"
proof (cases "supplier m p")
  case (Inl e)
  with assms show ?thesis by (simp add: Manager_GetCertificate_def step_refl)
next
  case (Inr r)
  obtain sp n where r: "r = (sp, n)" by fastforce
  have sp: "certificate_supplier sp (parsePEM P) env_ok"
    using supplier_Ok Inr r suppliers_ok by blast
  obtain w1 where 1: "LockCertificate (cm_store m) s as w = Some w1"
    using lock_returns assms unfolding winv_def by blast
  have w1: "winv (Some (s, as)) w1" "heap_frame w w1"
    using lock_frame [OF _ _ 1] assms heap_decodes_frame [of w w1] by (auto simp: winv_def)
  obtain c err w2 where 2: "get_locked P m sp n s as w1 = Some ((c, err), w2)"
    "step (Some (s, as)) w1 w2" "err = None \<longrightarrow> c \<noteq> None"
    using get_locked_step [OF sp w1(1)] by blast
  have w2: "winv (Some (s, as)) w2" "heap_frame w1 w2" using 2(2) by (simp_all add: step_def)
  obtain w3 where 3: "UnlockCertificate (cm_store m) s as w2 = Some w3"
    using unlock_returns w2(1) unfolding winv_def by blast
  have w3: "winv None w3" "heap_frame w2 w3"
    using unlock_frame [OF _ _ 3] w2(1) heap_decodes_frame [of w2 w3] by (auto simp: winv_def)
  have "step None w w3"
    using assms w1(2) w2(2) w3 heap_frame_trans unfolding step_def by metis
  with Inr r 1 2 3 show ?thesis by (auto simp: Manager_GetCertificate_def)
qed

text \<open>\<^verbatim>\<open>GetExistingCertificate\<close> takes no lock.\<close>

lemma existing_cases:
  assumes w: "winv l w" "I w"
    and I_lookup: "\<And>n r v. StoreGetCertificate (cm_store m) n s as w = (r, v) \<Longrightarrow> I v"
    and I_quiet: "\<And>v v'. I v \<Longrightarrow> quiet v v' \<Longrightarrow> I v'"
  obtains (failed) b e v where "Manager_GetExistingCertificate P m p s as w = Some ((None, b, Some e), v)" "step l w v" "I v"
  | (found) ref v c b err v' where "Manager_GetExistingCertificate P m p s as w = Some ((c, b, err), v')" "step l w v'" "I v'"
      "cert_keyPair (x509KeyPair P) ref v = (c, err)" "I v" "ref < w_next v" "IsFor s as (w_heap v ref)"
proof (cases "supplier m p")
  case (Inl e)
  with w show thesis by (intro failed) (auto simp: Manager_GetExistingCertificate_def step_refl)
next
  case (Inr r)
  obtain sp n where r: "r = (sp, n)" by fastforce
  obtain f w1 where 1: "StoreGetCertificate (cm_store m) n s as w = (f, w1)" by fastforce
  have s1: "step l w w1" "I w1" using lookup_step(1) [OF w(1) 1] I_lookup [OF 1] by simp_all
  show thesis
  proof (cases f)
    case None
    with Inr r 1 s1 show thesis by (intro failed) (auto simp: Manager_GetExistingCertificate_def)
  next
    case (Some ref)
    have i1: "ref < w_next w1" "IsFor s as (w_heap w1 ref)" using lookup_for [of w n s as ref w1] w 1 Some by (simp_all add: winv_def)
    have t1: "tracks l I w1 ref w1" using s1 i1 I_quiet step_refl step_winv by (auto simp: tracks_def)
    obtain valid w2 where 2: "cert_ValidFor 0 ref w1 = (valid, w2)" by fastforce
    obtain expired w3 where 3: "(if \<not> valid then Some (True, w2) else needs_staple P 0 ref w2) = Some (expired, w3)"
      and t3: "tracks l I w1 ref w3" by (rule tracks_staple [OF tracks_reads(2) [OF t1 2]])
    obtain renew w4 where 4: "cert_ShouldRenew (MinCertificateValidity sp) ref w3 = (renew, w4)" by fastforce
    obtain b w5 where 5: "(if renew then Some (True, w4) else needs_staple P (MinStapleValidity sp) ref w4) = Some (b, w5)"
      and t5: "tracks l I w1 ref w5" by (rule tracks_staple [OF tracks_reads(3) [OF t3 4]])
    have s3: "step l w w3" "I w3" "ref < w_next w3" "IsFor s as (w_heap w3 ref)" and s5: "step l w w5" "I w5"
      using t3 t5 step_trans [OF s1(1)] tracks_names [OF t3 i1] by (simp_all add: tracks_def)
    obtain c err where kp: "cert_keyPair (x509KeyPair P) ref w3 = (c, err)" by fastforce
    show thesis
    proof (cases expired)
      case True
      with Inr r Some 1 2 3 s3 show thesis by (intro failed) (auto simp: Manager_GetExistingCertificate_def)
    next
      case False
      have "Manager_GetExistingCertificate P m p s as w = Some ((c, b, err), w5)"
        using False Inr r Some 1 2 3 4 5 kp by (simp add: Manager_GetExistingCertificate_def)
      then show thesis using s5 kp s3(2-4) by (rule found)
    qed
  qed
qed

lemma GetExistingCertificate_step:
  assumes "winv l w"
  shows "\<exists>c b err w'. Manager_GetExistingCertificate P m p s as w = Some ((c, b, err), w') \<and> step l w w' \<and>
    (err = None \<longrightarrow> c \<noteq> None)"
  by (rule existing_cases [OF assms, of "\<lambda>_. True" s as p]) (auto dest: cert_keyPair_ok)

lemma manager_provider_ok: "certificate_provider (manager_provider P m) (winv None)"
proof
  fix p :: "('s, 'e) World" and s n as c err p' b
  assume p: "winv None p"
  note G = GetCertificate_step [OF p, of s n as] and E = GetExistingCertificate_step [OF p, of s n as]
  show "\<exists>c err p'. GetCertificate (manager_provider P m) s n as p = Some ((c, err), p')"
    using G by (auto simp: manager_provider_def)
  show "\<exists>c b err p'. GetExistingCertificate (manager_provider P m) s n as p = Some ((c, b, err), p')"
    using E by (auto simp: manager_provider_def)
  show "GetCertificate (manager_provider P m) s n as p = Some ((c, err), p') \<Longrightarrow> winv None p'"
    "GetCertificate (manager_provider P m) s n as p = Some ((c, None), p') \<Longrightarrow> c \<noteq> None"
    using G by (auto simp: manager_provider_def step_def)
  show "GetExistingCertificate (manager_provider P m) s n as p = Some ((c, b, err), p') \<Longrightarrow> winv None p'"
    "GetExistingCertificate (manager_provider P m) s n as p = Some ((c, b, None), p') \<Longrightarrow> c \<noteq> None"
    using E by (auto simp: manager_provider_def step_def)
qed

end

subsection \<open>The program's provider\<close>

lemma provider_suppliers_ok:
  "provider_suppliers P lego n = Some sp \<Longrightarrow> certificate_supplier sp (parsePEM P) (\<lambda>_. pki_ok P)"
  by (auto simp: provider_suppliers_def Let_def self_signed.certificate_supplier_axioms lego.certificate_supplier_axioms
      split: option.splits if_splits)

abbreviation json_config :: "(JsonStore, 'e) ProviderConfig \<Rightarrow> (JsonStore, 'e) ProviderConfig" where
  "json_config config \<equiv> config\<lparr>pc_Store := json_store\<rparr>"

interpretation json_mgr: cert_manager "provider_manager P (json_config config)" P json_inv json_locked "\<lambda>_. pki_ok P"
  for P config
proof (rule cert_manager.intro)
  show "certificate_store (cm_store (provider_manager P (json_config config))) (parsePEM P) json_inv json_locked"
    using json.certificate_store_axioms by (simp add: provider_manager_def NewCertManager_def)
  show "cert_manager_axioms (provider_manager P (json_config config)) P (\<lambda>_. pki_ok P)"
    by (rule cert_manager_axioms.intro) (simp add: provider_manager_def NewCertManager_def provider_suppliers_ok)
qed

text \<open>The state in which the program's provider works: the invariant of the JSON store, no lock
  held between calls, certificates that can be decoded.\<close>

definition provider_inv :: "'e Pki \<Rightarrow> 'e json_world \<Rightarrow> bool" where
  "provider_inv P w \<longleftrightarrow> json_inv w \<and> json_locked None w \<and> pki_ok P \<and> heap_decodes (parsePEM P) w"

definition json_provider :: "'e Pki \<Rightarrow> (JsonStore, 'e) ProviderConfig \<Rightarrow> 'e json_world CertificateProvider" where
  "json_provider P config = wildcard_provider (NewProvider P (json_config config))"

interpretation json_prov: certificate_provider "json_provider P config" "provider_inv P" for P config
proof -
  have "json_mgr.winv P None = provider_inv P"
    by (simp add: fun_eq_iff json_mgr.winv_def provider_inv_def)
  then have "certificate_provider (manager_provider P (provider_manager P (json_config config))) (provider_inv P)"
    using json_mgr.manager_provider_ok by metis
  from certificate_provider.wildcard_provider_ok [OF this]
  show "certificate_provider (json_provider P config) (provider_inv P)"
    by (simp add: json_provider_def NewProvider_def)
qed

subsection \<open>Facts about single calls\<close>

lemma needs_staple_False:
  assumes "needs_staple P d ref w = Some (False, w')"
  shows "\<exists>b r. RequiresStaple (parsePEM P) (w_heap w ref) = Some (b, r) \<and>
    (b \<longrightarrow> w_clock w (w_tick w) + d < NextOcspUpdate (w_heap w ref)) \<and>
    w_heap w' ref = r"
proof -
  obtain b r where r: "RequiresStaple (parsePEM P) (w_heap w ref) = Some (b, r)"
    using assms by (auto simp: needs_staple_def cert_RequiresStaple_def bind_eq_Some_conv split: option.splits)
  moreover have "NextOcspUpdate r = NextOcspUpdate (w_heap w ref)"
    using RequiresStaple_frame [OF r] by (metis Details.ext_inject Details.surjective Details.update_convs(10))
  ultimately show ?thesis
    using assms
    by (auto simp: needs_staple_def cert_RequiresStaple_def cert_HasStapleFor_def time_now_def HasStapleFor_def
        bind_eq_Some_conv Let_def split: if_splits)
qed

text \<open>What obtaining a certificate saves.\<close>

lemma obtain_cert_saves:
  assumes "json_inv w" "pki_ok P" "suppliers (provider_manager P (json_config config)) name = Some sp"
    and "obtain_cert P (provider_manager P (json_config config)) sp name s as w = ((Some c, None), w')"
  obtains ref w3 where "json_inv w3" "ref < w_next w3" "JsonStore_SaveCertificate ref w3 = (None, w')"
    and "keyPair (x509KeyPair P) (w_heap w' ref) = Ok c" "det_Provider (w_heap w3 ref) = name"
    and "IsFor s as (w_heap w3 ref)" "w_clock w3 = w_clock w"
proof -
  let ?m = "provider_manager P (json_config config)"
  have sp: "certificate_supplier sp (parsePEM P) (\<lambda>_. pki_ok P)" using json_mgr.suppliers_ok assms(3) by blast
  obtain ref w1 where 1: "SupplierGetCertificate sp s as (shouldStaple ?m) w = (Ok ref, w1)"
    using assms(4) by (auto simp: obtain_cert_def split: prod.splits sum.splits)
  let ?w2 = "set_details (\<lambda>d. d\<lparr>det_Provider := name\<rparr>) ref w1"
  define w3 where "w3 = updateRenewalInfo ?m sp ref False ?w2"
  have "SaveCertificate (cm_store ?m) = JsonStore_SaveCertificate"
    by (simp add: provider_manager_def NewCertManager_def json_store_def)
  then have 3: "JsonStore_SaveCertificate ref w3 = (None, w')" "cert_keyPair (x509KeyPair P) ref w' = (Some c, None)"
    using assms(4) 1 by (auto simp: obtain_cert_def w3_def Let_def split: option.splits prod.splits)
  have new: "w_next w \<le> ref" "ref < w_next w1" "det_Subject (w_heap w1 ref) = s" "AltNames (w_heap w1 ref) = as"
    using certificate_supplier.supply_new [OF sp assms(2) 1] by blast+
  have fr: "world_frame w w1" using certificate_supplier.supply_frame [OF sp assms(2) 1] by blast
  obtain err where upd: "UpdateRenewalInfo sp ref ?w2 = (err, w3)"
    by (cases "UpdateRenewalInfo sp ref ?w2") (auto simp: w3_def updateRenewalInfo_def split: option.splits)
  note ren = certificate_supplier.renewal_frame [OF sp assms(2) upd]
  have "world_frame w ?w2" using fr new by (auto simp: world_frame_def heap_frame_def set_details_def)
  then have "world_frame w w3" using ren world_frame_trans by blast
  then have "json_inv w3" "w_clock w3 = w_clock w"
    using json_sinv_stable [OF assms(1)] by (auto simp: world_frame_def heap_frame_def)
  moreover have "ref < w_next w3" "same_cert (w_heap ?w2 ref) (w_heap w3 ref)"
    using ren new by (auto simp: world_frame_def heap_frame_def)
  moreover from this have "det_Provider (w_heap w3 ref) = name" "IsFor s as (w_heap w3 ref)"
    using new by (simp_all add: same_cert_def IsFor_iff)
  moreover have "keyPair (x509KeyPair P) (w_heap w' ref) = Ok c"
    using 3(2) by (auto simp: cert_keyPair_def split: sum.splits)
  ultimately show thesis using that 3(1) by blast
qed

end
