(* ===== verification/Examples.thy ===== *)
theory Examples
  imports Route_Printer Rewriter Cert_Manager
begin

text \<open>
  Concrete configurations, requests, stores and managers on which the properties are evaluated.
\<close>

text \<open>A configuration that the examples below share.\<close>

definition demo_route :: Route where
  "demo_route = (new_route [''example.com'', ''www.example.com''])
     \<lparr>Upstreams := [\<lparr>Host = ''web:8080''\<rparr>], RedirectToPrimary := True,
      Headers := [\<lparr>Name = ''X-Via'', Value = ''centauri'', Operation = HeaderOpAdd\<rparr>],
      ErrorMappings := [\<lparr>Status = 502, em_Upstream = ''errors:80'', em_Path = ''/oops'', em_RawQuery = []\<rparr>]\<rparr>"

definition demo_fallback :: Route where
  "demo_fallback = (new_route [''other.example.net''])\<lparr>Upstreams := [\<lparr>Host = ''web:8081''\<rparr>]\<rparr>"

definition demo_text :: string where
  "demo_text = unlines (print_config [demo_route, demo_fallback] (Some 1))"

lemmas demo_defs = demo_route_def demo_fallback_def new_route_def

lemma demo_route_ok: "list_all route_ok [demo_route, demo_fallback]"
  by (simp add: demo_defs route_ok_def building_ok_def mapping_ok_def)

lemma demo_printable: "printable_config [demo_route, demo_fallback] (Some 1)"
  by (simp add: demo_defs printable_config_def printable_route_def route_ok_def building_ok_def mapping_ok_def
      printable_mapping_def word_def phrase_def header_ok_def graphic_def print_config_def print_route_def
      print_edits_def scan_line_ok_def print_header_def print_mapping_def print_status_def max_token_def
      plain_path_def printable_def has_ctl_byte_def has_prefix_def)

lemma demo_Parse: "Parse auth_ok \<lparr>content = demo_text, read_error = None\<rparr> = Ok ([demo_route, demo_fallback], Some 1)"
  unfolding demo_text_def by (rule Parse_print_config [OF demo_printable])

definition demo_manager :: "unit Manager" where
  "demo_manager = alloc_routes [demo_route, demo_fallback] (NewManager None ())"

definition demo_installed :: "unit Manager" where
  "demo_installed = snd (the (SetRoutes [0, 1] (Some 1) demo_manager))"

lemma demo_SetRoutes: "SetRoutes [0, 1] (Some 1) demo_manager = Some (None, demo_installed)"
proof -
  have "SetRoutes [0, 1] (Some 1) demo_manager \<noteq> None" "fst (the (SetRoutes [0, 1] (Some 1) demo_manager)) = None"
    by code_simp+
  then show ?thesis unfolding demo_installed_def by (metis option.collapse prod.collapse)
qed

definition bad_manager :: "unit Manager" where
  "bad_manager = alloc_routes [new_route [''not a domain'']] demo_installed"

text \<open>An outside world for examples: a certificate is a text that holds its names, every key pair is accepted and every certificate is a PEM
  block without extensions; the certificate store holds a certificate for the example route.\<close>

definition encode_names :: "string list \<Rightarrow> string" where
  "encode_names names = concat (map (\<lambda>name. concat (map (\<lambda>c. [CHR ''='', c]) name) @ '';'') names)"

fun decode_names :: "string \<Rightarrow> string \<Rightarrow> string list" where
  "decode_names name [] = []"
| "decode_names name [a] = [name]"
| "decode_names name (a # b # cs) = (if a = CHR ''='' then decode_names (name @ [b]) cs else name # decode_names [] (b # cs))"

lemma decode_name:
  "decode_names p (concat (map (\<lambda>c. [CHR ''='', c]) name) @ CHR '';'' # rest) = (p @ name) # decode_names [] rest"
  by (induction name arbitrary: p) (simp_all, cases rest, simp_all)

lemma decode_encode: "decode_names [] (encode_names names) = names"
  by (induction names) (simp_all add: encode_names_def decode_name)

definition demo_pki :: "unit Pki" where
  "demo_pki =
     \<lparr>x509KeyPair = (\<lambda>_ _. None), parsePEM = (\<lambda>_. CertExtensions []), GenerateKey = (\<lambda>e. (Ok ''key'', e)),
      CreateCertificate = (\<lambda>tpl _ e. (Ok (encode_names (DNSNames tpl)), e)), PemEncodeKey = (\<lambda>k. k), PemEncodeCertificate = (\<lambda>c. c),
      ParsePEMCertificate = (\<lambda>_. Ok 100), LimiterWait = (\<lambda>e. (None, e)), Obtain = (\<lambda>_ e. (Error ''offline'', e)),
      GetOCSP = (\<lambda>_ e. (Error ''offline'', e)), GetRenewalInfo = (\<lambda>_ e. (Error ErrNoARI, e)),
      Int64N = (\<lambda>n e. (n div 2, e))\<rparr>"

definition demo_cert :: Details where
  "demo_cert = empty_details\<lparr>det_Provider := ''selfsigned'', det_Certificate := encode_names [''example.com'', ''www.example.com''],
     PrivateKey := ''key'', det_Subject := ''example.com'', AltNames := [''www.example.com''], NotAfter := 100\<rparr>"

definition demo_world :: "unit json_world" where
  "demo_world = \<lparr>w_clock = (\<lambda>_. 5), w_tick = 0, w_heap = (\<lambda>_. demo_cert), w_next = 1,
     w_store = \<lparr>js_certificates = [0], js_locks = Map.empty, js_file = NoFile, js_writes = (\<lambda>_. Written), js_saves = 0\<rparr>,
     w_env = ()\<rparr>"

definition demo_config :: "(JsonStore, unit) ProviderConfig" where
  "demo_config = \<lparr>pc_Store = json_store, pc_Lego = None, PreferredSuppliers = [''lego'', ''selfsigned''],
     WildcardDomains = [], UseStaples = False\<rparr>"

lemma demo_pki_ok: "pki_ok demo_pki"
  by (simp add: pki_ok_def demo_pki_def)

lemma demo_provider_inv: "provider_inv demo_pki demo_world"
  by (simp add: provider_inv_def demo_pki_ok json_inv_def json_locked_def heap_decodes_def decodes_def demo_world_def)
    (simp add: demo_pki_def)

definition demo_tls :: "unit json_world Manager" where
  "demo_tls = snd (the (install_routes [demo_route, demo_fallback] (Some 1)
     (NewManager (Some (json_provider demo_pki demo_config)) demo_world)))"

lemma demo_tls_reachable: "mgr_reachable (provider_inv demo_pki) (Some (json_provider demo_pki demo_config)) demo_tls"
proof -
  let ?m = "NewManager (Some (json_provider demo_pki demo_config)) demo_world"
  have start: "mgr_reachable (provider_inv demo_pki) (Some (json_provider demo_pki demo_config)) ?m"
    by (intro mgr_reachable.start demo_provider_inv)
  obtain res where res: "install_routes [demo_route, demo_fallback] (Some 1) ?m = Some res"
    using json_prov.install_returns [OF start demo_route_ok] by blast
  then have "install_routes [demo_route, demo_fallback] (Some 1) ?m = Some (fst res, demo_tls)"
    by (simp add: demo_tls_def)
  then have "mgr_step (provider_inv demo_pki) ?m demo_tls"
    using demo_route_ok by (intro mgr_step.install) auto
  with start show ?thesis by (rule mgr_reachable.step)
qed

text \<open>A route whose primary domain is written with a capital letter.\<close>

definition capital_manager :: "unit Manager" where
  "capital_manager = snd (the (install_routes
     [(new_route [''Example.com'', ''www.example.com''])\<lparr>Upstreams := [\<lparr>Host = ''web:1''\<rparr>], RedirectToPrimary := True\<rparr>]
     None (NewManager None ())))"

definition demo_request :: Request where
  "demo_request = \<lparr>req_Method = ''GET'', req_URL = Some (empty_url\<lparr>url_Path := ''/a'', url_RawQuery := ''b=c''\<rparr>),
     req_Host = ''www.example.com:8080'', req_Header = Map.empty, req_RemoteAddr = ''192.0.2.7:4711'', req_TLS = False\<rparr>"

definition demo_rewriter :: RewriterState where
  "demo_rewriter = NewRewriter (\<lambda>s. Some s) (=) [''198.51.100.1''] (\<lambda>_ _. None)"

definition demo_lookup :: lookup where
  "demo_lookup d = (if d = ''www.example.com'' then Some demo_route else None)"

definition forged_request :: Request where
  "forged_request = demo_request\<lparr>req_Header :=
     [''X-Forwarded-For'' \<mapsto> [''1.2.3.4''], ''X-Real-Ip'' \<mapsto> [''1.2.3.4''], ''Tailscale-User-Login'' \<mapsto> [''root'']]\<rparr>"

definition demo_rewritten :: Request where
  "demo_rewritten = the (RewriteRequest demo_lookup (\<lambda>_. 0) demo_rewriter forged_request forged_request)"

lemma demo_rewrite:
  "demo_lookup (hostForRequest forged_request) = Some demo_route" "Upstreams demo_route \<noteq> []"
  "RewriteRequest demo_lookup (\<lambda>_. 0) (NewRewriter (\<lambda>s. Some s) (=) [''198.51.100.1''] (\<lambda>_ _. None))
     forged_request forged_request = Some demo_rewritten"
proof -
  show "demo_lookup (hostForRequest forged_request) = Some demo_route" "Upstreams demo_route \<noteq> []" by code_simp+
  have "RewriteRequest demo_lookup (\<lambda>_. 0) demo_rewriter forged_request forged_request \<noteq> None" by code_simp
  then show "RewriteRequest demo_lookup (\<lambda>_. 0) (NewRewriter (\<lambda>s. Some s) (=) [''198.51.100.1''] (\<lambda>_ _. None))
     forged_request forged_request = Some demo_rewritten"
    unfolding demo_rewritten_def demo_rewriter_def by simp
qed

definition demo_response :: Response where
  "demo_response = \<lparr>resp_Status = ''502 Bad Gateway'', resp_StatusCode = 502, resp_Header = Map.empty,
     resp_Body = Some ''oh no'', resp_Request = Some demo_request\<rparr>"

definition error_rewriter :: RewriterState where
  "error_rewriter = demo_rewriter\<lparr>errorClient := Some (\<lambda>req. Some
     \<lparr>resp_Status = ''200 OK'', resp_StatusCode = 200, resp_Header = [''Connection'' \<mapsto> [''close''], ''Etag'' \<mapsto> [''1'']],
      resp_Body = Some (''from '' @ req_Host req), resp_Request = Some req\<rparr>)\<rparr>"

definition demo_error_page :: Response where
  "demo_error_page = the (RewriteResponse demo_lookup demo_lookup Some error_rewriter demo_response)"

lemma demo_error: "RewriteResponse demo_lookup demo_lookup Some error_rewriter demo_response = Some demo_error_page"
proof -
  have "RewriteResponse demo_lookup demo_lookup Some error_rewriter demo_response \<noteq> None" by code_simp
  then show ?thesis unfolding demo_error_page_def by simp
qed

lemma demo_json_inv: "json_inv demo_world"
  using demo_provider_inv by (simp add: provider_inv_def)

definition renewed_world :: "unit json_world" where
  "renewed_world = demo_world\<lparr>w_heap := (w_heap demo_world)(1 := demo_cert\<lparr>NotAfter := 200\<rparr>), w_next := 2\<rparr>"

definition saved_world :: "unit json_world" where
  "saved_world = snd (JsonStore_SaveCertificate 1 renewed_world)"

lemma renewed_world_facts:
  "json_inv renewed_world" "(1::nat) < w_next renewed_world"
  "JsonStore_SaveCertificate 1 renewed_world = (None, saved_world)"
proof -
  show "json_inv renewed_world" "(1::nat) < w_next renewed_world"
    by (simp_all add: json_inv_def renewed_world_def demo_world_def)
  have "fst (JsonStore_SaveCertificate 1 renewed_world) = None" by code_simp
  then show "JsonStore_SaveCertificate 1 renewed_world = (None, saved_world)"
    unfolding saved_world_def by (metis prod.collapse)
qed

definition ari_pki :: "unit Pki" where
  "ari_pki = demo_pki\<lparr>GetRenewalInfo := (\<lambda>_ e. (Ok \<lparr>win_Start = 10 * second, win_End = 30 * second,
     RetryAfter = hour, ExplanationURL = []\<rparr>, e))\<rparr>"

subsection \<open>Two checks of one route at a time\<close>

text \<open>The certificates of the route are issued by the program itself; making a key fails the first time. Goroutine 0 fails to get a
  certificate, goroutine 1 gets one, and the stores of goroutine 0 come between those of goroutine 1.\<close>

definition race_pki :: "nat Pki" where
  "race_pki =
     \<lparr>x509KeyPair = (\<lambda>_ _. None), parsePEM = (\<lambda>_. CertExtensions []),
      GenerateKey = (\<lambda>e. (if e = 0 then Error ''no entropy'' else Ok ''key'', Suc e)),
      CreateCertificate = (\<lambda>_ _ e. (Ok ''der'', e)), PemEncodeKey = (\<lambda>k. k), PemEncodeCertificate = (\<lambda>c. c),
      ParsePEMCertificate = (\<lambda>_. Ok 100), LimiterWait = (\<lambda>e. (None, e)), Obtain = (\<lambda>_ e. (Error ''offline'', e)),
      GetOCSP = (\<lambda>_ e. (Error ''offline'', e)), GetRenewalInfo = (\<lambda>_ e. (Error ErrNoARI, e)),
      Int64N = (\<lambda>n e. (n div 2, e))\<rparr>"

definition race_world :: "nat json_world" where
  "race_world = \<lparr>w_clock = (\<lambda>_. 5), w_tick = 0, w_heap = (\<lambda>_. demo_cert), w_next = 0,
     w_store = \<lparr>js_certificates = [], js_locks = Map.empty, js_file = NoFile, js_writes = (\<lambda>_. Written), js_saves = 0\<rparr>,
     w_env = 0\<rparr>"

definition race_config :: "(JsonStore, nat) ProviderConfig" where
  "race_config = \<lparr>pc_Store = json_store, pc_Lego = None, PreferredSuppliers = [''selfsigned''],
     WildcardDomains = [], UseStaples = False\<rparr>"

lemma race_provider_inv: "provider_inv race_pki race_world"
  by (simp add: provider_inv_def pki_ok_def json_inv_def json_locked_def heap_decodes_def decodes_def race_world_def)
    (simp add: race_pki_def)

definition race_schedule :: "micro_event list" where
  "race_schedule = [Installs [demo_fallback] None, Publishes, Publishes, Publishes,
     Checks 0 0, Checks 1 0, Stores 1, Stores 0, Stores 0, Stores 1]"

definition raced :: "nat json_world micro" where
  "raced = the (micro_run race_schedule (at_rest (NewManager (Some (json_provider race_pki race_config)) race_world)))"

lemma race_evaluated:
  "(case micro_run race_schedule (at_rest (NewManager (Some (json_provider race_pki race_config)) race_world)) of
      None \<Rightarrow> False
    | Some s \<Rightarrow> mi_install s = [] \<and> mi_checks s 0 = [] \<and> mi_checks s 1 = [] \<and>
        RouteForDomain (mi_manager s) ''other.example.net'' = Some 0 \<and>
        CertificateForClient (mi_manager s) ''other.example.net'' = Ok None)"
  by code_simp

lemma race_run:
  "micro_run race_schedule (at_rest (NewManager (Some (json_provider race_pki race_config)) race_world)) = Some raced"
  using race_evaluated unfolding raced_def by (auto split: option.splits)

lemma raced_facts: "mi_install raced = []" "mi_checks raced 0 = []" "mi_checks raced 1 = []"
  "RouteForDomain (mi_manager raced) ''other.example.net'' = Some 0"
  "CertificateForClient (mi_manager raced) ''other.example.net'' = Ok None"
  using race_evaluated unfolding race_run option.case by blast+

lemma raced_reachable: "micro_reachable False (provider_inv race_pki) (Some (json_provider race_pki race_config)) raced"
  by (rule micro_run_reachable [OF race_run]) (rule micro_reachable.start, rule race_provider_inv)

lemma raced_at_rest: "mi_checks raced g = []"
  using raced_facts(2,3) micro_run_other [OF race_run, of g] by (cases "g = 0 \<or> g = 1") (auto simp: race_schedule_def)


end
