(* ===== verification/Config_Sources.thy ===== *)
theory Config_Sources
  imports Proxy_Manager
begin

text \<open>
  \<^verbatim>\<open>config/source.go\<close> and \<^verbatim>\<open>config/source_file.go\<close>: where routes come from, and the source that reads them from a file. The one
  that reads them from a server is in the theory \<open>Network_Source\<close>.

  A \<open>RouteUpdater\<close> is the function the sources call with parsed routes, the manager's \<^verbatim>\<open>SetRoutes\<close>;
  it acts on a state \<open>'m\<close>, and \<^const>\<open>None\<close> is a call that does not return. The fallback is given as an
  index into the routes. What a source sends on its error channel is a value of the result.
\<close>

type_synonym 'm RouteUpdater = "Route list \<Rightarrow> nat option \<Rightarrow> 'm \<Rightarrow> (string option \<times> 'm) option"

text \<open>The errors of the sources, with the error each wraps.\<close>

datatype SourceError =
    OpenFailed string
  | ParseFailed ParseError
  | RouteManagerError string
  | ReadMagicFailed string
  | InvalidMagic string
  | ReadVersionFailed string
  | UnsupportedVersion string
  | ReadLengthFailed string
  | ReadPayloadFailed string
  | AddressMissing
  | ConnectFailed string
  | SetDeadlineFailed string
  | ClearDeadlineFailed string
  | SecondReadFailed SourceError
  | ReconnectFailed string
  | ValidationNotSupported

subsection \<open>The file source\<close>

text \<open>The two channels have room for one message each.\<close>

record FileSource =
  fs_updateChan :: nat
  fs_stopChan :: nat

definition NewFileSource :: FileSource where
  "NewFileSource = \<lparr>fs_updateChan = 0, fs_stopChan = 0\<rparr>"

definition FileSource_Reload :: "FileSource \<Rightarrow> FileSource" where
  "FileSource_Reload f = (if fs_updateChan f < 1 then f\<lparr>fs_updateChan := Suc (fs_updateChan f)\<rparr> else f)"

text \<open>\<^verbatim>\<open>Start\<close> also starts the goroutine that runs the loop below.\<close>

definition FileSource_Start :: "FileSource \<Rightarrow> FileSource" where
  "FileSource_Start f = FileSource_Reload f"

text \<open>A full channel blocks the sender.\<close>

definition FileSource_Stop :: "FileSource \<Rightarrow> FileSource option" where
  "FileSource_Stop f = (if fs_stopChan f < 1 then Some (f\<lparr>fs_stopChan := Suc (fs_stopChan f)\<rparr>) else None)"

text \<open>What opening the file gives: an error, or its content.\<close>

type_synonym opened = "(string, reader) result"

definition FileSource_Validate :: "(string \<Rightarrow> bool) \<Rightarrow> opened \<Rightarrow> SourceError option" where
  "FileSource_Validate auth_ok configFile =
     (case configFile of
        Inl err \<Rightarrow> Some (OpenFailed err)
      | Inr rd \<Rightarrow>
          (case Parse auth_ok rd of
             Inl e \<Rightarrow> Some (ParseFailed e)
           | Inr _ \<Rightarrow> None))"

text \<open>The function that handles one update: the error it sends, and the state after it.\<close>

definition FileSource_update ::
  "(string \<Rightarrow> bool) \<Rightarrow> 'm RouteUpdater \<Rightarrow> opened \<Rightarrow> 'm \<Rightarrow> (SourceError option \<times> 'm) option" where
  "FileSource_update auth_ok updateRoutes configFile m =
     (case configFile of
        Inl err \<Rightarrow> Some (Some (OpenFailed err), m)
      | Inr rd \<Rightarrow>
          (case Parse auth_ok rd of
             Inl e \<Rightarrow> Some (Some (ParseFailed e), m)
           | Inr (routes, fallback) \<Rightarrow>
               (case updateRoutes routes fallback m of
                  None \<Rightarrow> None
                | Some (Some err, m') \<Rightarrow> Some (Some (RouteManagerError err), m')
                | Some (None, m') \<Rightarrow> Some (None, m'))))"

text \<open>The goroutine \<^verbatim>\<open>run\<close> together with what acts on it from outside: someone edits the file, \<^verbatim>\<open>Reload\<close> and
  \<^verbatim>\<open>Stop\<close> are called. \<^verbatim>\<open>select\<close> takes a message from a channel that has one; when both have, either may be
  taken. Between taking an update and reading the file, anything can happen. \<open>fr_version\<close> counts the edits,
  \<open>fr_wanted\<close> is the version that was on disk at the last \<^verbatim>\<open>Reload\<close>, and \<open>fr_seen\<close> and \<open>fr_last\<close> are the
  version and the content that were last read.\<close>

record 'm file_run =
  fr_source :: FileSource
  fr_disk :: opened
  fr_reading :: bool
  fr_returned :: bool
  fr_manager :: 'm
  fr_errors :: "SourceError list"
  fr_version :: nat
  fr_wanted :: nat
  fr_seen :: nat
  fr_last :: opened

inductive FileSource_run :: "(string \<Rightarrow> bool) \<Rightarrow> 'm RouteUpdater \<Rightarrow> 'm file_run \<Rightarrow> 'm file_run \<Rightarrow> bool"
  for auth_ok updateRoutes where
  edit: "FileSource_run auth_ok updateRoutes s (s\<lparr>fr_disk := new_content, fr_version := Suc (fr_version s)\<rparr>)"
| reload: "FileSource_run auth_ok updateRoutes s
    (s\<lparr>fr_source := FileSource_Reload (fr_source s), fr_wanted := fr_version s\<rparr>)"
| stop: "FileSource_Stop (fr_source s) = Some f \<Longrightarrow> FileSource_run auth_ok updateRoutes s (s\<lparr>fr_source := f\<rparr>)"
| take_stop: "\<not> fr_reading s \<Longrightarrow> \<not> fr_returned s \<Longrightarrow> 0 < fs_stopChan (fr_source s) \<Longrightarrow>
    FileSource_run auth_ok updateRoutes s
      (s\<lparr>fr_source := (fr_source s)\<lparr>fs_stopChan := fs_stopChan (fr_source s) - 1\<rparr>, fr_returned := True\<rparr>)"
| take_update: "\<not> fr_reading s \<Longrightarrow> \<not> fr_returned s \<Longrightarrow> 0 < fs_updateChan (fr_source s) \<Longrightarrow>
    FileSource_run auth_ok updateRoutes s
      (s\<lparr>fr_source := (fr_source s)\<lparr>fs_updateChan := fs_updateChan (fr_source s) - 1\<rparr>, fr_reading := True\<rparr>)"
| update: "fr_reading s \<Longrightarrow> FileSource_update auth_ok updateRoutes (fr_disk s) (fr_manager s) = Some (err, m') \<Longrightarrow>
    FileSource_run auth_ok updateRoutes s
      (s\<lparr>fr_reading := False, fr_manager := m', fr_errors := fr_errors s @ (case err of None \<Rightarrow> [] | Some e \<Rightarrow> [e]),
         fr_seen := fr_version s, fr_last := fr_disk s\<rparr>)"

text \<open>The state after \<^verbatim>\<open>Start\<close>, with the first version of the file on disk.\<close>

definition file_started :: "opened \<Rightarrow> 'm \<Rightarrow> 'm file_run" where
  "file_started configFile m =
     \<lparr>fr_source = FileSource_Start NewFileSource, fr_disk = configFile, fr_reading = False, fr_returned = False,
      fr_manager = m, fr_errors = [], fr_version = 1, fr_wanted = 1, fr_seen = 0, fr_last = Error []\<rparr>"

inductive file_reachable :: "(string \<Rightarrow> bool) \<Rightarrow> 'm RouteUpdater \<Rightarrow> opened \<Rightarrow> 'm \<Rightarrow> 'm file_run \<Rightarrow> bool"
  for auth_ok updateRoutes configFile m where
  start: "file_reachable auth_ok updateRoutes configFile m (file_started configFile m)"
| step: "file_reachable auth_ok updateRoutes configFile m s \<Longrightarrow> FileSource_run auth_ok updateRoutes s s' \<Longrightarrow>
    file_reachable auth_ok updateRoutes configFile m s'"

subsection \<open>What the sources ask of the manager\<close>

text \<open>The sources rely on this of the function they are given: it returns for every configuration the parser accepts, and can be called again.
  \<open>minv\<close> is what the manager keeps.\<close>

locale route_updater =
  fixes updateRoutes :: "'m RouteUpdater" and minv :: "'m \<Rightarrow> bool"
  assumes update_returns: "minv m \<Longrightarrow> list_all route_ok rs \<Longrightarrow> (\<And>i. fb = Some i \<Longrightarrow> i < length rs) \<Longrightarrow>
      \<exists>err m'. updateRoutes rs fb m = Some (err, m') \<and> minv m'"
begin

lemma parsed_returns:
  assumes "minv m" "Parse auth_ok rd = Ok (rs, fb)"
  obtains err m' where "updateRoutes rs fb m = Some (err, m')" "minv m'"
  using update_returns [of m rs fb] Parse_ok [OF assms(2)] assms(1) by blast

lemma FileSource_update_returns:
  assumes "minv m"
  shows "\<exists>err m'. FileSource_update auth_ok updateRoutes configFile m = Some (err, m') \<and> minv m'"
proof (cases configFile)
  case (Inr rd)
  show ?thesis
  proof (cases "Parse auth_ok rd")
    case (Inr res)
    obtain rs fb where res: "res = (rs, fb)" by fastforce
    obtain err m' where "updateRoutes rs fb m = Some (err, m')" "minv m'"
      using parsed_returns [OF assms] Inr res by blast
    with \<open>configFile = Inr rd\<close> Inr res show ?thesis by (cases err) (auto simp: FileSource_update_def)
  qed (use assms Inr in \<open>simp add: FileSource_update_def\<close>)
qed (use assms in \<open>simp add: FileSource_update_def\<close>)

end

text \<open>The manager gives this in all its reachable states, whichever provider it has.\<close>

lemma manager_updates:
  assumes "certificate_provider prov pinv"
  shows "route_updater install_routes (mgr_reachable pinv (Some prov))"
proof
  fix m rs fb
  assume m: "mgr_reachable pinv (Some prov) m" and rs: "list_all route_ok rs" "\<And>i. fb = Some i \<Longrightarrow> i < length rs"
  obtain err m' where r: "install_routes rs fb m = Some (err, m')"
    using certificate_provider.install_returns [OF assms m rs(1)] by fastforce
  with rs have "mgr_step pinv m m'" by (rule mgr_step.install)
  with m r show "\<exists>err m'. install_routes rs fb m = Some (err, m') \<and> mgr_reachable pinv (Some prov) m'"
    by (blast intro: mgr_reachable.step)
qed

subsection \<open>Updates by the file source\<close>

text \<open>The channels never hold more than one message, a reload that has not been acted on leaves a message or is
  being acted on, and what was last read is the version on disk unless the file has been edited since.\<close>

definition file_inv :: "'m file_run \<Rightarrow> bool" where
  "file_inv s \<longleftrightarrow>
     fs_updateChan (fr_source s) \<le> 1 \<and> fs_stopChan (fr_source s) \<le> 1 \<and>
     (fr_seen s < fr_wanted s \<longrightarrow> 0 < fs_updateChan (fr_source s) \<or> fr_reading s) \<and>
     fr_wanted s \<le> fr_version s \<and> fr_seen s \<le> fr_version s \<and> (fr_seen s = fr_version s \<longrightarrow> fr_last s = fr_disk s)"

lemma file_inv_step: "FileSource_run auth_ok updateRoutes s s' \<Longrightarrow> file_inv s \<Longrightarrow> file_inv s'"
  by (induction rule: FileSource_run.induct)
    (auto simp: file_inv_def FileSource_Reload_def FileSource_Stop_def split: if_splits)

lemma file_inv_reachable: "file_reachable auth_ok updateRoutes configFile m s \<Longrightarrow> file_inv s"
proof (induction rule: file_reachable.induct)
  case start
  show ?case by (simp add: file_started_def file_inv_def NewFileSource_def FileSource_Start_def FileSource_Reload_def)
next
  case (step s s')
  then show ?case using file_inv_step by blast
qed

text \<open>Routes only change by a complete configuration: both sources hand exactly the parsed routes to the manager.\<close>

lemma FileSource_update_cases:
  assumes "FileSource_update auth_ok updateRoutes configFile m = Some (err, m')"
  obtains (unchanged) e where "err = Some e" "m' = m"
  | (updated) rd routes fallback uerr where "configFile = Inr rd" "Parse auth_ok rd = Ok (routes, fallback)"
      "updateRoutes routes fallback m = Some (uerr, m')" "err = map_option RouteManagerError uerr"
  using assms by (auto simp: FileSource_update_def split: sum.splits option.splits prod.splits)

lemma FileSource_update_step:
  assumes "FileSource_update auth_ok install_routes configFile m = Some (err, m')"
  shows "m' = m \<or> mgr_step pinv m m'"
  using assms
proof (cases rule: FileSource_update_cases)
  case (updated rd routes fallback uerr)
  then show ?thesis using Parse_ok [OF updated(2)] by (intro disjI2 mgr_step.install) auto
qed simp

end
