(* ===== verification/Network_Source.thy ===== *)
theory Network_Source
  imports Config_Sources Route_Printer "HOL-Library.Word"
begin

unbundle bit_operations_syntax

text \<open>
  \<^verbatim>\<open>config/source_network.go\<close>: the source that reads routes from a server.

  Time passes while the source waits for its connection, sleeps and dials: the operations take the time at which they are called and give the
  time at which they return. \<^const>\<open>None\<close> is a call that does not return.
\<close>

subsection \<open>Constants\<close>

definition magicBytes :: string where
  "magicBytes = ''CENTAURI''"

definition protocolVersion :: char where
  "protocolVersion = CHR 0x01"

definition defaultReconnectInterval :: duration where
  "defaultReconnectInterval = 100 * (second div 1000)"

definition defaultInitialConfigTimeout :: duration where
  "defaultInitialConfigTimeout = 10 * second"

text \<open>\<^verbatim>\<open>binary.BigEndian.Uint32\<close>, as it shifts and combines four bytes.\<close>

definition Uint32 :: "string \<Rightarrow> 32 word" where
  "Uint32 b = of_char (b ! 3) OR push_bit 8 (of_char (b ! 2)) OR push_bit 16 (of_char (b ! 1)) OR
     push_bit 24 (of_char (b ! 0))"

subsection \<open>Connections\<close>

text \<open>A connection: the bytes that are still to be read, when each byte arrives (by its number since the connection was made, of which
  \<open>received\<close> have been read), when the connection ends, if ever, and with which error, whether this side has closed it, and the deadline
  that this side has set.\<close>

record connection =
  incoming :: string
  arrival :: "nat \<Rightarrow> time"
  received :: nat
  conn_end :: "time option"
  conn_error :: string
  conn_closed :: bool
  conn_deadline :: "time option"

definition Close :: "connection \<Rightarrow> connection" where
  "Close c = c\<lparr>conn_closed := True\<rparr>"

definition SetDeadline :: "time option \<Rightarrow> connection \<Rightarrow> connection" where
  "SetDeadline t c = c\<lparr>conn_deadline := t\<rparr>"

text \<open>When a read of \<open>n\<close> bytes has its answer: the last of them is there, or the connection has ended.\<close>

definition answer :: "nat \<Rightarrow> connection \<Rightarrow> time option" where
  "answer n c = (if n \<le> length (incoming c) then Some (arrival c (received c + n - 1)) else conn_end c)"

definition times_out :: "nat \<Rightarrow> time \<Rightarrow> connection \<Rightarrow> bool" where
  "times_out n now c =
     (case conn_deadline c of
        None \<Rightarrow> False
      | Some d \<Rightarrow> (case answer n c of None \<Rightarrow> True | Some t \<Rightarrow> d < max now t))"

text \<open>\<^verbatim>\<open>io.ReadFull\<close> reads a number of bytes, or fails; nothing is read for an empty buffer. What had arrived before a timeout is lost with the
  connection, from which nothing is read any more then.\<close>

definition ReadFull :: "nat \<Rightarrow> time \<Rightarrow> connection \<Rightarrow> ((string, string) result \<times> time \<times> connection) option" where
  "ReadFull n now c =
     (if n = 0 then Some (Ok [], now, c)
      else if conn_closed c then Some (Error ''use of closed network connection'', now, c)
      else if times_out n now c then Some (Error ''i/o timeout'', max now (the (conn_deadline c)), c)
      else
        (case answer n c of
           None \<Rightarrow> None
         | Some t \<Rightarrow>
             if n \<le> length (incoming c)
             then Some (Ok (take n (incoming c)), max now t, c\<lparr>incoming := drop n (incoming c), received := received c + n\<rparr>)
             else Some (Error (conn_error c), max now t, c\<lparr>incoming := [], received := received c + length (incoming c)\<rparr>)))"

text \<open>Result of \<^verbatim>\<open>readAndApplyConfig\<close>: the error, the time, the connection and the state the routes are installed in.\<close>

definition readAndApplyConfig ::
  "(string \<Rightarrow> bool) \<Rightarrow> 'm RouteUpdater \<Rightarrow> time \<Rightarrow> connection \<Rightarrow> 'm \<Rightarrow> (SourceError option \<times> time \<times> connection \<times> 'm) option" where
  "readAndApplyConfig auth_ok updateRoutes now conn m =
     (case ReadFull 8 now conn of
        None \<Rightarrow> None
      | Some (Inl err, t1, c1) \<Rightarrow> Some (Some (ReadMagicFailed err), t1, c1, m)
      | Some (Inr magic, t1, c1) \<Rightarrow>
     if magic \<noteq> magicBytes
     then Some (Some (InvalidMagic magic), t1, Close c1, m)
     else
     (case ReadFull 4 t1 c1 of
        None \<Rightarrow> None
      | Some (Inl err, t2, c2) \<Rightarrow> Some (Some (ReadVersionFailed err), t2, c2, m)
      | Some (Inr versionHeader, t2, c2) \<Rightarrow>
     if versionHeader ! 0 \<noteq> CHR 0x00 \<or> versionHeader ! 1 \<noteq> CHR 0x00 \<or> versionHeader ! 2 \<noteq> CHR 0x00 \<or>
        versionHeader ! 3 \<noteq> protocolVersion
     then Some (Some (UnsupportedVersion versionHeader), t2, Close c2, m)
     else
     (case ReadFull 4 t2 c2 of
        None \<Rightarrow> None
      | Some (Inl err, t3, c3) \<Rightarrow> Some (Some (ReadLengthFailed err), t3, c3, m)
      | Some (Inr lengthBytes, t3, c3) \<Rightarrow>
     (case ReadFull (unat (Uint32 lengthBytes)) t3 c3 of
        None \<Rightarrow> None
      | Some (Inl err, t4, c4) \<Rightarrow> Some (Some (ReadPayloadFailed err), t4, c4, m)
      | Some (Inr payload, t4, c4) \<Rightarrow>
     (case Parse auth_ok \<lparr>content = payload, read_error = None\<rparr> of
        Inl e \<Rightarrow> Some (Some (ParseFailed e), t4, c4, m)
      | Inr (routes, fallback) \<Rightarrow>
     (case updateRoutes routes fallback m of
        None \<Rightarrow> None
      | Some (Some err, m') \<Rightarrow> Some (Some (RouteManagerError err), t4, c4, m')
      | Some (None, m') \<Rightarrow> Some (None, t4, c4, m')))))))"

subsection \<open>The loop\<close>

record NetworkSource =
  ns_address :: string
  ns_stopChan :: nat
  ns_conn :: "connection option"
  initialConfigRead :: bool
  reconnectInterval :: duration
  initialConfigTimeout :: duration
  secondChance :: bool

text \<open>\<open>secondChance\<close> is a local variable of \<^verbatim>\<open>run\<close>, false when the loop starts.\<close>

definition NewNetworkSource :: "string \<Rightarrow> NetworkSource" where
  "NewNetworkSource address =
     \<lparr>ns_address = address, ns_stopChan = 0, ns_conn = None, initialConfigRead = False, reconnectInterval = defaultReconnectInterval,
      initialConfigTimeout = defaultInitialConfigTimeout, secondChance = False\<rparr>"

text \<open>\<open>dial\<close> is the result of \<^verbatim>\<open>net.Dial\<close>. A new connection has no deadline.\<close>

definition NetworkSource_Start ::
  "(string, connection) result \<Rightarrow> NetworkSource \<Rightarrow> (SourceError, NetworkSource) result" where
  "NetworkSource_Start dial n =
     (if ns_address n = [] then Error AddressMissing
      else (case dial of
              Inl err \<Rightarrow> Error (ConnectFailed err)
            | Inr c \<Rightarrow> Ok (n\<lparr>ns_conn := Some (SetDeadline None c)\<rparr>)))"

definition NetworkSource_Stop :: "NetworkSource \<Rightarrow> NetworkSource option" where
  "NetworkSource_Stop n =
     (if ns_stopChan n < 1
      then Some (n\<lparr>ns_stopChan := Suc (ns_stopChan n), ns_conn := map_option Close (ns_conn n)\<rparr>)
      else None)"

definition NetworkSource_Reload :: "NetworkSource \<Rightarrow> NetworkSource" where
  "NetworkSource_Reload n = n"

definition NetworkSource_Validate :: "NetworkSource \<Rightarrow> SourceError option" where
  "NetworkSource_Validate n = Some ValidationNotSupported"

text \<open>The old connection is closed and not used any more; then the source sleeps, and dials for \<open>took\<close>.\<close>

definition reconnect ::
  "(string, connection) result \<Rightarrow> duration \<Rightarrow> time \<Rightarrow> NetworkSource \<Rightarrow> string option \<times> time \<times> NetworkSource" where
  "reconnect dial took now n =
     (let now' = now + reconnectInterval n + took in
      case dial of
        Inl err \<Rightarrow> (Some err, now', n\<lparr>ns_conn := None\<rparr>)
      | Inr c \<Rightarrow> (None, now', n\<lparr>ns_conn := Some (SetDeadline None c)\<rparr>))"

text \<open>What one round of the loop depends on: the errors of setting and clearing the deadline, if any, and the result of
  dialling again, with the time that takes.\<close>

record net_inputs =
  set_deadline :: "string option"
  clear_deadline :: "string option"
  redial :: "(string, connection) result"
  redial_took :: duration

datatype 'm net_round =
    NetReturned "SourceError option" time NetworkSource 'm   \<comment> \<open>\<^verbatim>\<open>run\<close> returns, after sending an error or none\<close>
  | NetLooped time NetworkSource 'm                     \<comment> \<open>and the loop goes on\<close>
  | NetBlocked                                          \<comment> \<open>a call does not return\<close>
  | NetPanicked

text \<open>The connection as a round reads from it: until the first configuration has been read, a deadline has been set.\<close>

definition with_deadline :: "time \<Rightarrow> NetworkSource \<Rightarrow> connection \<Rightarrow> connection" where
  "with_deadline now n c = (if initialConfigRead n then c else SetDeadline (Some (now + initialConfigTimeout n)) c)"

definition NetworkSource_round ::
  "(string \<Rightarrow> bool) \<Rightarrow> 'm RouteUpdater \<Rightarrow> net_inputs \<Rightarrow> time \<Rightarrow> NetworkSource \<Rightarrow> 'm \<Rightarrow> 'm net_round" where
  "NetworkSource_round auth_ok updateRoutes i now n m =
     (if 0 < ns_stopChan n then NetReturned None now (n\<lparr>ns_stopChan := ns_stopChan n - 1\<rparr>) m
      else
     (case ns_conn n of
        None \<Rightarrow> NetPanicked
      | Some conn \<Rightarrow>
     (case (if initialConfigRead n then None else set_deadline i) of
        Some err \<Rightarrow> NetReturned (Some (SetDeadlineFailed err)) now n m
      | None \<Rightarrow>
     (case readAndApplyConfig auth_ok updateRoutes now (with_deadline now n conn) m of
        None \<Rightarrow> NetBlocked
      | Some (Some err, now', conn', m') \<Rightarrow>
          (let n1 = n\<lparr>ns_conn := Some conn'\<rparr> in
           if secondChance n1 then NetReturned (Some (SecondReadFailed err)) now' n1 m'
           else (case reconnect (redial i) (redial_took i) now' n1 of
                   (Some err', now2, n2) \<Rightarrow> NetReturned (Some (ReconnectFailed err')) now2 n2 m'
                 | (None, now2, n2) \<Rightarrow> NetLooped now2 (n2\<lparr>secondChance := True\<rparr>) m'))
      | Some (None, now', conn', m') \<Rightarrow>
          (let n1 = n\<lparr>ns_conn := Some conn'\<rparr> in
           if initialConfigRead n1 then NetLooped now' (n1\<lparr>secondChance := False\<rparr>) m'
           else (let n2 = n1\<lparr>initialConfigRead := True\<rparr> in
                 case clear_deadline i of
                   Some err \<Rightarrow> NetReturned (Some (ClearDeadlineFailed err)) now' n2 m'
                 | None \<Rightarrow> NetLooped now' (n2\<lparr>ns_conn := Some (SetDeadline None conn'), secondChance := False\<rparr>) m'))))))"

fun NetworkSource_run ::
  "(string \<Rightarrow> bool) \<Rightarrow> 'm RouteUpdater \<Rightarrow> net_inputs list \<Rightarrow> time \<Rightarrow> NetworkSource \<Rightarrow> 'm \<Rightarrow> 'm net_round" where
  "NetworkSource_run auth_ok updateRoutes [] now n m = NetLooped now n m"
| "NetworkSource_run auth_ok updateRoutes (i # is) now n m =
     (case NetworkSource_round auth_ok updateRoutes i now n m of
        NetLooped now' n' m' \<Rightarrow> NetworkSource_run auth_ok updateRoutes is now' n' m'
      | r \<Rightarrow> r)"

subsection \<open>The wire format\<close>

definition be32 :: "nat \<Rightarrow> string" where
  "be32 n = map char_of [n div 2 ^ 24 mod 256, n div 2 ^ 16 mod 256, n div 2 ^ 8 mod 256, n mod 256]"

definition frame :: "string \<Rightarrow> string" where
  "frame payload = magicBytes @ [CHR 0x00, CHR 0x00, CHR 0x00, protocolVersion] @ be32 (length payload) @ payload"

lemma or_push_nat: "a < 2 ^ k \<Longrightarrow> a OR push_bit k b = a + 2 ^ k * b" for a b :: nat
proof -
  assume "a < 2 ^ k"
  then have "take_bit k a = a" by (simp add: take_bit_nat_eq_self)
  then have "\<not> bit a n \<or> \<not> bit (push_bit k b) n" for n
    by (metis bit_push_bit_iff bit_take_bit_iff linorder_not_le)
  then have "a + push_bit k b = a OR push_bit k b" by (rule disjunctive_add)
  then show ?thesis by (simp add: push_bit_eq_mult ac_simps)
qed

lemma Uint32_value:
  fixes b0 b1 b2 b3 :: nat
  assumes "b0 < 256" "b1 < 256" "b2 < 256" "b3 < 256"
  shows "unat (Uint32 (map char_of [b0, b1, b2, b3])) = b3 + 2 ^ 8 * b2 + 2 ^ 16 * b1 + 2 ^ 24 * b0"
proof -
  have byte: "of_char (char_of b :: char) = (of_nat b :: 32 word)" if "b < 256" for b :: nat
  proof -
    have "(of_char (char_of b :: char) :: 32 word) = of_nat (of_char (char_of b :: char) :: nat)"
      by (rule of_nat_of_char [symmetric])
    also have "\<dots> = of_nat b" using that by simp
    finally show ?thesis .
  qed
  have "b3 OR push_bit 8 b2 OR push_bit 16 b1 OR push_bit 24 b0 = b3 + 2 ^ 8 * b2 + 2 ^ 16 * b1 + 2 ^ 24 * b0"
    using or_push_nat [of b3 8 b2] or_push_nat [of "b3 + 2 ^ 8 * b2" 16 b1]
      or_push_nat [of "b3 + 2 ^ 8 * b2 + 2 ^ 16 * b1" 24 b0] assms
    by (simp flip: or.assoc)
  moreover have "Uint32 (map char_of [b0, b1, b2, b3]) =
      of_nat (b3 OR push_bit 8 b2 OR push_bit 16 b1 OR push_bit 24 b0)"
    using assms by (simp add: Uint32_def byte numeral_3_eq_3 of_nat_or_eq push_bit_of_nat)
  moreover have "unat (of_nat (b3 + 2 ^ 8 * b2 + 2 ^ 16 * b1 + 2 ^ 24 * b0) :: 32 word) =
      b3 + 2 ^ 8 * b2 + 2 ^ 16 * b1 + 2 ^ 24 * b0"
    by (subst unat_of_nat) (use assms in simp)
  ultimately show ?thesis by simp
qed

lemma Uint32_be32:
  assumes "n < 2 ^ 32"
  shows "unat (Uint32 (be32 n)) = n"
proof -
  have "n mod 256 + 2 ^ 8 * (n div 2 ^ 8 mod 256) + 2 ^ 16 * (n div 2 ^ 16 mod 256) + 2 ^ 24 * (n div 2 ^ 24 mod 256) = n"
  proof -
    define q1 q2 q3 where "q1 = n div 256" and "q2 = q1 div 256" and "q3 = q2 div 256"
    have d: "n div 2 ^ 8 = q1" "n div 2 ^ 16 = q2" "n div 2 ^ 24 = q3"
      by (simp_all add: q1_def q2_def q3_def flip: div_mult2_eq)
    have "q3 < 256" using assms by (simp flip: d)
    then show ?thesis
      unfolding d using mult_div_mod_eq [of 256 n] mult_div_mod_eq [of 256 q1] mult_div_mod_eq [of 256 q2]
      by (simp flip: q1_def q2_def q3_def)
  qed
  moreover have "n div 2 ^ 24 < 256" using assms by simp
  ultimately show ?thesis
    unfolding be32_def by (subst Uint32_value) simp_all
qed

lemma length_be32 [simp]: "length (be32 n) = 4"
  by (simp add: be32_def)

lemma length_frame: "length (frame payload) = 16 + length payload"
  by (simp add: frame_def magicBytes_def)

text \<open>What applying a payload does.\<close>

definition apply_payload ::
  "(string \<Rightarrow> bool) \<Rightarrow> 'm RouteUpdater \<Rightarrow> string \<Rightarrow> 'm \<Rightarrow> (SourceError option \<times> 'm) option" where
  "apply_payload auth_ok updateRoutes payload m =
     (case Parse auth_ok \<lparr>content = payload, read_error = None\<rparr> of
        Inl e \<Rightarrow> Some (Some (ParseFailed e), m)
      | Inr (routes, fallback) \<Rightarrow>
          map_option (\<lambda>(err, m'). (map_option RouteManagerError err, m')) (updateRoutes routes fallback m))"

subsection \<open>Frames that arrive in time\<close>

text \<open>The next \<open>k\<close> bytes arrive before the deadline, if there is one.\<close>

definition in_time :: "nat \<Rightarrow> time \<Rightarrow> connection \<Rightarrow> bool" where
  "in_time k now c \<longleftrightarrow> (\<forall>d. conn_deadline c = Some d \<longrightarrow> now \<le> d \<and> (\<forall>j < k. arrival c (received c + j) \<le> d))"

lemma in_time_no_deadline [simp]: "conn_deadline c = None \<Longrightarrow> in_time k now c"
  by (simp add: in_time_def)

lemma in_time_later:
  assumes "in_time (n + k) now c" "\<And>d. conn_deadline c = Some d \<Longrightarrow> now' \<le> d"
  shows "in_time k now' (c\<lparr>incoming := b, received := received c + n\<rparr>)"
  unfolding in_time_def
proof (intro allI impI conjI)
  fix d j
  assume d: "conn_deadline (c\<lparr>incoming := b, received := received c + n\<rparr>) = Some d"
  then show "now' \<le> d" using assms(2) by simp
  assume "j < k"
  then show "arrival (c\<lparr>incoming := b, received := received c + n\<rparr>) (received (c\<lparr>incoming := b, received := received c + n\<rparr>) + j) \<le> d"
    using assms(1) d by (auto simp: in_time_def add.assoc)
qed

lemma ReadFull_append:
  assumes "length a = n" "\<not> conn_closed c" "incoming c = a @ b" "in_time (n + k) now c"
  obtains now' where "ReadFull n now c = Some (Ok a, now', c\<lparr>incoming := b, received := received c + n\<rparr>)"
    "in_time k now' (c\<lparr>incoming := b, received := received c + n\<rparr>)"
proof (cases "n = 0")
  case True
  then have "c\<lparr>incoming := b, received := received c + n\<rparr> = c" using assms(1,3) by (cases c) simp
  with True assms that [of now] show thesis by (simp add: ReadFull_def in_time_def)
next
  case False
  let ?t = "arrival c (received c + n - 1)"
  have t: "max now ?t \<le> d" if "conn_deadline c = Some d" for d
    using assms(4) that False by (auto simp: in_time_def dest: spec [of _ "n - 1"])
  then have "\<not> times_out n now c" using assms(1,3) by (auto simp: times_out_def answer_def split: option.splits)
  with assms(1-3) False have "ReadFull n now c = Some (Ok a, max now ?t, c\<lparr>incoming := b, received := received c + n\<rparr>)"
    by (auto simp: ReadFull_def answer_def)
  then show thesis using that in_time_later [OF assms(4), of "max now ?t"] t by blast
qed

lemma readAndApplyConfig_frame:
  assumes "length payload < 2 ^ 32" "incoming c = frame payload @ rest" "\<not> conn_closed c" "in_time (length (frame payload)) now c"
    and "apply_payload auth_ok updateRoutes payload m = Some (err, m')"
  shows "\<exists>now'. readAndApplyConfig auth_ok updateRoutes now c m =
    Some (err, now', c\<lparr>incoming := rest, received := received c + length (frame payload)\<rparr>, m')"
proof -
  let ?v = "[CHR 0x00, CHR 0x00, CHR 0x00, protocolVersion]" and ?l = "be32 (length payload)"
  let ?c = "\<lambda>n b. c\<lparr>incoming := b, received := received c + n\<rparr>"
  have len: "length (frame payload) = 8 + (4 + (4 + length payload))" by (simp add: length_frame)
  obtain t1 where 1: "ReadFull 8 now c = Some (Ok magicBytes, t1, ?c 8 (?v @ ?l @ payload @ rest))"
      "in_time (4 + (4 + length payload)) t1 (?c 8 (?v @ ?l @ payload @ rest))"
    by (rule ReadFull_append [of magicBytes 8 c "?v @ ?l @ payload @ rest" "4 + (4 + length payload)" now])
      (use assms len in \<open>simp_all add: frame_def magicBytes_def\<close>)
  obtain t2 where 2: "ReadFull 4 t1 (?c 8 (?v @ ?l @ payload @ rest)) = Some (Ok ?v, t2, ?c 12 (?l @ payload @ rest))"
      "in_time (4 + length payload) t2 (?c 12 (?l @ payload @ rest))"
    by (rule ReadFull_append [of ?v 4 "?c 8 (?v @ ?l @ payload @ rest)" "?l @ payload @ rest" "4 + length payload" t1])
      (use assms(3) 1(2) in \<open>simp_all add: ac_simps\<close>)
  obtain t3 where 3: "ReadFull 4 t2 (?c 12 (?l @ payload @ rest)) = Some (Ok ?l, t3, ?c 16 (payload @ rest))"
      "in_time (length payload) t3 (?c 16 (payload @ rest))"
    by (rule ReadFull_append [of ?l 4 "?c 12 (?l @ payload @ rest)" "payload @ rest" "length payload" t2])
      (use assms(3) 2(2) in \<open>simp_all add: ac_simps\<close>)
  obtain t4 where 4: "ReadFull (length payload) t3 (?c 16 (payload @ rest)) = Some (Ok payload, t4, ?c (16 + length payload) rest)"
    by (rule ReadFull_append [of payload "length payload" "?c 16 (payload @ rest)" rest 0 t3])
      (use assms(3) 3(2) in \<open>simp_all add: ac_simps\<close>)
  have "unat (Uint32 ?l) = length payload" using assms(1) by (rule Uint32_be32)
  with 1(1) 2(1) 3(1) 4 assms(5) len show ?thesis
    by (auto simp: readAndApplyConfig_def apply_payload_def numeral_3_eq_3 numeral_2_eq_2 add.assoc
        split: sum.splits option.splits)
qed

subsection \<open>Runs of the network source\<close>

fun apply_payloads ::
  "(string \<Rightarrow> bool) \<Rightarrow> 'm RouteUpdater \<Rightarrow> string list \<Rightarrow> 'm \<Rightarrow> 'm option" where
  "apply_payloads auth_ok updateRoutes [] m = Some m"
| "apply_payloads auth_ok updateRoutes (p # ps) m =
     (case apply_payload auth_ok updateRoutes p m of
        Some (None, m') \<Rightarrow> apply_payloads auth_ok updateRoutes ps m'
      | _ \<Rightarrow> None)"

text \<open>A source that listens on an open connection, which has no deadline once the first configuration has been read; the inputs of a round
  in which no deadline call fails; and that the first configuration, of \<open>k\<close> bytes, arrives before its deadline.\<close>

definition listening :: "NetworkSource \<Rightarrow> connection \<Rightarrow> bool" where
  "listening n c \<longleftrightarrow> ns_stopChan n = 0 \<and> ns_conn n = Some c \<and> \<not> conn_closed c \<and> (initialConfigRead n \<longrightarrow> conn_deadline c = None)"

definition deadlines_ok :: "net_inputs \<Rightarrow> bool" where
  "deadlines_ok i \<longleftrightarrow> set_deadline i = None \<and> clear_deadline i = None"

definition first_in_time :: "nat \<Rightarrow> time \<Rightarrow> NetworkSource \<Rightarrow> connection \<Rightarrow> bool" where
  "first_in_time k now n c \<longleftrightarrow> in_time k now (with_deadline now n c)"

text \<open>The source after a configuration of \<open>k\<close> bytes.\<close>

definition after_config :: "NetworkSource \<Rightarrow> connection \<Rightarrow> nat \<Rightarrow> string \<Rightarrow> NetworkSource" where
  "after_config n c k rest = n\<lparr>ns_conn := Some (c\<lparr>incoming := rest, received := received c + k, conn_deadline := None\<rparr>),
     initialConfigRead := True, secondChance := False\<rparr>"

lemma round_frame:
  assumes "listening n c" "incoming c = frame p @ rest" "deadlines_ok i" "length p < 2 ^ 32" "first_in_time (length (frame p)) now n c"
    and "apply_payload auth_ok updateRoutes p m = Some (None, m')"
  shows "\<exists>now'. NetworkSource_round auth_ok updateRoutes i now n m = NetLooped now' (after_config n c (length (frame p)) rest) m'"
proof -
  let ?c = "with_deadline now n c"
  have c: "incoming ?c = frame p @ rest" "\<not> conn_closed ?c" "in_time (length (frame p)) now ?c" "received ?c = received c"
    using assms(1,2,5) by (auto simp: with_deadline_def SetDeadline_def listening_def first_in_time_def)
  obtain now' where "readAndApplyConfig auth_ok updateRoutes now ?c m =
      Some (None, now', ?c\<lparr>incoming := rest, received := received ?c + length (frame p)\<rparr>, m')"
    using readAndApplyConfig_frame [OF assms(4) c(1-3) assms(6)] by blast
  moreover have "?c\<lparr>incoming := rest, received := k, conn_deadline := None\<rparr> = c\<lparr>incoming := rest, received := k, conn_deadline := None\<rparr>" for k
    by (simp add: with_deadline_def SetDeadline_def)
  moreover have "?c\<lparr>incoming := rest, received := k\<rparr> = c\<lparr>incoming := rest, received := k, conn_deadline := None\<rparr>" if "initialConfigRead n" for k
    using that assms(1) by (cases c) (simp add: with_deadline_def listening_def)
  ultimately show ?thesis
    using assms(1,3) c(4) by (cases "initialConfigRead n"; cases n)
      (simp_all add: NetworkSource_round_def listening_def deadlines_ok_def after_config_def SetDeadline_def)
qed

lemma run_frames:
  assumes "listening n c" "incoming c = concat (map frame ps) @ rest" "list_all deadlines_ok is" "length is = length ps"
    and "list_all (\<lambda>p. length p < 2 ^ 32) ps" "ps \<noteq> []" "first_in_time (length (frame (hd ps))) now n c"
    and "apply_payloads auth_ok updateRoutes ps m = Some m'"
  shows "\<exists>now'. NetworkSource_run auth_ok updateRoutes is now n m =
    NetLooped now' (after_config n c (length (concat (map frame ps))) rest) m'"
  using assms
proof (induction ps arbitrary: "is" n c now m)
  case (Cons p ps)
  obtain i is' where i: "is = i # is'" using Cons.prems(4) by (cases "is") auto
  obtain m1 where m1: "apply_payload auth_ok updateRoutes p m = Some (None, m1)"
      "apply_payloads auth_ok updateRoutes ps m1 = Some m'"
    using Cons.prems(8) by (auto split: option.splits prod.splits)
  let ?rest = "concat (map frame ps) @ rest" and ?k = "length (frame p)"
  let ?n = "after_config n c ?k ?rest"
  obtain now1 where 1: "NetworkSource_round auth_ok updateRoutes i now n m = NetLooped now1 ?n m1"
    using round_frame [of n c p ?rest i now auth_ok updateRoutes m m1] Cons.prems i m1 by auto
  show ?case
  proof (cases ps)
    case Nil
    with m1(2) i 1 Cons.prems(4) show ?thesis by simp
  next
    case (Cons q qs)
    let ?c = "c\<lparr>incoming := ?rest, received := received c + ?k, conn_deadline := None\<rparr>"
    have "listening ?n ?c" "first_in_time k now1 ?n ?c" for k
      using Cons.prems(1) by (simp_all add: listening_def after_config_def first_in_time_def with_deadline_def)
    then obtain now' where "NetworkSource_run auth_ok updateRoutes is' now1 ?n m1 =
        NetLooped now' (after_config ?n ?c (length (concat (map frame ps))) rest) m'"
      using Cons.IH [of ?n ?c is' now1 m1] Cons.prems i m1(2) Cons by auto
    with 1 i show ?thesis by (simp add: after_config_def add.assoc)
  qed
qed simp

text \<open>After the first configuration there is no deadline: the source waits for as long as the server is silent.\<close>

lemma idle_connection_waits:
  assumes "listening n c" "initialConfigRead n" "length (incoming c) < 8" "conn_end c = None"
  shows "NetworkSource_round auth_ok updateRoutes i now n m = NetBlocked"
  using assms
  by (simp add: NetworkSource_round_def listening_def with_deadline_def readAndApplyConfig_def ReadFull_def times_out_def answer_def)

subsection \<open>When the source gives up\<close>

text \<open>One failure is forgiven: the source reconnects, and the next configuration restores the chance.\<close>

definition read_fails ::
  "(string \<Rightarrow> bool) \<Rightarrow> 'm RouteUpdater \<Rightarrow> time \<Rightarrow> NetworkSource \<Rightarrow> 'm \<Rightarrow> SourceError \<Rightarrow> 'm \<Rightarrow> bool" where
  "read_fails auth_ok updateRoutes now n m err m' \<longleftrightarrow>
     (\<exists>c now' c'. ns_conn n = Some c \<and>
       readAndApplyConfig auth_ok updateRoutes now (with_deadline now n c) m = Some (Some err, now', c', m'))"

text \<open>Two rounds in a row whose reads failed, the second with \<open>err\<close>.\<close>

definition fails_twice ::
  "(string \<Rightarrow> bool) \<Rightarrow> 'm RouteUpdater \<Rightarrow> net_inputs list \<Rightarrow> time \<Rightarrow> NetworkSource \<Rightarrow> 'm \<Rightarrow> SourceError \<Rightarrow> 'm \<Rightarrow> bool" where
  "fails_twice auth_ok updateRoutes rounds now n m err m' \<longleftrightarrow>
     (\<exists>before i j after now1 n1 m1 err1 now2 n2 m2. rounds = before @ [i, j] @ after \<and>
       NetworkSource_run auth_ok updateRoutes before now n m = NetLooped now1 n1 m1 \<and>
       read_fails auth_ok updateRoutes now1 n1 m1 err1 m2 \<and>
       NetworkSource_round auth_ok updateRoutes i now1 n1 m1 = NetLooped now2 n2 m2 \<and>
       read_fails auth_ok updateRoutes now2 n2 m2 err m')"

lemma round_to_second_chance:
  assumes "NetworkSource_round auth_ok updateRoutes i now n m = NetLooped now' n' m'" "secondChance n'"
  shows "\<exists>err. read_fails auth_ok updateRoutes now n m err m'"
  using assms
  by (auto simp: NetworkSource_round_def read_fails_def reconnect_def Let_def split: if_splits option.splits prod.splits sum.splits)

lemma round_gives_up:
  assumes "NetworkSource_round auth_ok updateRoutes i now n m = NetReturned (Some (SecondReadFailed err)) now' n' m'"
  shows "secondChance n \<and> read_fails auth_ok updateRoutes now n m err m'"
  using assms
  by (auto simp: NetworkSource_round_def read_fails_def reconnect_def Let_def split: if_splits option.splits prod.splits sum.splits)

lemma fails_twice_later:
  assumes "NetworkSource_round auth_ok updateRoutes i now n m = NetLooped now1 n1 m1"
    and "fails_twice auth_ok updateRoutes rounds now1 n1 m1 err m'"
  shows "fails_twice auth_ok updateRoutes (i # rounds) now n m err m'"
proof -
  obtain before i' j after nowa na ma err1 nowb nb mb where
      a: "rounds = before @ [i', j] @ after" "NetworkSource_run auth_ok updateRoutes before now1 n1 m1 = NetLooped nowa na ma"
    and b: "read_fails auth_ok updateRoutes nowa na ma err1 mb" "NetworkSource_round auth_ok updateRoutes i' nowa na ma = NetLooped nowb nb mb"
      "read_fails auth_ok updateRoutes nowb nb mb err m'"
    using assms(2) unfolding fails_twice_def by blast
  have "i # rounds = (i # before) @ [i', j] @ after" "NetworkSource_run auth_ok updateRoutes (i # before) now n m = NetLooped nowa na ma"
    using a assms(1) by simp_all
  with b show ?thesis unfolding fails_twice_def by blast
qed

lemma fails_twice_now:
  assumes "NetworkSource_round auth_ok updateRoutes i now n m = NetLooped now1 n1 m1" "secondChance n1"
    and "read_fails auth_ok updateRoutes now1 n1 m1 err m'" "rounds \<noteq> []"
  shows "fails_twice auth_ok updateRoutes (i # rounds) now n m err m'"
proof -
  obtain err1 where "read_fails auth_ok updateRoutes now n m err1 m1" using round_to_second_chance [OF assms(1,2)] by blast
  moreover obtain j after where "i # rounds = [] @ [i, j] @ after" using assms(4) by (cases rounds) auto
  ultimately show ?thesis
    unfolding fails_twice_def using assms(1,3) NetworkSource_run.simps(1) [of auth_ok updateRoutes now n m] by metis
qed

lemma run_gives_up:
  assumes "NetworkSource_run auth_ok updateRoutes rounds now n m = NetReturned (Some (SecondReadFailed err)) now' n' m'"
  shows "fails_twice auth_ok updateRoutes rounds now n m err m' \<or> secondChance n \<and> read_fails auth_ok updateRoutes now n m err m'"
  using assms
proof (induction rounds arbitrary: now n m)
  case (Cons i rounds)
  show ?case
  proof (cases "NetworkSource_round auth_ok updateRoutes i now n m")
    case (NetLooped now1 n1 m1)
    with Cons.prems have rest: "NetworkSource_run auth_ok updateRoutes rounds now1 n1 m1 =
        NetReturned (Some (SecondReadFailed err)) now' n' m'" by simp
    then have "rounds \<noteq> []" by auto
    with Cons.IH [OF rest] fails_twice_later [OF NetLooped] fails_twice_now [OF NetLooped] show ?thesis by blast
  next
    case (NetReturned e nowa na ma)
    with Cons.prems show ?thesis using round_gives_up [of auth_ok updateRoutes i now n m err now' n' m'] by simp
  qed (use Cons.prems in simp_all)
qed simp

text \<open>Whatever arrives, the manager only ever takes steps it can take with parsed configurations.\<close>

lemma readAndApplyConfig_cases:
  assumes "readAndApplyConfig auth_ok updateRoutes now conn m = Some (err, now', conn', m')"
  obtains (unchanged) e where "err = Some e" "m' = m"
  | (updated) payload routes fallback uerr where
      "Parse auth_ok \<lparr>content = payload, read_error = None\<rparr> = Ok (routes, fallback)"
      "updateRoutes routes fallback m = Some (uerr, m')" "err = map_option RouteManagerError uerr"
proof (rule ccontr)
  assume "\<not> thesis"
  then have u: "err = None \<or> m' \<noteq> m" and
    p: "\<And>payload routes fallback uerr. Parse auth_ok \<lparr>content = payload, read_error = None\<rparr> = Ok (routes, fallback) \<Longrightarrow>
      updateRoutes routes fallback m = Some (uerr, m') \<Longrightarrow> err \<noteq> map_option RouteManagerError uerr"
    using unchanged updated by (cases err; blast)+
  from assms u show False
    by (auto simp: readAndApplyConfig_def dest!: p split: prod.splits sum.splits option.splits if_splits)
qed

lemma readAndApplyConfig_step:
  assumes "readAndApplyConfig auth_ok install_routes now conn m = Some (err, now', conn', m')"
  shows "m' = m \<or> mgr_step pinv m m'"
  using assms
proof (cases rule: readAndApplyConfig_cases)
  case (updated payload routes fallback uerr)
  then show ?thesis using Parse_ok [OF updated(1)] by (intro disjI2 mgr_step.install) auto
qed simp

lemma round_step:
  assumes "NetworkSource_round auth_ok install_routes i now n m = NetLooped now' n' m' \<or>
    NetworkSource_round auth_ok install_routes i now n m = NetReturned err now' n' m'"
  shows "m' = m \<or> mgr_step pinv m m'"
proof (cases "m' = m")
  case False
  with assms obtain c e t c' where "readAndApplyConfig auth_ok install_routes now c m = Some (e, t, c', m')"
    by (auto simp: NetworkSource_round_def reconnect_def Let_def
        split: if_splits option.splits prod.splits sum.splits)
  then show ?thesis by (rule readAndApplyConfig_step)
qed simp

subsection \<open>How long the first configuration can take\<close>

lemma ReadFull_before:
  assumes "conn_deadline c = Some d"
  obtains res now' c' where "ReadFull n now c = Some (res, now', c')" "now' \<le> max now d" "conn_deadline c' = Some d"
proof (cases "answer n c")
  case (Some t)
  then show thesis
    using assms that by (cases "n = 0"; cases "conn_closed c"; cases "d < max now t"; cases "n \<le> length (incoming c)")
      (auto simp: ReadFull_def times_out_def)
next
  case None
  then show thesis
    using assms that by (cases "n = 0"; cases "conn_closed c") (auto simp: ReadFull_def times_out_def)
qed

text \<open>The first configuration has been installed, or an error has been reported, at a time that is not after \<open>t\<close>.\<close>

fun settled_by :: "time \<Rightarrow> 'm net_round \<Rightarrow> bool" where
  "settled_by t (NetReturned err now n m) \<longleftrightarrow> err \<noteq> None \<and> now \<le> t"
| "settled_by t (NetLooped now n m) \<longleftrightarrow> initialConfigRead n \<and> now \<le> t"
| "settled_by t _ \<longleftrightarrow> False"

context route_updater
begin

text \<open>With a deadline, a configuration is read and installed, or reading has failed, when the deadline has passed.\<close>

lemma config_before:
  assumes "minv m" "conn_deadline c = Some d" "now \<le> d"
  shows "\<exists>err now' c' m'. readAndApplyConfig auth_ok updateRoutes now c m = Some (err, now', c', m') \<and> now' \<le> d \<and> minv m'"
proof -
  define ok where "ok x \<longleftrightarrow> (\<exists>err now' c' m'. x = Some (err, now', c', m') \<and> now' \<le> d \<and> minv m')"
    for x :: "(SourceError option \<times> time \<times> connection \<times> 'm) option"
  have ok: "ok (Some (err, now', c', m')) \<longleftrightarrow> now' \<le> d \<and> minv m'" for err now' c' m' by (simp add: ok_def)
  have upd: "\<exists>uerr m'. updateRoutes rs fb m = Some (uerr, m') \<and> minv m'"
    if "Parse auth_ok \<lparr>content = payload, read_error = None\<rparr> = Ok (rs, fb)" for payload rs fb
    using parsed_returns [OF assms(1) that] by blast
  obtain r1 t1 c1 where 1: "ReadFull 8 now c = Some (r1, t1, c1)" "t1 \<le> max now d" "conn_deadline c1 = Some d"
    using ReadFull_before [OF assms(2)] .
  obtain r2 t2 c2 where 2: "ReadFull 4 t1 c1 = Some (r2, t2, c2)" "t2 \<le> max t1 d" "conn_deadline c2 = Some d"
    using ReadFull_before [OF 1(3)] .
  obtain r3 t3 c3 where 3: "ReadFull 4 t2 c2 = Some (r3, t3, c3)" "t3 \<le> max t2 d" "conn_deadline c3 = Some d"
    using ReadFull_before [OF 2(3)] .
  obtain r4 t4 c4 where 4: "ReadFull (unat (Uint32 (projr r3))) t3 c3 = Some (r4, t4, c4)" "t4 \<le> max t3 d"
    using ReadFull_before [OF 3(3)] by blast
  have t: "t1 \<le> d" "t2 \<le> d" "t3 \<le> d" "t4 \<le> d" using 1(2) 2(2) 3(2) 4(2) assms(3) by auto
  have last: "ok (case r4 of Inl err \<Rightarrow> Some (Some (ReadPayloadFailed err), t4, c4, m) | Inr payload \<Rightarrow>
      (case Parse auth_ok \<lparr>content = payload, read_error = None\<rparr> of Inl e \<Rightarrow> Some (Some (ParseFailed e), t4, c4, m)
       | Inr (routes, fallback) \<Rightarrow> (case updateRoutes routes fallback m of None \<Rightarrow> None
           | Some (Some err, m') \<Rightarrow> Some (Some (RouteManagerError err), t4, c4, m')
           | Some (None, m') \<Rightarrow> Some (None, t4, c4, m'))))"
    using upd assms(1) t(4) by (fastforce simp: ok split: sum.split option.split)
  have "ok (readAndApplyConfig auth_ok updateRoutes now c m)"
    using last 4(1) t assms(1) by (cases r3) (auto simp: readAndApplyConfig_def ok 1(1) 2(1) 3(1) split: sum.split)
  then show ?thesis by (simp add: ok_def)
qed

text \<open>A round before that: the source has given up, has read the configuration, or has connected again.\<close>

lemma round_before:
  assumes "minv m" "ns_stopChan n = 0" "ns_conn n = Some c" "\<not> initialConfigRead n"
    and "0 \<le> initialConfigTimeout n" "0 \<le> reconnectInterval n" "0 \<le> redial_took i"
  obtains (gave_up) err now' n' m' where "NetworkSource_round auth_ok updateRoutes i now n m = NetReturned (Some err) now' n' m'"
      "now' \<le> now + initialConfigTimeout n + (if secondChance n then 0 else reconnectInterval n + redial_took i)"
  | (config_read) now' n' m' where "NetworkSource_round auth_ok updateRoutes i now n m = NetLooped now' n' m'"
      "initialConfigRead n'" "ns_stopChan n' = 0" "now' \<le> now + initialConfigTimeout n"
  | (reconnected) now' c' m' where
      "NetworkSource_round auth_ok updateRoutes i now n m = NetLooped now' (n\<lparr>ns_conn := Some c', secondChance := True\<rparr>) m'"
      "\<not> secondChance n" "now' \<le> now + initialConfigTimeout n + reconnectInterval n + redial_took i" "minv m'"
proof (cases "set_deadline i")
  case None
  let ?d = "now + initialConfigTimeout n"
  obtain err now' c' m' where r: "readAndApplyConfig auth_ok updateRoutes now (with_deadline now n c) m = Some (err, now', c', m')"
    and b: "now' \<le> ?d" "minv m'"
    using config_before [OF assms(1), of "with_deadline now n c" ?d now auth_ok] assms(4,5) by (auto simp: with_deadline_def SetDeadline_def)
  show thesis
  proof (cases err)
    case (Some e)
    have "NetworkSource_round auth_ok updateRoutes i now n m = (let n1 = n\<lparr>ns_conn := Some c'\<rparr> in
        if secondChance n1 then NetReturned (Some (SecondReadFailed e)) now' n1 m'
        else (case reconnect (redial i) (redial_took i) now' n1 of
                (Some err', now2, n2) \<Rightarrow> NetReturned (Some (ReconnectFailed err')) now2 n2 m'
              | (None, now2, n2) \<Rightarrow> NetLooped now2 (n2\<lparr>secondChance := True\<rparr>) m'))"
      using assms(2-4) None r Some by (simp add: NetworkSource_round_def)
    then show thesis
      using b gave_up reconnected assms(6,7) by (cases "secondChance n"; cases "redial i") (auto simp: reconnect_def)
  next
    case None
    have "NetworkSource_round auth_ok updateRoutes i now n m = (let n2 = n\<lparr>ns_conn := Some c', initialConfigRead := True\<rparr> in
        case clear_deadline i of
          Some err \<Rightarrow> NetReturned (Some (ClearDeadlineFailed err)) now' n2 m'
        | None \<Rightarrow> NetLooped now' (n2\<lparr>ns_conn := Some (SetDeadline None c'), secondChance := False\<rparr>) m')"
      using assms(2-4) \<open>set_deadline i = None\<close> r None by (simp add: NetworkSource_round_def)
    then show thesis
      using b gave_up config_read assms(2,6,7) by (cases "clear_deadline i") auto
  qed
next
  case (Some e)
  with assms gave_up show thesis by (simp add: NetworkSource_round_def)
qed

text \<open>So two rounds after the start it is settled.\<close>

lemma first_configuration_settled:
  assumes "minv m" "NetworkSource_Start dial (NewNetworkSource address) = Ok n" "0 \<le> redial_took i" "0 \<le> redial_took j"
  shows "let t = now + 2 * defaultInitialConfigTimeout + defaultReconnectInterval + redial_took i in
    settled_by t (NetworkSource_run auth_ok updateRoutes [i] now n m) \<or> settled_by t (NetworkSource_run auth_ok updateRoutes [i, j] now n m)"
proof -
  obtain c where c: "ns_conn n = Some c" using assms(2) by (auto simp: NetworkSource_Start_def split: if_splits sum.splits)
  have n: "ns_stopChan n = 0" "\<not> initialConfigRead n" "\<not> secondChance n" "initialConfigTimeout n = defaultInitialConfigTimeout"
      "reconnectInterval n = defaultReconnectInterval"
    using assms(2) by (auto simp: NetworkSource_Start_def NewNetworkSource_def split: if_splits sum.splits)
  have pos: "0 \<le> defaultInitialConfigTimeout" "0 \<le> defaultReconnectInterval"
    by (simp_all add: defaultInitialConfigTimeout_def defaultReconnectInterval_def second_def)
  show ?thesis
  proof (rule round_before [OF assms(1) n(1) c n(2), of i auth_ok now])
    fix now1 c1 m1
    let ?n = "n\<lparr>ns_conn := Some c1, secondChance := True\<rparr>"
    assume 1: "NetworkSource_round auth_ok updateRoutes i now n m = NetLooped now1 ?n m1" "minv m1"
      "now1 \<le> now + initialConfigTimeout n + reconnectInterval n + redial_took i"
    show ?thesis
      by (rule round_before [OF 1(2), of ?n c1 j auth_ok now1]) (use 1 n pos assms(4) in auto)
  qed (use n pos assms(3) in auto)
qed

end

end
