(* ===== verification/Redis_Lock.thy ===== *)
theory Redis_Lock
  imports Prelude
begin

text \<open>
  \<^verbatim>\<open>certificate/store_redis.go\<close>, the distributed lock: \<^verbatim>\<open>redisLock\<close>, its scripts, and the goroutines of
  several Centauri instances that use one lock at the same time.

  The server is a map from keys to values that expire, with the server's clock. The two scripts run
  atomically there. A lock object is shared by the goroutines of one process; the system below has one
  object per process, all for the same key.
\<close>

record redis_server =
  sv_keys :: "string \<rightharpoonup> string \<times> time"
  sv_now :: time

definition redis_get :: "string \<Rightarrow> redis_server \<Rightarrow> string option" where
  "redis_get key sv =
     (case sv_keys sv key of
        None \<Rightarrow> None
      | Some (v, expiry) \<Rightarrow> if sv_now sv < expiry then Some v else None)"

definition SetNX :: "string \<Rightarrow> string \<Rightarrow> duration \<Rightarrow> redis_server \<Rightarrow> bool \<times> redis_server" where
  "SetNX key v ttl sv =
     (if redis_get key sv = None then (True, sv\<lparr>sv_keys := (sv_keys sv)(key \<mapsto> (v, sv_now sv + ttl))\<rparr>)
      else (False, sv))"

definition releaseLockScript :: "string \<Rightarrow> string \<Rightarrow> redis_server \<Rightarrow> nat \<times> redis_server" where
  "releaseLockScript key token sv =
     (if redis_get key sv = Some token then (1, sv\<lparr>sv_keys := (sv_keys sv)(key := None)\<rparr>) else (0, sv))"

definition extendLockScript :: "string \<Rightarrow> string \<Rightarrow> duration \<Rightarrow> redis_server \<Rightarrow> nat \<times> redis_server" where
  "extendLockScript key token ttl sv =
     (if redis_get key sv = Some token
      then (1, sv\<lparr>sv_keys := (sv_keys sv)(key \<mapsto> (token, sv_now sv + ttl))\<rparr>) else (0, sv))"

definition redisLockTTL :: duration where
  "redisLockTTL = 60 * second"

definition redisLockRenewInterval :: duration where
  "redisLockRenewInterval = redisLockTTL div 3"

text \<open>The lock object. A stop channel is a number, and \<^const>\<open>None\<close> the nil channel. No token is the empty string.\<close>

record redisLock =
  lk_token :: string
  lk_stopChan :: "nat option"

definition new_redisLock :: redisLock where
  "new_redisLock = \<lparr>lk_token = [], lk_stopChan = None\<rparr>"

text \<open>The two critical sections under the object's mutex: at the end of \<^verbatim>\<open>Lock\<close>, and at the start of \<^verbatim>\<open>Unlock\<close>.\<close>

definition lock_fields :: "string \<Rightarrow> nat \<Rightarrow> redisLock \<Rightarrow> redisLock" where
  "lock_fields token stop l = l\<lparr>lk_token := token, lk_stopChan := Some stop\<rparr>"

definition unlock_fields :: "redisLock \<Rightarrow> (string \<times> nat option) \<times> redisLock" where
  "unlock_fields l = ((lk_token l, lk_stopChan l), l\<lparr>lk_token := [], lk_stopChan := None\<rparr>)"

subsection \<open>Goroutines that use the lock\<close>

text \<open>Where a goroutine is: outside the lock (perhaps waiting to retry); past a successful \<^verbatim>\<open>SetNX\<close>, with its
  token; between the return of \<^verbatim>\<open>Lock\<close> and its call of \<^verbatim>\<open>Unlock\<close>, with the token \<^verbatim>\<open>Lock\<close> got; in \<^verbatim>\<open>Unlock\<close>, with the token
  it read from the object; or dead from closing a channel that is nil or closed already.\<close>

datatype lock_pc = Outside | Acquired string | Inside string | Releasing string | Panicked

text \<open>\<open>lw_refreshers\<close> are the running \<^verbatim>\<open>refresh\<close> goroutines, \<open>lw_closed\<close> the closed stop channels, \<open>lw_tokens\<close> the
  tokens generated so far with the process each comes from.\<close>

record lock_world =
  lw_server :: redis_server
  lw_locks :: "nat \<Rightarrow> redisLock"
  lw_pc :: "nat \<Rightarrow> lock_pc"
  lw_refreshers :: "(string \<times> nat) set"
  lw_closed :: "nat set"
  lw_tokens :: "string \<rightharpoonup> nat"
  lw_chans :: nat

definition lock_start :: "time \<Rightarrow> lock_world" where
  "lock_start now =
     \<lparr>lw_server = \<lparr>sv_keys = Map.empty, sv_now = now\<rparr>, lw_locks = (\<lambda>_. new_redisLock), lw_pc = (\<lambda>_. Outside),
      lw_refreshers = {}, lw_closed = {}, lw_tokens = Map.empty, lw_chans = 0\<rparr>"

definition holds :: "lock_world \<Rightarrow> nat \<Rightarrow> string \<Rightarrow> bool" where
  "holds w g t \<longleftrightarrow> lw_pc w g = Acquired t \<or> lw_pc w g = Inside t"

text \<open>The lease of a holder has not run out and has not been taken from it.\<close>

definition lease :: "string \<Rightarrow> lock_world \<Rightarrow> nat \<Rightarrow> bool" where
  "lease key w g \<longleftrightarrow> (\<exists>t. holds w g t \<and> redis_get key (lw_server w) = Some t)"

text \<open>The steps. Tokens are random, so a new one differs from all before. A request whose reply is lost may
  have been executed (\<open>acquire_lost\<close>) or not (\<open>release_lost\<close>). A refresher may still extend after its
  channel was closed, since \<^verbatim>\<open>select\<close> may prefer the ticker. Runs in which \<open>timely\<close> holds are those in which no
  lease runs out in the hands of its holder.\<close>

inductive lock_step :: "bool \<Rightarrow> string \<Rightarrow> duration \<Rightarrow> (nat \<Rightarrow> nat) \<Rightarrow> lock_world \<Rightarrow> lock_world \<Rightarrow> bool"
  for timely key ttl proc_of where
  acquire: "lw_pc w g = Outside \<Longrightarrow> lw_tokens w t = None \<Longrightarrow> t \<noteq> [] \<Longrightarrow> SetNX key t ttl (lw_server w) = (True, sv) \<Longrightarrow>
    lock_step timely key ttl proc_of w
      (w\<lparr>lw_server := sv, lw_pc := (lw_pc w)(g := Acquired t), lw_tokens := (lw_tokens w)(t \<mapsto> proc_of g)\<rparr>)"
| acquire_lost: "lw_pc w g = Outside \<Longrightarrow> lw_tokens w t = None \<Longrightarrow> t \<noteq> [] \<Longrightarrow> SetNX key t ttl (lw_server w) = (b, sv) \<Longrightarrow>
    lock_step timely key ttl proc_of w (w\<lparr>lw_server := sv, lw_tokens := (lw_tokens w)(t \<mapsto> proc_of g)\<rparr>)"
| locked: "lw_pc w g = Acquired t \<Longrightarrow> lock_step timely key ttl proc_of w
    (w\<lparr>lw_locks := (lw_locks w)(proc_of g := lock_fields t (lw_chans w) (lw_locks w (proc_of g))),
       lw_refreshers := insert (t, lw_chans w) (lw_refreshers w), lw_chans := Suc (lw_chans w),
       lw_pc := (lw_pc w)(g := Inside t)\<rparr>)"
| unlock: "lw_pc w g = Inside t \<Longrightarrow> unlock_fields (lw_locks w (proc_of g)) = ((token, Some stop), l) \<Longrightarrow> token \<noteq> [] \<Longrightarrow>
    stop \<notin> lw_closed w \<Longrightarrow> lock_step timely key ttl proc_of w
      (w\<lparr>lw_locks := (lw_locks w)(proc_of g := l), lw_closed := insert stop (lw_closed w),
         lw_pc := (lw_pc w)(g := Releasing token)\<rparr>)"
| unlock_panic: "lw_pc w g = Inside t \<Longrightarrow> unlock_fields (lw_locks w (proc_of g)) = ((token, stop), l) \<Longrightarrow> token \<noteq> [] \<Longrightarrow>
    (case stop of None \<Rightarrow> True | Some c \<Rightarrow> c \<in> lw_closed w) \<Longrightarrow> lock_step timely key ttl proc_of w
      (w\<lparr>lw_locks := (lw_locks w)(proc_of g := l), lw_pc := (lw_pc w)(g := Panicked)\<rparr>)"
| unlock_none: "lw_pc w g = Inside t \<Longrightarrow> unlock_fields (lw_locks w (proc_of g)) = (([], stop), l) \<Longrightarrow>
    lock_step timely key ttl proc_of w
      (w\<lparr>lw_locks := (lw_locks w)(proc_of g := l), lw_pc := (lw_pc w)(g := Outside)\<rparr>)"
| release: "lw_pc w g = Releasing t \<Longrightarrow> lock_step timely key ttl proc_of w
    (w\<lparr>lw_server := snd (releaseLockScript key t (lw_server w)), lw_pc := (lw_pc w)(g := Outside)\<rparr>)"
| release_lost: "lw_pc w g = Releasing t \<Longrightarrow> lock_step timely key ttl proc_of w (w\<lparr>lw_pc := (lw_pc w)(g := Outside)\<rparr>)"
| refresh: "(t, stop) \<in> lw_refreshers w \<Longrightarrow> lock_step timely key ttl proc_of w
    (w\<lparr>lw_server := snd (extendLockScript key t ttl (lw_server w))\<rparr>)"
| refresh_stops: "(t, stop) \<in> lw_refreshers w \<Longrightarrow> stop \<in> lw_closed w \<Longrightarrow> lock_step timely key ttl proc_of w
    (w\<lparr>lw_refreshers := lw_refreshers w - {(t, stop)}\<rparr>)"
| tick: "0 < d \<Longrightarrow> w' = w\<lparr>lw_server := (lw_server w)\<lparr>sv_now := sv_now (lw_server w) + d\<rparr>\<rparr> \<Longrightarrow>
    (timely \<Longrightarrow> (\<And>g. lease key w g \<Longrightarrow> lease key w' g)) \<Longrightarrow> lock_step timely key ttl proc_of w w'"

inductive lock_reachable :: "bool \<Rightarrow> string \<Rightarrow> duration \<Rightarrow> (nat \<Rightarrow> nat) \<Rightarrow> time \<Rightarrow> lock_world \<Rightarrow> bool"
  for timely key ttl proc_of now where
  start: "lock_reachable timely key ttl proc_of now (lock_start now)"
| step: "lock_reachable timely key ttl proc_of now w \<Longrightarrow> lock_step timely key ttl proc_of w w' \<Longrightarrow>
    lock_reachable timely key ttl proc_of now w'"

subsection \<open>What the server keeps\<close>

lemma redis_get_SetNX:
  "SetNX key t ttl sv = (True, sv') \<Longrightarrow> 0 < ttl \<Longrightarrow> redis_get key sv = None \<and> redis_get key sv' = Some t"
  by (auto simp: SetNX_def redis_get_def split: if_splits)

lemma redis_get_SetNX_cases:
  "SetNX key t ttl sv = (b, sv') \<Longrightarrow> redis_get key sv = Some t' \<Longrightarrow> sv' = sv"
  by (auto simp: SetNX_def)

lemma redis_get_extend [simp]: "0 < ttl \<Longrightarrow> redis_get key (snd (extendLockScript key t ttl sv)) = redis_get key sv"
  by (auto simp: extendLockScript_def redis_get_def split: option.splits)

lemma redis_get_release:
  "redis_get key (snd (releaseLockScript key t sv)) = (if redis_get key sv = Some t then None else redis_get key sv)"
  by (auto simp: releaseLockScript_def redis_get_def split: option.splits)

lemma server_now [simp]:
  "sv_now (snd (extendLockScript key t ttl sv)) = sv_now sv" "sv_now (snd (releaseLockScript key t sv)) = sv_now sv"
  by (simp_all add: extendLockScript_def releaseLockScript_def)

subsection \<open>Tokens and channels\<close>

text \<open>The token a goroutine has got or read.\<close>

fun pc_token :: "lock_pc \<Rightarrow> string option" where
  "pc_token (Acquired t) = Some t"
| "pc_token (Inside t) = Some t"
| "pc_token (Releasing t) = Some t"
| "pc_token _ = None"

text \<open>Every token is used only by the process that generated it, and two goroutines never hold the same token.\<close>

definition token_inv :: "(nat \<Rightarrow> nat) \<Rightarrow> lock_world \<Rightarrow> bool" where
  "token_inv proc_of w \<longleftrightarrow>
     (\<forall>g t. pc_token (lw_pc w g) = Some t \<longrightarrow> t \<noteq> [] \<and> lw_tokens w t = Some (proc_of g)) \<and>
     (\<forall>p. lk_token (lw_locks w p) \<noteq> [] \<longrightarrow> lw_tokens w (lk_token (lw_locks w p)) = Some p) \<and>
     (\<forall>g g' t. holds w g t \<longrightarrow> holds w g' t \<longrightarrow> g = g')"

text \<open>An object with a token has an open stop channel, which is in no other object.\<close>

definition chan_inv :: "lock_world \<Rightarrow> bool" where
  "chan_inv w \<longleftrightarrow>
     (\<forall>p. lk_token (lw_locks w p) \<noteq> [] \<longrightarrow> lk_stopChan (lw_locks w p) \<noteq> None) \<and>
     (\<forall>p c. lk_stopChan (lw_locks w p) = Some c \<longrightarrow> c < lw_chans w \<and> c \<notin> lw_closed w) \<and>
     (\<forall>p q c. lk_stopChan (lw_locks w p) = Some c \<longrightarrow> lk_stopChan (lw_locks w q) = Some c \<longrightarrow> p = q) \<and>
     (\<forall>c \<in> lw_closed w. c < lw_chans w) \<and> (\<forall>g. lw_pc w g \<noteq> Panicked)"

lemma pc_token_holds: "holds w g t \<Longrightarrow> pc_token (lw_pc w g) = Some t"
  by (auto simp: holds_def)

lemma token_inv_step: "lock_step timely key ttl proc_of w w' \<Longrightarrow> token_inv proc_of w \<Longrightarrow> token_inv proc_of w'"
proof (induction rule: lock_step.induct)
  case (acquire w g t sv)
  then have fresh: "pc_token (lw_pc w g') \<noteq> Some t" "lk_token (lw_locks w p) \<noteq> t" for g' p
    by (auto simp: token_inv_def)
  with acquire show ?case
    using pc_token_holds [of w _ t] by (auto simp: token_inv_def holds_def)
next
  case (acquire_lost w g t b sv)
  then have fresh: "pc_token (lw_pc w g') \<noteq> Some t" "lk_token (lw_locks w p) \<noteq> t" for g' p
    by (auto simp: token_inv_def)
  with acquire_lost show ?case by (auto simp: token_inv_def holds_def)
next
  case (locked w g t)
  then have "pc_token (lw_pc w g) = Some t" by simp
  then have "t \<noteq> []" "lw_tokens w t = Some (proc_of g)" using locked.prems by (auto simp: token_inv_def)
  with locked show ?case by (auto simp: token_inv_def holds_def lock_fields_def)
qed (auto simp: token_inv_def holds_def unlock_fields_def)

lemma chan_inv_step: "lock_step timely key ttl proc_of w w' \<Longrightarrow> chan_inv w \<Longrightarrow> token_inv proc_of w \<Longrightarrow> chan_inv w'"
proof (induction rule: lock_step.induct)
  case (locked w g t)
  then show ?case by (fastforce simp: chan_inv_def lock_fields_def less_Suc_eq)
next
  case (unlock w g t token stop l)
  then show ?case by (auto simp: chan_inv_def unlock_fields_def)
next
  case (unlock_panic w g t token stop l)
  then show ?case by (fastforce simp: chan_inv_def unlock_fields_def split: option.splits)
qed (auto simp: chan_inv_def unlock_fields_def)

lemma lock_reachable_inv: "lock_reachable timely key ttl proc_of now w \<Longrightarrow> token_inv proc_of w \<and> chan_inv w"
proof (induction rule: lock_reachable.induct)
  case start
  show ?case by (auto simp: token_inv_def chan_inv_def lock_start_def new_redisLock_def holds_def)
next
  case (step w w')
  then show ?case using token_inv_step chan_inv_step by blast
qed

text \<open>At most one goroutine has a lease.\<close>

lemma lease_unique: "token_inv proc_of w \<Longrightarrow> lease key w g \<Longrightarrow> lease key w g' \<Longrightarrow> g = g'"
  by (auto simp: token_inv_def lease_def)

text \<open>How a lease is lost: its holder calls \<^verbatim>\<open>Unlock\<close>, time passes, or a goroutine of the same process releases it.\<close>

lemma lease_lost:
  assumes "lock_step timely key ttl proc_of w w'" "token_inv proc_of w" "0 < ttl"
    and "lease key w g" "\<not> lease key w' g"
  shows "(\<exists>t. lw_pc w g = Inside t \<and> lw_pc w' g \<noteq> Inside t) \<or> sv_now (lw_server w) < sv_now (lw_server w') \<or>
    (\<exists>g'. g' \<noteq> g \<and> proc_of g' = proc_of g \<and> (\<exists>t. lw_pc w g' = Releasing t \<and> redis_get key (lw_server w) = Some t))"
  using assms
proof (induction rule: lock_step.induct)
  case (acquire w g' t sv)
  then have "redis_get key (lw_server w) = None" using redis_get_SetNX by blast
  with acquire.prems(3) show ?case by (simp add: lease_def)
next
  case (acquire_lost w g' t b sv)
  then obtain t' where "redis_get key (lw_server w) = Some t'" by (auto simp: lease_def)
  then have "sv = lw_server w" by (rule redis_get_SetNX_cases [OF acquire_lost.hyps(4)])
  with acquire_lost.prems(3,4) show ?case by (simp add: lease_def holds_def)
next
  case (release w g' t)
  then obtain t' where t': "holds w g t'" "redis_get key (lw_server w) = Some t'" by (auto simp: lease_def)
  have ne: "g' \<noteq> g" using release.hyps t'(1) by (auto simp: holds_def)
  then have "holds (w\<lparr>lw_server := snd (releaseLockScript key t (lw_server w)), lw_pc := (lw_pc w)(g' := Outside)\<rparr>) g t'"
    using t'(1) by (auto simp: holds_def)
  with release.prems(4) t'(2) have "t = t'" by (auto simp: lease_def redis_get_release split: if_splits)
  moreover have "proc_of g' = proc_of g"
  proof -
    have "lw_tokens w t' = Some (proc_of g)" "lw_tokens w t = Some (proc_of g')"
      using release.prems(1) release.hyps pc_token_holds [OF t'(1)] by (auto simp: token_inv_def)
    with \<open>t = t'\<close> show ?thesis by simp
  qed
  ultimately show ?case using release.hyps ne t'(2) by blast
next
  case (locked w g' t)
  then show ?case by (cases "g = g'") (auto simp: lease_def holds_def)
qed (auto simp: lease_def holds_def)

subsection \<open>Runs in which no lease runs out\<close>

definition timely_inv :: "string \<Rightarrow> (nat \<Rightarrow> nat) \<Rightarrow> lock_world \<Rightarrow> bool" where
  "timely_inv key proc_of w \<longleftrightarrow>
     (\<forall>g t. holds w g t \<longrightarrow> redis_get key (lw_server w) = Some t) \<and>
     (\<forall>g t. lw_pc w g = Inside t \<longrightarrow> lk_token (lw_locks w (proc_of g)) = t) \<and>
     (\<forall>g g' t. lw_pc w g' = Releasing t \<longrightarrow> \<not> holds w g t)"

lemma timely_only_holder:
  "timely_inv key proc_of w \<Longrightarrow> token_inv proc_of w \<Longrightarrow> holds w g t \<Longrightarrow> holds w g' t' \<Longrightarrow> g' = g \<and> t' = t"
  unfolding timely_inv_def token_inv_def by (metis option.inject)

lemma timely_alone:
  "timely_inv key proc_of w \<Longrightarrow> token_inv proc_of w \<Longrightarrow> holds w g t \<Longrightarrow> g' \<noteq> g \<Longrightarrow>
    lw_pc w g' \<noteq> Inside t' \<and> lw_pc w g' \<noteq> Acquired t'"
  using timely_only_holder [of key proc_of w g t g' t'] by (auto simp: holds_def)

text \<open>No other goroutine has acquired the lock or is inside.\<close>

lemma timely_others:
  "timely_inv key proc_of w \<Longrightarrow> token_inv proc_of w \<Longrightarrow> lw_pc w g = Inside t \<or> lw_pc w g = Acquired t \<Longrightarrow> g' \<noteq> g \<Longrightarrow>
    lw_pc w g' \<noteq> Inside t' \<and> lw_pc w g' \<noteq> Acquired t'"
  using timely_alone [of key proc_of w g t g' t'] by (auto simp: holds_def)

lemma timely_inv_step:
  "lock_step True key ttl proc_of w w' \<Longrightarrow> 0 < ttl \<Longrightarrow> token_inv proc_of w \<Longrightarrow> timely_inv key proc_of w \<Longrightarrow>
    timely_inv key proc_of w'"
proof (induction rule: lock_step.induct)
  case (acquire w g t sv)
  note get = redis_get_SetNX [OF acquire.hyps(4) acquire.prems(1)]
  then have "\<not> holds w g' t'" for g' t' using acquire.prems(3) by (auto simp: timely_inv_def)
  moreover have "lw_pc w g' \<noteq> Releasing t" for g'
    using acquire.prems(2) acquire.hyps(2) by (auto simp: token_inv_def dest!: spec [of _ g'])
  ultimately show ?case using get by (auto simp: timely_inv_def holds_def)
next
  case (acquire_lost w g t b sv)
  have "redis_get key sv = Some t'" if "holds w g' t'" for g' t'
    using that acquire_lost.prems(3) redis_get_SetNX_cases [OF acquire_lost.hyps(4)] by (auto simp: timely_inv_def)
  with acquire_lost.prems(3) show ?case by (auto simp: timely_inv_def holds_def)
next
  case (locked w g t)
  note timely_others [OF locked.prems(3,2) disjI2 [OF locked.hyps(1)]]
  with locked show ?case by (auto simp: timely_inv_def holds_def lock_fields_def)
next
  case (unlock w g t token stop l)
  note timely_others [OF unlock.prems(3,2) disjI1 [OF unlock.hyps(1)]]
  with unlock show ?case by (auto simp: timely_inv_def holds_def unlock_fields_def)
next
  case (unlock_panic w g t token stop l)
  note timely_others [OF unlock_panic.prems(3,2) disjI1 [OF unlock_panic.hyps(1)]]
  with unlock_panic show ?case by (auto simp: timely_inv_def holds_def unlock_fields_def)
next
  case (unlock_none w g t stop l)
  note timely_others [OF unlock_none.prems(3,2) disjI1 [OF unlock_none.hyps(1)]]
  with unlock_none show ?case by (auto simp: timely_inv_def holds_def unlock_fields_def)
next
  case (release w g t)
  then show ?case by (auto simp: timely_inv_def holds_def redis_get_release)
next
  case (tick d w' w)
  have "redis_get key (lw_server w') = Some t" if "holds w g t" for g t
  proof -
    have "lease key w g" using that tick.prems(3) by (auto simp: lease_def timely_inv_def)
    then have "lease key w' g" using tick.hyps(3) by simp
    moreover have "holds w' g t' = holds w g t'" for t' using tick.hyps(2) by (simp add: holds_def)
    ultimately show ?thesis using that by (auto simp: lease_def holds_def)
  qed
  with tick show ?case by (auto simp: timely_inv_def holds_def)
qed (auto simp: timely_inv_def holds_def)

lemma timely_reachable_inv:
  "lock_reachable True key ttl proc_of now w \<Longrightarrow> 0 < ttl \<Longrightarrow> timely_inv key proc_of w"
proof (induction rule: lock_reachable.induct)
  case start
  then show ?case by (simp add: timely_inv_def lock_start_def holds_def)
next
  case (step w w')
  then show ?case using timely_inv_step lock_reachable_inv by blast
qed

text \<open>A lease that is refreshed as often as the renewal interval says does not run out.\<close>

lemma extend_outlives:
  assumes "redis_get key sv = Some t" "d < ttl"
  shows "redis_get key ((snd (extendLockScript key t ttl sv))\<lparr>sv_now := sv_now sv + d\<rparr>) = Some t"
  using assms by (simp add: extendLockScript_def redis_get_def)

text \<open>And one that is not refreshed does, so that the lock of an instance that died can be acquired.\<close>

lemma lock_expires:
  assumes "sv_keys sv key = Some (t, expiry)" "expiry \<le> sv_now sv"
  shows "fst (SetNX key t' ttl sv)"
  using assms by (simp add: SetNX_def redis_get_def)

subsection \<open>When a lease has run out\<close>

text \<open>Goroutines 1 and 2 of one process and goroutine 3 of another: the lease of goroutine 1 runs out, goroutine 2
  acquires the lock, then goroutine 1 calls \<^verbatim>\<open>Unlock\<close>.\<close>

definition demo_procs :: "nat \<Rightarrow> nat" where
  "demo_procs g = (if g = 3 then 1 else 0)"

definition stolen_before :: lock_world where
  "stolen_before =
     \<lparr>lw_server = \<lparr>sv_keys = [''lock'' \<mapsto> (''b'', 20)], sv_now = 10\<rparr>,
      lw_locks = (\<lambda>_. new_redisLock)(0 := \<lparr>lk_token = ''b'', lk_stopChan = Some 1\<rparr>),
      lw_pc = (\<lambda>_. Outside)(1 := Inside ''a'', 2 := Inside ''b''),
      lw_refreshers = {(''a'', 0), (''b'', 1)}, lw_closed = {}, lw_tokens = [''a'' \<mapsto> 0, ''b'' \<mapsto> 0], lw_chans = 2\<rparr>"

definition stolen_after :: lock_world where
  "stolen_after =
     \<lparr>lw_server = \<lparr>sv_keys = [''lock'' \<mapsto> (''c'', 20)], sv_now = 10\<rparr>,
      lw_locks = (\<lambda>_. new_redisLock)(1 := \<lparr>lk_token = ''c'', lk_stopChan = Some 2\<rparr>),
      lw_pc = (\<lambda>_. Outside)(2 := Inside ''b'', 3 := Inside ''c''),
      lw_refreshers = {(''a'', 0), (''b'', 1), (''c'', 2)}, lw_closed = {1},
      lw_tokens = [''a'' \<mapsto> 0, ''b'' \<mapsto> 0, ''c'' \<mapsto> 1], lw_chans = 3\<rparr>"

abbreviation demo_lock_step :: "lock_world \<Rightarrow> lock_world \<Rightarrow> bool" where
  "demo_lock_step \<equiv> lock_step False ''lock'' 10 demo_procs"

text \<open>A step to a given state.\<close>

lemma step_to: "demo_lock_step w v \<Longrightarrow> v = w' \<Longrightarrow> demo_lock_step w w'"
  by simp

lemmas lock_eval = lock_start_def new_redisLock_def SetNX_def redis_get_def releaseLockScript_def lock_fields_def unlock_fields_def
  demo_procs_def fun_eq_iff

lemma stolen_before_reachable: "lock_reachable False ''lock'' 10 demo_procs 0 stolen_before"
proof -
  let ?pc = "\<lambda>a b. (\<lambda>_. Outside)(1 := a, 2 := b)" and ?L = "\<lambda>_. new_redisLock"
  define w1 where "w1 = (lock_start 0)\<lparr>lw_server := \<lparr>sv_keys = [''lock'' \<mapsto> (''a'', 10)], sv_now = 0\<rparr>,
    lw_pc := ?pc (Acquired ''a'') Outside, lw_tokens := [''a'' \<mapsto> 0]\<rparr>"
  define w2 where "w2 = w1\<lparr>lw_locks := ?L(0 := \<lparr>lk_token = ''a'', lk_stopChan = Some 0\<rparr>),
    lw_refreshers := {(''a'', 0)}, lw_chans := 1, lw_pc := ?pc (Inside ''a'') Outside\<rparr>"
  define w3 where "w3 = w2\<lparr>lw_server := \<lparr>sv_keys = [''lock'' \<mapsto> (''a'', 10)], sv_now = 10\<rparr>\<rparr>"
  define w4 where "w4 = w3\<lparr>lw_server := \<lparr>sv_keys = [''lock'' \<mapsto> (''b'', 20)], sv_now = 10\<rparr>,
    lw_pc := ?pc (Inside ''a'') (Acquired ''b''), lw_tokens := [''a'' \<mapsto> 0, ''b'' \<mapsto> 0]\<rparr>"
  note defs = w1_def w2_def w3_def w4_def
  have "demo_lock_step (lock_start 0) w1"
    by (rule step_to [OF lock_step.acquire [of _ 1 "''a''" _ _ "\<lparr>sv_keys = [''lock'' \<mapsto> (''a'', 10)], sv_now = 0\<rparr>"]]) (simp_all add: defs lock_eval)
  moreover have "demo_lock_step w1 w2"
    by (rule step_to [OF lock_step.locked [of _ 1 "''a''"]]) (simp_all add: defs lock_eval)
  moreover have "demo_lock_step w2 w3"
    by (rule lock_step.tick [of 10]) (simp_all add: defs lock_eval)
  moreover have "demo_lock_step w3 w4"
    by (rule step_to [OF lock_step.acquire [of _ 2 "''b''" _ _ "\<lparr>sv_keys = [''lock'' \<mapsto> (''b'', 20)], sv_now = 10\<rparr>"]]) (simp_all add: defs lock_eval)
  moreover have "demo_lock_step w4 stolen_before"
    by (rule step_to [OF lock_step.locked [of _ 2 "''b''"]]) (auto simp: defs lock_eval stolen_before_def)
  ultimately show ?thesis by (meson lock_reachable.intros)
qed

lemma stolen_run: "(demo_lock_step)\<^sup>*\<^sup>* stolen_before stolen_after"
proof -
  let ?pc = "\<lambda>a b c. (\<lambda>_. Outside)(1 := a, 2 := b, 3 := c)"
  define w1 where "w1 = stolen_before\<lparr>lw_locks := (\<lambda>_. new_redisLock), lw_closed := {1},
    lw_pc := ?pc (Releasing ''b'') (Inside ''b'') Outside\<rparr>"
  define w2 where "w2 = w1\<lparr>lw_server := \<lparr>sv_keys = Map.empty, sv_now = 10\<rparr>, lw_pc := ?pc Outside (Inside ''b'') Outside\<rparr>"
  define w3 where "w3 = w2\<lparr>lw_server := \<lparr>sv_keys = [''lock'' \<mapsto> (''c'', 20)], sv_now = 10\<rparr>,
    lw_pc := ?pc Outside (Inside ''b'') (Acquired ''c''), lw_tokens := [''a'' \<mapsto> 0, ''b'' \<mapsto> 0, ''c'' \<mapsto> 1]\<rparr>"
  note defs = w1_def w2_def w3_def stolen_before_def
  have "demo_lock_step stolen_before w1"
    by (rule step_to [OF lock_step.unlock [of _ 1 "''a''" _ "''b''" 1 new_redisLock]]) (auto simp: defs lock_eval)
  moreover have "demo_lock_step w1 w2"
    by (rule step_to [OF lock_step.release [of _ 1 "''b''"]]) (auto simp: defs lock_eval)
  moreover have "demo_lock_step w2 w3"
    by (rule step_to [OF lock_step.acquire [of _ 3 "''c''" _ _ "\<lparr>sv_keys = [''lock'' \<mapsto> (''c'', 20)], sv_now = 10\<rparr>"]]) (auto simp: defs lock_eval)
  moreover have "demo_lock_step w3 stolen_after"
    by (rule step_to [OF lock_step.locked [of _ 3 "''c''"]]) (auto simp: defs lock_eval stolen_after_def)
  ultimately show ?thesis by (meson converse_rtranclp_into_rtranclp rtranclp.rtrancl_refl)
qed

end
