(* ===== verification/Redis_Store.thy ===== *)
theory Redis_Store
  imports Redis_Lock Cert_Manager "HOL-Library.AList"
begin

text \<open>
  \<^verbatim>\<open>certificate/store_redis.go\<close>: the store that keeps certificates in a Redis hash, shared by several
  Centauri instances. The lock itself is in the theory \<open>Redis_Lock\<close>; here is the store with its lock objects.

  A value of the hash is a text. \<^term>\<open>Marshalled d\<close> is what \<^verbatim>\<open>json.Marshal\<close> writes for the details \<open>d\<close>, and
  \<^term>\<open>OtherText s r\<close> any other text, with what \<^verbatim>\<open>json.Unmarshal\<close> makes of it. Equal texts are equal values.
\<close>

datatype redis_value = Marshalled Details | OtherText string "Details option"

fun Unmarshal :: "redis_value \<Rightarrow> Details option" where
  "Unmarshal (Marshalled d) = Some (forget_staple d)"
| "Unmarshal (OtherText s r) = map_option forget_staple r"

type_synonym redis_hash = "(string \<times> redis_value) list"

text \<open>What happens to a request: it is answered, it fails before it is executed, or it is executed and the answer is lost.\<close>

datatype reply = Answered | NotExecuted string | AnswerLost string

text \<open>What the \<open>k\<close>-th request meets. \<open>re_order\<close> is the order in which Go ranges over the map of an answer, \<open>re_others\<close> what
  other instances do to the hash between the two requests of a save, \<open>re_setnx\<close> the answer of an attempt to lock.\<close>

record redis_env =
  re_outcome :: "nat \<Rightarrow> reply"
  re_order :: "nat \<Rightarrow> redis_hash \<Rightarrow> redis_hash"
  re_others :: "nat \<Rightarrow> redis_hash \<Rightarrow> redis_hash"
  re_setnx :: "nat \<Rightarrow> (string, bool) result"
  re_token :: "nat \<Rightarrow> string"
  re_marshal :: "nat \<Rightarrow> string option"

record RedisStore =
  rs_keyPrefix :: string
  rs_locks :: "string \<rightharpoonup> redisLock"
  rs_hash :: redis_hash
  rs_env :: redis_env
  rs_requests :: nat

type_synonym 'e redis_world = "(RedisStore, 'e) World"

definition set_redis :: "(RedisStore \<Rightarrow> RedisStore) \<Rightarrow> 'e redis_world \<Rightarrow> 'e redis_world" where
  "set_redis f w = w\<lparr>w_store := f (w_store w)\<rparr>"

text \<open>The store is created if the server answers a ping.\<close>

definition NewRedisStore :: "reply \<Rightarrow> string \<Rightarrow> redis_hash \<Rightarrow> redis_env \<Rightarrow> (string, RedisStore) result" where
  "NewRedisStore ping keyPrefix h env =
     (case ping of
        Answered \<Rightarrow> Ok \<lparr>rs_keyPrefix = keyPrefix, rs_locks = Map.empty, rs_hash = h, rs_env = env, rs_requests = 0\<rparr>
      | NotExecuted err \<Rightarrow> Error (''unable to reach redis: '' @ err)
      | AnswerLost err \<Rightarrow> Error (''unable to reach redis: '' @ err))"

text \<open>The options of the program, and the client that is made from them. The server name for TLS is the host of the address.\<close>

record RedisOptions =
  ro_Addr :: string
  ro_Username :: string
  ro_Password :: string
  ro_DB :: int
  ro_KeyPrefix :: string
  ro_UseTLS :: bool

record redis_client =
  rc_Addr :: string
  rc_Username :: string
  rc_Password :: string
  rc_DB :: int
  rc_ServerName :: "string option"

definition hostFromAddress :: "string \<Rightarrow> string" where
  "hostFromAddress address = (case split_host_port address of Inr (host, _) \<Rightarrow> host | Inl _ \<Rightarrow> address)"

definition NewRedisStoreFromOptions ::
  "(redis_client \<Rightarrow> reply) \<Rightarrow> RedisOptions \<Rightarrow> redis_hash \<Rightarrow> redis_env \<Rightarrow> (string, RedisStore) result" where
  "NewRedisStoreFromOptions ping options h env =
     (let opts = \<lparr>rc_Addr = ro_Addr options, rc_Username = ro_Username options, rc_Password = ro_Password options,
            rc_DB = ro_DB options,
            rc_ServerName = (if ro_UseTLS options then Some (hostFromAddress (ro_Addr options)) else None)\<rparr>
      in NewRedisStore (ping opts) (ro_KeyPrefix options) h env)"

text \<open>Its stub in builds without Redis.\<close>

definition NewRedisStoreFromOptions_disabled :: "RedisOptions \<Rightarrow> (string, RedisStore) result" where
  "NewRedisStoreFromOptions_disabled options = Error ''redis certificate store is not compiled in (built with the noredis tag)''"

subsection \<open>Keys\<close>

definition sortedCopy :: "string list \<Rightarrow> string list" where
  "sortedCopy names = sort names"

definition certificateKey :: "string \<Rightarrow> string \<Rightarrow> string list \<Rightarrow> string" where
  "certificateKey provider subjectName altNames = join '';'' ([provider, subjectName] @ sortedCopy altNames)"

definition namesKey :: "string \<Rightarrow> string list \<Rightarrow> string" where
  "namesKey subjectName altNames = join '';'' ([subjectName] @ sortedCopy altNames)"

subsection \<open>Lookups\<close>

text \<open>\<^verbatim>\<open>HGetAll\<close>: the answer, ranged over in some order.\<close>

definition storedCertificates :: "'e redis_world \<Rightarrow> (string, redis_hash) result \<times> 'e redis_world" where
  "storedCertificates w =
     (let r = w_store w; k = rs_requests r; w' = set_redis (\<lambda>r. r\<lparr>rs_requests := Suc k\<rparr>) w in
      case re_outcome (rs_env r) k of
        Answered \<Rightarrow> (Ok (re_order (rs_env r) k (rs_hash r)), w')
      | NotExecuted err \<Rightarrow> (Error err, w')
      | AnswerLost err \<Rightarrow> (Error err, w'))"

definition allCertificates :: "'e redis_world \<Rightarrow> (string, cert_ref list) result \<times> 'e redis_world" where
  "allCertificates w =
     (case storedCertificates w of
        (Inl err, w') \<Rightarrow> (Error err, w')
      | (Inr stored, w') \<Rightarrow>
          (let (refs, w2) = alloc_details (List.map_filter (\<lambda>(key, raw). Unmarshal raw) stored) w' in (Ok refs, w2)))"

text \<open>The loop over the certificates is the one of the JSON store.\<close>

definition RedisStore_GetCertificate ::
  "string \<Rightarrow> string \<Rightarrow> string list \<Rightarrow> 'e redis_world \<Rightarrow> cert_ref option \<times> 'e redis_world" where
  "RedisStore_GetCertificate provider subjectName altNames w =
     (case allCertificates w of
        (Inl err, w') \<Rightarrow> (None, w')
      | (Inr certificates, w') \<Rightarrow> (lookup_loop (w_heap w') provider subjectName altNames certificates None, w'))"

subsection \<open>Saving\<close>

text \<open>The entries to prune: those that cannot be decoded, and those whose certificate has expired at the moment
  the loop looks at it.\<close>

fun prune_args :: "redis_hash \<Rightarrow> 'e redis_world \<Rightarrow> redis_hash \<times> 'e redis_world" where
  "prune_args [] w = ([], w)"
| "prune_args ((field, raw) # stored) w =
     (case Unmarshal raw of
        None \<Rightarrow> (let (args, w') = prune_args stored w in ((field, raw) # args, w'))
      | Some existing \<Rightarrow>
          (let (now, w1) = time_now w; (args, w') = prune_args stored w1
           in (if \<not> ValidFor now 0 existing then (field, raw) # args else args, w')))"

text \<open>The script compares each value with the one that was read.\<close>

fun pruneCertificatesScript :: "redis_hash \<Rightarrow> redis_hash \<Rightarrow> redis_hash" where
  "pruneCertificatesScript [] h = h"
| "pruneCertificatesScript ((field, raw) # args) h =
     pruneCertificatesScript args (if map_of h field = Some raw then AList.delete field h else h)"

text \<open>The transaction.\<close>

definition save_transaction :: "redis_hash \<Rightarrow> string \<Rightarrow> redis_value \<Rightarrow> redis_hash \<Rightarrow> redis_hash" where
  "save_transaction pruneArgs key b h =
     AList.update key b (if 0 < length pruneArgs then pruneCertificatesScript pruneArgs h else h)"

definition RedisStore_SaveCertificate :: "cert_ref \<Rightarrow> 'e redis_world \<Rightarrow> string option \<times> 'e redis_world" where
  "RedisStore_SaveCertificate ref w =
     (case storedCertificates w of
        (Inl err, w1) \<Rightarrow> (Some err, w1)
      | (Inr stored, w1) \<Rightarrow>
     (let env = rs_env (w_store w1); k = rs_requests (w_store w1); cert = w_heap w ref in
      case re_marshal env k of
        Some err \<Rightarrow> (Some err, w1)
      | None \<Rightarrow>
     (let (pruneArgs, w2) = prune_args stored w1;
          key = certificateKey (det_Provider cert) (det_Subject cert) (AltNames cert);
          h = re_others env k (rs_hash (w_store w2));
          h' = save_transaction pruneArgs key (Marshalled (forget_staple cert)) h
      in case re_outcome env k of
           Answered \<Rightarrow> (None, set_redis (\<lambda>r. r\<lparr>rs_hash := h', rs_requests := Suc k\<rparr>) w2)
         | NotExecuted err \<Rightarrow> (Some err, set_redis (\<lambda>r. r\<lparr>rs_hash := h, rs_requests := Suc k\<rparr>) w2)
         | AnswerLost err \<Rightarrow> (Some err, set_redis (\<lambda>r. r\<lparr>rs_hash := h', rs_requests := Suc k\<rparr>) w2))))"

subsection \<open>Locking\<close>

text \<open>The key of the hash with the certificates, which is \<open>rs_hash\<close> of the store.\<close>

definition certificatesKey :: "string \<Rightarrow> string" where
  "certificatesKey keyPrefix = keyPrefix @ '':certificates''"

definition lock_name :: "string \<Rightarrow> string \<Rightarrow> string list \<Rightarrow> string" where
  "lock_name keyPrefix subjectName altNames = keyPrefix @ '':lock:'' @ namesKey subjectName altNames"

definition redis_lockFor :: "string \<Rightarrow> string list \<Rightarrow> 'e redis_world \<Rightarrow> string \<times> 'e redis_world" where
  "redis_lockFor subjectName altNames w =
     (let key = lock_name (rs_keyPrefix (w_store w)) subjectName altNames in
      case rs_locks (w_store w) key of
        Some lock \<Rightarrow> (key, w)
      | None \<Rightarrow> (key, set_redis (\<lambda>r. r\<lparr>rs_locks := (rs_locks r)(key \<mapsto> new_redisLock)\<rparr>) w))"

text \<open>\<^verbatim>\<open>Lock\<close> tries until it succeeds: the number of the request that does, or \<^const>\<open>None\<close> if none ever does.\<close>

partial_function (option) Lock_loop :: "(nat \<Rightarrow> (string, bool) result) \<Rightarrow> nat \<Rightarrow> nat option" where
  [code]: "Lock_loop setnx k =
     (case setnx k of
        Inl err \<Rightarrow> Lock_loop setnx (Suc k)
      | Inr acquired \<Rightarrow> if acquired then Some k else Lock_loop setnx (Suc k))"

definition RedisStore_LockCertificate :: "string \<Rightarrow> string list \<Rightarrow> 'e redis_world \<Rightarrow> 'e redis_world option" where
  "RedisStore_LockCertificate subjectName altNames w =
     (let (key, w') = redis_lockFor subjectName altNames w; r = w_store w' in
      case Lock_loop (re_setnx (rs_env r)) (rs_requests r) of
        None \<Rightarrow> None
      | Some k \<Rightarrow> Some (set_redis (\<lambda>r. r\<lparr>rs_requests := Suc k, rs_locks :=
          (rs_locks r)(key \<mapsto> lock_fields (re_token (rs_env r) k) k (the (rs_locks r key)))\<rparr>) w'))"

text \<open>Unlocking a lock that is not held does nothing. Closing a nil channel panics. The release script's outcome is only logged.\<close>

definition RedisStore_UnlockCertificate :: "string \<Rightarrow> string list \<Rightarrow> 'e redis_world \<Rightarrow> 'e redis_world option" where
  "RedisStore_UnlockCertificate subjectName altNames w =
     (let (key, w') = redis_lockFor subjectName altNames w;
          ((token, stop), l) = unlock_fields (the (rs_locks (w_store w') key));
          w2 = set_redis (\<lambda>r. r\<lparr>rs_locks := (rs_locks r)(key \<mapsto> l)\<rparr>) w'
      in if token = [] then Some w2
         else if stop = None then None
         else Some (set_redis (\<lambda>r. r\<lparr>rs_requests := Suc (rs_requests r)\<rparr>) w2))"

definition redis_store :: "(RedisStore, 'e) Store" where
  "redis_store =
     \<lparr>StoreGetCertificate = RedisStore_GetCertificate, SaveCertificate = RedisStore_SaveCertificate,
      LockCertificate = RedisStore_LockCertificate, UnlockCertificate = RedisStore_UnlockCertificate\<rparr>"

subsection \<open>Keys identify certificates\<close>

lemma certificatesKey_is_no_lock: "certificatesKey p \<noteq> lock_name p s as"
  by (simp add: certificatesKey_def lock_name_def)

lemma certificateKey_cong: "mset as = mset as' \<Longrightarrow> certificateKey p s as = certificateKey p s as'"
  by (simp add: certificateKey_def sortedCopy_def flip: sort_eq_iff_mset)

lemma no_separator_sorted: "\<forall>a \<in> set as. CHR '';'' \<notin> set a \<Longrightarrow> \<forall>a \<in> set (sortedCopy as). CHR '';'' \<notin> set a"
  by (simp add: sortedCopy_def)

lemma certificateKey_inject:
  assumes "\<forall>n \<in> {p, s} \<union> set as. CHR '';'' \<notin> set n" "\<forall>n \<in> {p', s'} \<union> set as'. CHR '';'' \<notin> set n"
  shows "certificateKey p s as = certificateKey p' s' as' \<longleftrightarrow> p = p' \<and> s = s' \<and> mset as = mset as'"
proof -
  have "certificateKey p s as = certificateKey p' s' as' \<longleftrightarrow> [p, s] @ sortedCopy as = [p', s'] @ sortedCopy as'"
    unfolding certificateKey_def using assms by (intro join_inject) (auto simp: sortedCopy_def)
  then show ?thesis by (auto simp: sortedCopy_def sort_eq_iff_mset)
qed

lemma namesKey_inject:
  assumes "\<forall>n \<in> {s} \<union> set as. CHR '';'' \<notin> set n" "\<forall>n \<in> {s'} \<union> set as'. CHR '';'' \<notin> set n"
  shows "namesKey s as = namesKey s' as' \<longleftrightarrow> s = s' \<and> mset as = mset as'"
proof -
  have "namesKey s as = namesKey s' as' \<longleftrightarrow> [s] @ sortedCopy as = [s'] @ sortedCopy as'"
    unfolding namesKey_def using assms by (intro join_inject) (auto simp: sortedCopy_def)
  then show ?thesis by (auto simp: sortedCopy_def sort_eq_iff_mset)
qed

subsection \<open>What a save removes\<close>

lemma prune_args_frame:
  "prune_args stored w = (args, w') \<Longrightarrow>
   world_frame w w' \<and> w_store w' = w_store w \<and> w_heap w' = w_heap w \<and> w_next w' = w_next w \<and> w_env w' = w_env w"
proof (induction stored arbitrary: w args)
  case (Cons e stored)
  show ?case
  proof (cases "Unmarshal (snd e)")
    case None
    with Cons show ?thesis by (cases e) (auto split: prod.splits)
  next
    case (Some d)
    obtain args' where "prune_args stored (snd (time_now w)) = (args', w')"
      using Cons.prems Some by (cases e) (auto split: prod.splits)
    from Cons.IH [OF this] show ?thesis
      using world_frame_trans [OF tick_frame [of w], of w'] by (simp add: time_now_def)
  qed
qed simp

text \<open>Every entry to prune cannot be decoded or has expired by a clock reading of this save.\<close>

definition dead :: "'e redis_world \<Rightarrow> redis_value \<Rightarrow> bool" where
  "dead w raw \<longleftrightarrow> (\<forall>d. Unmarshal raw = Some d \<longrightarrow> (\<exists>k \<ge> w_tick w. \<not> ValidFor (w_clock w k) 0 d))"

lemma dead_later: "dead (w\<lparr>w_tick := Suc (w_tick w)\<rparr>) raw \<Longrightarrow> dead w raw"
  unfolding dead_def by (auto dest: Suc_leD)

lemma prune_args_dead:
  "prune_args stored w = (args, w') \<Longrightarrow> (field, raw) \<in> set args \<Longrightarrow> (field, raw) \<in> set stored \<and> dead w raw"
proof (induction stored arbitrary: w args)
  case (Cons e stored)
  obtain f v where e: "e = (f, v)" by fastforce
  show ?case
  proof (cases "Unmarshal v")
    case None
    obtain args' where a: "prune_args stored w = (args', w')" "args = (f, v) # args'"
      using Cons.prems(1) None e by (auto split: prod.splits)
    moreover have "dead w v" using None by (simp add: dead_def)
    ultimately show ?thesis using Cons.IH [OF a(1)] Cons.prems(2) e by auto
  next
    case (Some d)
    obtain args' where a: "prune_args stored (w\<lparr>w_tick := Suc (w_tick w)\<rparr>) = (args', w')"
      and args: "args = (if \<not> ValidFor (w_clock w (w_tick w)) 0 d then (f, v) # args' else args')"
      using Cons.prems(1) Some e by (auto simp: time_now_def split: prod.splits)
    have "(field, raw) \<in> set args' \<Longrightarrow> (field, raw) \<in> set stored \<and> dead w raw"
      using Cons.IH [OF a] dead_later by blast
    moreover have "\<not> ValidFor (w_clock w (w_tick w)) 0 d \<Longrightarrow> dead w v" using Some by (auto simp: dead_def)
    ultimately show ?thesis using Cons.prems(2) args e by (auto split: if_splits)
  qed
qed simp

lemma prune_script_map:
  "distinct (map fst args) \<Longrightarrow> map_of (pruneCertificatesScript args h) f =
     (if \<exists>raw. (f, raw) \<in> set args \<and> map_of h f = Some raw then None else map_of h f)"
proof (induction args arbitrary: h)
  case (Cons a args)
  obtain g raw where a: "a = (g, raw)" by fastforce
  let ?h = "if map_of h g = Some raw then AList.delete g h else h"
  have h: "map_of ?h f = (if f = g \<and> map_of h g = Some raw then None else map_of h f)"
    by (auto simp: delete_conv')
  have "f = g \<Longrightarrow> (f, raw') \<notin> set args" for raw' using Cons.prems a by force
  with Cons a h show ?case by auto
qed simp

lemma prune_script_distinct: "distinct (map fst h) \<Longrightarrow> distinct (map fst (pruneCertificatesScript args h))"
  by (induction args arbitrary: h) (auto simp: distinct_delete)

lemma prune_args_distinct: "prune_args stored w = (args, w') \<Longrightarrow> distinct (map fst stored) \<Longrightarrow> distinct (map fst args)"
proof (induction stored arbitrary: w args)
  case (Cons e stored)
  obtain f v where e: "e = (f, v)" by fastforce
  obtain args' w1 where a: "prune_args stored w1 = (args', w')" "args = e # args' \<or> args = args'"
    using Cons.prems(1) e by (auto split: prod.splits option.splits if_splits)
  have "f \<notin> fst ` set args'" using prune_args_dead [OF a(1)] Cons.prems(2) e by force
  with Cons.IH [OF a(1)] Cons.prems(2) a(2) e show ?case by auto
qed simp

subsection \<open>The invariant\<close>

text \<open>Every certificate in the hash is under the key of its names and can be decoded. All instances keep
  this, and what Go's \<^verbatim>\<open>range\<close> yields is the map in some order.\<close>

definition entry_ok :: "(string \<Rightarrow> pem_result) \<Rightarrow> string \<times> redis_value \<Rightarrow> bool" where
  "entry_ok pe e \<longleftrightarrow> (\<forall>d. Unmarshal (snd e) = Some d \<longrightarrow>
     fst e = certificateKey (det_Provider d) (det_Subject d) (AltNames d) \<and> decodes pe d)"

definition hash_ok :: "(string \<Rightarrow> pem_result) \<Rightarrow> redis_hash \<Rightarrow> bool" where
  "hash_ok pe h \<longleftrightarrow> distinct (map fst h) \<and> (\<forall>e \<in> set h. entry_ok pe e)"

definition redis_env_ok :: "(string \<Rightarrow> pem_result) \<Rightarrow> redis_env \<Rightarrow> bool" where
  "redis_env_ok pe env \<longleftrightarrow> (\<forall>k h. mset (re_order env k h) = mset h) \<and> (\<forall>k h. hash_ok pe h \<longrightarrow> hash_ok pe (re_others env k h))"

definition redis_inv :: "(string \<Rightarrow> pem_result) \<Rightarrow> 'e redis_world \<Rightarrow> bool" where
  "redis_inv pe w \<longleftrightarrow> hash_ok pe (rs_hash (w_store w)) \<and> redis_env_ok pe (rs_env (w_store w))"

text \<open>Which lock objects of this process have a token; and attempts to lock succeed again and again: no other instance
  keeps a lock, and no outage lasts, for ever.\<close>

definition held_name :: "string \<Rightarrow> (string \<times> string list) option \<Rightarrow> string option" where
  "held_name keyPrefix l = map_option (\<lambda>(s, as). lock_name keyPrefix s as) l"

definition lock_env_ok :: "redis_env \<Rightarrow> bool" where
  "lock_env_ok env \<longleftrightarrow> (\<forall>n. \<exists>k \<ge> n. re_setnx env k = Ok True) \<and> (\<forall>k. re_token env k \<noteq> [])"

definition has_token :: "redisLock option \<Rightarrow> bool" where
  "has_token lk \<longleftrightarrow> (case lk of None \<Rightarrow> False | Some l \<Rightarrow> lk_token l \<noteq> [])"

definition locks_ok :: "(string \<rightharpoonup> redisLock) \<Rightarrow> string option \<Rightarrow> bool" where
  "locks_ok locks name \<longleftrightarrow>
     (\<forall>key. has_token (locks key) \<longleftrightarrow> name = Some key) \<and>
     (\<forall>key lk. locks key = Some lk \<longrightarrow> lk_token lk \<noteq> [] \<longrightarrow> lk_stopChan lk \<noteq> None)"

definition redis_locked :: "(string \<times> string list) option \<Rightarrow> 'e redis_world \<Rightarrow> bool" where
  "redis_locked l w \<longleftrightarrow>
     lock_env_ok (rs_env (w_store w)) \<and> locks_ok (rs_locks (w_store w)) (held_name (rs_keyPrefix (w_store w)) l)"

lemma forget_staple_idem [simp]: "forget_staple (forget_staple d) = forget_staple d"
  by (simp add: forget_staple_def)

lemma hash_okD: "hash_ok pe h \<Longrightarrow> (f, v) \<in> set h \<Longrightarrow> Unmarshal v = Some d \<Longrightarrow>
    f = certificateKey (det_Provider d) (det_Subject d) (AltNames d) \<and> decodes pe d"
  by (auto simp: hash_ok_def entry_ok_def)

lemma hash_ok_order:
  assumes "hash_ok pe h" "mset h' = mset h"
  shows "hash_ok pe h'"
proof -
  have "mset (map fst h') = mset (map fst h)" "set h' = set h"
    using assms(2) mset_eq_setD [of h' h] by auto
  then show ?thesis
    using assms(1) mset_eq_imp_distinct_iff [of "map fst h'" "map fst h"] unfolding hash_ok_def by auto
qed

lemma hash_ok_subset: "hash_ok pe h \<Longrightarrow> distinct (map fst h') \<Longrightarrow> set h' \<subseteq> set h \<Longrightarrow> hash_ok pe h'"
  unfolding hash_ok_def by blast

lemma prune_script_subset: "set (pruneCertificatesScript args h) \<subseteq> set h"
proof (induction args arbitrary: h)
  case (Cons a args)
  obtain f raw where a: "a = (f, raw)" by fastforce
  have "set (AList.delete f h) \<subseteq> set h" by (auto simp: AList.delete_eq)
  with Cons [of h] Cons [of "AList.delete f h"] a show ?case by auto
qed simp

lemma hash_ok_update:
  assumes "hash_ok pe h" "entry_ok pe (k, v)"
  shows "hash_ok pe (AList.update k v h)"
proof -
  have d: "distinct (map fst (AList.update k v h))" using assms(1) by (simp add: hash_ok_def distinct_update)
  have "entry_ok pe (f, r)" if "(f, r) \<in> set (AList.update k v h)" for f r
  proof -
    have "map_of (AList.update k v h) f = Some r" using that d by simp
    then have "f = k \<and> r = v \<or> (f, r) \<in> set h" by (auto simp: update_conv' split: if_splits dest: map_of_SomeD)
    with assms show ?thesis by (auto simp: hash_ok_def)
  qed
  with d show ?thesis by (auto simp: hash_ok_def)
qed

lemma own_entry_ok:
  "decodes pe d \<Longrightarrow>
   entry_ok pe (certificateKey (det_Provider d) (det_Subject d) (AltNames d), Marshalled (forget_staple d))"
  by (simp add: entry_ok_def forget_staple_def decodes_def)

lemma save_transaction_ok:
  assumes "hash_ok pe h" "decodes pe d"
  shows "hash_ok pe (save_transaction args (certificateKey (det_Provider d) (det_Subject d) (AltNames d))
    (Marshalled (forget_staple d)) h)"
proof -
  have "hash_ok pe (pruneCertificatesScript args h)"
    using assms(1) prune_script_subset prune_script_distinct by (intro hash_ok_subset [OF assms(1)]) (auto simp: hash_ok_def)
  with assms show ?thesis by (simp add: save_transaction_def hash_ok_update own_entry_ok)
qed

subsection \<open>The effect of the operations\<close>

lemma set_redis_simps [simp]:
  "w_store (set_redis f w) = f (w_store w)" "w_heap (set_redis f w) = w_heap w" "w_next (set_redis f w) = w_next w"
  "w_env (set_redis f w) = w_env w" "w_clock (set_redis f w) = w_clock w" "w_tick (set_redis f w) = w_tick w"
  by (simp_all add: set_redis_def)

lemma set_redis_frame [simp]: "heap_frame w (set_redis f w)"
  by (simp add: heap_frame_def)

lemma heap_decodes_cong: "w_heap w' = w_heap w \<Longrightarrow> w_next w' = w_next w \<Longrightarrow> heap_decodes pe w' = heap_decodes pe w"
  by (simp add: heap_decodes_def)

lemma storedCertificates_effect:
  assumes "storedCertificates w = (res, w')"
  shows "w' = set_redis (\<lambda>r. r\<lparr>rs_requests := Suc (rs_requests r)\<rparr>) w"
    and "redis_inv pe w \<Longrightarrow> res = Ok h \<Longrightarrow> mset h = mset (rs_hash (w_store w))"
  using assms by (auto simp: storedCertificates_def set_redis_def Let_def redis_inv_def redis_env_ok_def split: reply.splits)

lemma alloc_details_env: "alloc_details ds w = (refs, w') \<Longrightarrow> w_env w' = w_env w"
  by (induction ds arbitrary: w refs) (auto simp: new_details_def Let_def split: prod.splits)

lemma alloc_details_decodes:
  "alloc_details ds w = (refs, w') \<Longrightarrow> \<forall>d \<in> set ds. decodes pe d \<Longrightarrow> heap_decodes pe w \<Longrightarrow> heap_decodes pe w'"
proof (induction ds arbitrary: w refs)
  case (Cons d ds)
  let ?w = "snd (new_details d w)"
  obtain refs' where "alloc_details ds ?w = (refs', w')" using Cons.prems(1) by (auto split: prod.splits)
  moreover have "heap_decodes pe ?w"
    using Cons.prems(2,3) by (auto simp: heap_decodes_def new_details_def less_Suc_eq)
  ultimately show ?case using Cons.IH Cons.prems(2) by simp
qed simp

lemma lookup_loop_sound:
  "lookup_loop h p s as cs legacy = Some c \<Longrightarrow>
   legacy = Some c \<or> (c \<in> set cs \<and> IsFor s as (h c) \<and> (det_Provider (h c) = p \<or> det_Provider (h c) = []))"
  by (induction cs arbitrary: legacy) (auto split: if_splits)

definition stored_details :: "redis_hash \<Rightarrow> Details list" where
  "stored_details h = List.map_filter (\<lambda>(key, raw). Unmarshal raw) h"

lemma stored_details_iff: "d \<in> set (stored_details h) \<longleftrightarrow> (\<exists>f v. (f, v) \<in> set h \<and> Unmarshal v = Some d)"
  by (force simp: stored_details_def List.map_filter_def)

lemma redis_lookup_cases:
  assumes "redis_inv pe w" "RedisStore_GetCertificate p s as w = (r, w')"
  obtains (failed) "r = None" "w' = set_redis (\<lambda>r. r\<lparr>rs_requests := Suc (rs_requests r)\<rparr>) w"
  | (answered) h refs w1 where "w1 = set_redis (\<lambda>r. r\<lparr>rs_requests := Suc (rs_requests r)\<rparr>) w"
      "mset h = mset (rs_hash (w_store w))" "alloc_details (stored_details h) w1 = (refs, w')"
      "r = lookup_loop (w_heap w') p s as refs None"
proof -
  obtain res w1 where 1: "storedCertificates w = (res, w1)" by fastforce
  note e = storedCertificates_effect [OF 1]
  show thesis
  proof (cases res)
    case (Inl err)
    with 1 assms(2) have "r = None" "w' = w1" by (simp_all add: RedisStore_GetCertificate_def allCertificates_def)
    with e(1) failed show thesis by blast
  next
    case (Inr h)
    obtain refs w2 where "alloc_details (stored_details h) w1 = (refs, w2)" by fastforce
    moreover from this have "r = lookup_loop (w_heap w2) p s as refs None \<and> w' = w2"
      using 1 Inr assms(2) by (auto simp: RedisStore_GetCertificate_def allCertificates_def stored_details_def)
    ultimately show thesis using e(1) e(2) [OF assms(1) Inr] answered [of w1 h refs] by blast
  qed
qed

text \<open>What a lookup returns is in the hash, under the key of the names asked for.\<close>

lemma redis_lookup_found:
  assumes "redis_inv pe w" "RedisStore_GetCertificate p s as w = (Some ref, w')"
  shows "w_next w \<le> ref \<and> ref < w_next w' \<and> IsFor s as (w_heap w' ref) \<and>
    (det_Provider (w_heap w' ref) = p \<or> det_Provider (w_heap w' ref) = []) \<and>
    (\<exists>v. map_of (rs_hash (w_store w)) (certificateKey (det_Provider (w_heap w' ref)) s as) = Some v \<and>
      Unmarshal v = Some (w_heap w' ref))"
  using assms
proof (cases rule: redis_lookup_cases)
  case (answered h refs w1)
  have c: "ref \<in> set refs" "IsFor s as (w_heap w' ref)" "det_Provider (w_heap w' ref) = p \<or> det_Provider (w_heap w' ref) = []"
    using lookup_loop_sound [OF answered(4) [symmetric]] by auto
  have "list_all2 (\<lambda>d ref. w_heap w' ref = d \<and> w_next w1 \<le> ref \<and> ref < w_next w') (stored_details h) refs"
    using alloc_details_all [OF answered(3)] by blast
  with c(1) have r: "w_heap w' ref \<in> set (stored_details h)" "w_next w1 \<le> ref" "ref < w_next w'"
    by (auto simp: in_set_conv_nth list_all2_conv_all_nth)
  then obtain f v where v: "(f, v) \<in> set h" "Unmarshal v = Some (w_heap w' ref)" by (auto simp: stored_details_iff)
  then have in_hash: "(f, v) \<in> set (rs_hash (w_store w))" using mset_eq_setD [OF answered(2)] by blast
  have ok: "hash_ok pe (rs_hash (w_store w))" using assms(1) by (simp add: redis_inv_def)
  have "f = certificateKey (det_Provider (w_heap w' ref)) s as"
    using hash_okD [OF ok in_hash v(2)] c(2) certificateKey_cong unfolding IsFor_iff by metis
  moreover have "map_of (rs_hash (w_store w)) f = Some v" using ok in_hash by (simp add: hash_ok_def)
  ultimately show ?thesis using c r v answered(1) by auto
qed simp

lemma redis_lookup_frame:
  assumes "redis_inv pe w" "RedisStore_GetCertificate p s as w = (r, w')"
  shows "heap_frame w w' \<and> w_env w' = w_env w \<and> redis_inv pe w' \<and> (redis_locked l w \<longrightarrow> redis_locked l w') \<and>
    (heap_decodes pe w \<longrightarrow> heap_decodes pe w')"
  using assms
proof (cases rule: redis_lookup_cases)
  case failed
  with assms(1) show ?thesis by (simp add: redis_inv_def redis_locked_def heap_decodes_def)
next
  case (answered h refs w1)
  have fr: "world_frame w1 w'" using alloc_details_all [OF answered(3)] by blast
  have "hash_ok pe h" using assms(1) hash_ok_order answered(2) by (auto simp: redis_inv_def)
  then have "\<forall>d \<in> set (stored_details h). decodes pe d" using hash_okD by (auto simp: stored_details_iff)
  then have "heap_decodes pe w1 \<Longrightarrow> heap_decodes pe w'" by (rule alloc_details_decodes [OF answered(3)])
  moreover have "heap_decodes pe w1 = heap_decodes pe w" using answered(1) by (simp add: heap_decodes_def)
  moreover have "heap_frame w w'" using fr answered(1) heap_frame_trans [of w w1 w'] by (simp add: world_frame_def)
  moreover have "w_store w' = w_store w1" using fr by (simp add: world_frame_def)
  ultimately show ?thesis
    using assms(1) answered(1) alloc_details_env [OF answered(3)] by (simp add: redis_inv_def redis_locked_def)
qed

text \<open>The cases of a save.\<close>

lemma redis_save_cases:
  assumes "RedisStore_SaveCertificate ref w = (err, w')"
  obtains (failed) e where "err = Some e" "w' = set_redis (\<lambda>r. r\<lparr>rs_requests := Suc (rs_requests r)\<rparr>) w"
  | (sent) stored args w1 w2 h h' k where "storedCertificates w = (Ok stored, w1)" "prune_args stored w1 = (args, w2)"
      "k = rs_requests (w_store w1)" "h = re_others (rs_env (w_store w)) k (rs_hash (w_store w))"
      "h' = save_transaction args (certificateKey (det_Provider (w_heap w ref)) (det_Subject (w_heap w ref)) (AltNames (w_heap w ref)))
        (Marshalled (forget_staple (w_heap w ref))) h"
      "w' = set_redis (\<lambda>r. r\<lparr>rs_hash := if (\<exists>e. re_outcome (rs_env (w_store w)) k = NotExecuted e) then h else h',
        rs_requests := Suc k\<rparr>) w2"
      "err = None \<longleftrightarrow> re_outcome (rs_env (w_store w)) k = Answered"
proof -
  obtain res w1 where 1: "storedCertificates w = (res, w1)" by fastforce
  have w1: "w1 = set_redis (\<lambda>r. r\<lparr>rs_requests := Suc (rs_requests r)\<rparr>) w" by (rule storedCertificates_effect(1) [OF 1])
  show thesis
  proof (cases res)
    case (Inl e)
    with 1 assms have "err = Some e" "w' = w1" by (simp_all add: RedisStore_SaveCertificate_def)
    with w1 failed show thesis by blast
  next
    case (Inr stored)
    define k where "k = rs_requests (w_store w1)"
    show thesis
    proof (cases "re_marshal (rs_env (w_store w1)) k")
      case (Some e)
      with Inr 1 assms have "err = Some e" "w' = w1" by (simp_all add: RedisStore_SaveCertificate_def k_def)
      with w1 failed show thesis by blast
    next
      case None
      obtain args w2 where 2: "prune_args stored w1 = (args, w2)" by fastforce
      have st: "w_store w2 = w_store w1" using prune_args_frame [OF 2] by blast
      have "rs_env (w_store w1) = rs_env (w_store w)" "rs_hash (w_store w1) = rs_hash (w_store w)" using w1 by simp_all
      with None Inr 1 2 st assms show thesis
        by (intro sent [OF 1 [unfolded Inr] 2 k_def refl refl])
          (auto simp: RedisStore_SaveCertificate_def Let_def k_def [symmetric] split: reply.splits)
    qed
  qed
qed

lemma redis_save_frame:
  assumes inv: "redis_inv pe w" and dec: "heap_decodes pe w" and ref: "ref < w_next w"
    and sv: "RedisStore_SaveCertificate ref w = (err, w')"
  shows "heap_frame w w' \<and> w_env w' = w_env w \<and> redis_inv pe w' \<and> (redis_locked l w \<longrightarrow> redis_locked l w') \<and>
    heap_decodes pe w'"
  using sv
proof (cases rule: redis_save_cases)
  case (failed e)
  with inv dec show ?thesis by (simp add: redis_inv_def redis_locked_def heap_decodes_def)
next
  case (sent stored args w1 w2 h h' k)
  have w1: "w1 = set_redis (\<lambda>r. r\<lparr>rs_requests := Suc (rs_requests r)\<rparr>) w" by (rule storedCertificates_effect(1) [OF sent(1)])
  note fr = prune_args_frame [OF sent(2)]
  have "heap_frame w w2" using fr w1 heap_frame_trans [of w w1 w2] by (simp add: world_frame_def)
  then have "heap_frame w w'" using sent(6) heap_frame_trans [of w w2 w'] by simp
  have h: "hash_ok pe h" using inv sent(4) by (auto simp: redis_inv_def redis_env_ok_def)
  have d: "decodes pe (w_heap w ref)" using dec ref by (simp add: heap_decodes_def)
  have "hash_ok pe h'" unfolding sent(5) using h d by (rule save_transaction_ok)
  with h inv sent(6) fr w1 have "redis_inv pe w'" by (auto simp: redis_inv_def)
  with \<open>heap_frame w w'\<close> dec sent(6) fr w1 show ?thesis by (auto simp: redis_locked_def heap_decodes_def)
qed

lemma redis_save_hash:
  assumes "RedisStore_SaveCertificate ref w = (None, w1)"
  shows "map_of (rs_hash (w_store w1))
      (certificateKey (det_Provider (w_heap w ref)) (det_Subject (w_heap w ref)) (AltNames (w_heap w ref))) =
    Some (Marshalled (forget_staple (w_heap w ref)))"
  using assms
proof (cases rule: redis_save_cases)
  case (sent stored args w1' w2 h h' k)
  then show ?thesis by (simp add: save_transaction_def update_conv')
qed simp

lemma redis_save_lookup:
  assumes inv: "redis_inv pe w" and dec: "heap_decodes pe w" and ref: "ref < w_next w"
    and sv: "RedisStore_SaveCertificate ref w = (None, w1)"
    and names: "IsFor s as (w_heap w ref)" and lk: "RedisStore_GetCertificate p s as w1 = (Some ref', w2)"
    and p: "p = det_Provider (w_heap w ref)" "det_Provider (w_heap w2 ref') = p"
  shows "same_issue (w_heap w ref) (w_heap w2 ref')"
proof -
  let ?d = "w_heap w ref"
  have "redis_inv pe w1" using redis_save_frame [OF inv dec ref sv] by blast
  from redis_lookup_found [OF this lk] p(2) obtain v where
    v: "map_of (rs_hash (w_store w1)) (certificateKey p s as) = Some v" "Unmarshal v = Some (w_heap w2 ref')" by auto
  have "certificateKey p s as = certificateKey (det_Provider ?d) (det_Subject ?d) (AltNames ?d)"
    using names p(1) certificateKey_cong unfolding IsFor_iff by metis
  with v(1) redis_save_hash [OF sv] have "v = Marshalled (forget_staple ?d)" by simp
  with v(2) have "w_heap w2 ref' = forget_staple ?d" by simp
  then show ?thesis by (simp add: same_issue_def forget_staple_def)
qed

subsection \<open>Locking returns\<close>

lemma Lock_loop_returns:
  assumes "n \<le> k" "setnx k = Ok True"
  shows "\<exists>k'. Lock_loop setnx n = Some k'"
  using assms
proof (induction rule: inc_induct)
  case base
  then show ?case by (subst Lock_loop.simps) simp
next
  case (step m)
  then show ?case by (subst Lock_loop.simps) (auto split: sum.splits)
qed

lemma lockFor_effect:
  "redis_lockFor s as w = (key, w') \<Longrightarrow>
   key = lock_name (rs_keyPrefix (w_store w)) s as \<and>
   w' = set_redis (\<lambda>r. r\<lparr>rs_locks := (rs_locks r)(key \<mapsto> (case rs_locks r key of None \<Rightarrow> new_redisLock | Some l \<Rightarrow> l))\<rparr>) w"
  by (auto simp: redis_lockFor_def set_redis_def Let_def fun_upd_idem split: option.splits)

lemma locks_ok_acquire:
  "locks_ok locks None \<Longrightarrow> t \<noteq> [] \<Longrightarrow> locks_ok (locks(key \<mapsto> lock_fields t c l)) (Some key)"
  by (auto simp: locks_ok_def has_token_def lock_fields_def)

lemma locks_ok_release:
  "locks_ok locks (Some key) \<Longrightarrow> locks_ok (locks(key \<mapsto> snd (unlock_fields l))) None"
  by (auto simp: locks_ok_def has_token_def unlock_fields_def)

lemma redis_lock:
  assumes "redis_locked None w"
  shows "\<exists>w'. RedisStore_LockCertificate s as w = Some w'"
    and "redis_inv pe w \<Longrightarrow> RedisStore_LockCertificate s as w = Some w' \<Longrightarrow>
      heap_frame w w' \<and> w_env w' = w_env w \<and> w_next w' = w_next w \<and> redis_inv pe w' \<and> redis_locked (Some (s, as)) w'"
proof -
  have env: "lock_env_ok (rs_env (w_store w))" and locks: "locks_ok (rs_locks (w_store w)) None"
    using assms by (simp_all add: redis_locked_def held_name_def)
  obtain key w1 where 1: "redis_lockFor s as w = (key, w1)" by fastforce
  note e = lockFor_effect [OF 1]
  then have r: "rs_env (w_store w1) = rs_env (w_store w)" by auto
  obtain k where "k \<ge> rs_requests (w_store w1)" "re_setnx (rs_env (w_store w)) k = Ok True"
    using env by (auto simp: lock_env_ok_def)
  then obtain k' where k': "Lock_loop (re_setnx (rs_env (w_store w))) (rs_requests (w_store w1)) = Some k'"
    using Lock_loop_returns by blast
  with 1 r show "\<exists>w'. RedisStore_LockCertificate s as w = Some w'" by (simp add: RedisStore_LockCertificate_def)
  have t: "re_token (rs_env (w_store w)) k' \<noteq> []" using env by (simp add: lock_env_ok_def)
  assume inv: "redis_inv pe w" and "RedisStore_LockCertificate s as w = Some w'"
  then have w': "w' = set_redis (\<lambda>r. r\<lparr>rs_requests := Suc k', rs_locks :=
      (rs_locks r)(key \<mapsto> lock_fields (re_token (rs_env r) k') k' (the (rs_locks r key)))\<rparr>) w1"
    using 1 r k' by (simp add: RedisStore_LockCertificate_def)
  have "redis_locked (Some (s, as)) w'"
    using e env locks_ok_acquire [OF locks t] unfolding w' by (auto simp: redis_locked_def held_name_def)
  then show "heap_frame w w' \<and> w_env w' = w_env w \<and> w_next w' = w_next w \<and> redis_inv pe w' \<and> redis_locked (Some (s, as)) w'"
    using e inv unfolding w' by (auto simp: redis_inv_def heap_frame_def)
qed

lemma redis_unlock:
  assumes "redis_locked (Some (s, as)) w"
  shows "\<exists>w'. RedisStore_UnlockCertificate s as w = Some w'"
    and "redis_inv pe w \<Longrightarrow> RedisStore_UnlockCertificate s as w = Some w' \<Longrightarrow>
      heap_frame w w' \<and> w_env w' = w_env w \<and> w_next w' = w_next w \<and> redis_inv pe w' \<and> redis_locked None w'"
proof -
  let ?key = "lock_name (rs_keyPrefix (w_store w)) s as"
  have env: "lock_env_ok (rs_env (w_store w))" and locks: "locks_ok (rs_locks (w_store w)) (Some ?key)"
    using assms by (simp_all add: redis_locked_def held_name_def)
  then have "has_token (rs_locks (w_store w) ?key)" by (simp add: locks_ok_def)
  then obtain lk where "rs_locks (w_store w) ?key = Some lk" "lk_token lk \<noteq> []"
    by (auto simp: has_token_def split: option.splits)
  then obtain c where lk: "rs_locks (w_store w) ?key = Some lk" "lk_token lk \<noteq> []" "lk_stopChan lk = Some c"
    using locks unfolding locks_ok_def by blast
  define w2 where "w2 = set_redis (\<lambda>r. r\<lparr>rs_locks := (rs_locks r)(?key \<mapsto> snd (unlock_fields lk)),
    rs_requests := Suc (rs_requests r)\<rparr>) w"
  have 1: "redis_lockFor s as w = (?key, w)" using lk by (simp add: redis_lockFor_def)
  have w2: "RedisStore_UnlockCertificate s as w = Some w2"
    using 1 lk by (simp add: RedisStore_UnlockCertificate_def unlock_fields_def w2_def set_redis_def)
  then show "\<exists>w'. RedisStore_UnlockCertificate s as w = Some w'" by blast
  assume inv: "redis_inv pe w" and "RedisStore_UnlockCertificate s as w = Some w'"
  with w2 have w': "w' = w2" by simp
  have "redis_locked None w'"
    using env locks_ok_release [OF locks] unfolding w' w2_def by (simp add: redis_locked_def held_name_def)
  then show "heap_frame w w' \<and> w_env w' = w_env w \<and> w_next w' = w_next w \<and> redis_inv pe w' \<and> redis_locked None w'"
    using inv unfolding w' w2_def by (simp add: redis_inv_def)
qed

subsection \<open>The contract of a store\<close>

lemma redis_sinv_stable: "redis_inv pe w \<Longrightarrow> world_frame w w' \<Longrightarrow> redis_inv pe w'"
  by (simp add: redis_inv_def world_frame_def)

lemma redis_locked_stable: "redis_locked l w \<Longrightarrow> w_store w' = w_store w \<Longrightarrow> redis_locked l w'"
  by (simp add: redis_locked_def)

interpretation redis: certificate_store redis_store parsePEM "redis_inv parsePEM" redis_locked for parsePEM
proof unfold_locales
  fix w w1 :: "'e redis_world" and p s as r w' l ref ref' err w2
  show "redis_inv parsePEM w \<Longrightarrow> world_frame w w1 \<Longrightarrow> redis_inv parsePEM w1" by (rule redis_sinv_stable)
  show "redis_locked l w \<Longrightarrow> w_store w1 = w_store w \<Longrightarrow> redis_locked l w1" by (rule redis_locked_stable)
  show "redis_inv parsePEM w \<Longrightarrow> StoreGetCertificate redis_store p s as w = (r, w') \<Longrightarrow>
      heap_frame w w' \<and> w_env w' = w_env w \<and> redis_inv parsePEM w' \<and> (redis_locked l w \<longrightarrow> redis_locked l w') \<and>
      (heap_decodes parsePEM w \<longrightarrow> heap_decodes parsePEM w')"
    using redis_lookup_frame unfolding redis_store_def by simp
  show "redis_inv parsePEM w \<Longrightarrow> StoreGetCertificate redis_store p s as w = (Some ref, w') \<Longrightarrow>
      ref < w_next w' \<and> IsFor s as (w_heap w' ref) \<and>
      (det_Provider (w_heap w' ref) = p \<or> det_Provider (w_heap w' ref) = [])"
    using redis_lookup_found [of parsePEM w p s as ref w'] unfolding redis_store_def by simp
  show "redis_inv parsePEM w \<Longrightarrow> heap_decodes parsePEM w \<Longrightarrow> ref < w_next w \<Longrightarrow>
      SaveCertificate redis_store ref w = (err, w') \<Longrightarrow>
      heap_frame w w' \<and> w_env w' = w_env w \<and> redis_inv parsePEM w' \<and> (redis_locked l w \<longrightarrow> redis_locked l w') \<and>
      heap_decodes parsePEM w'"
    using redis_save_frame unfolding redis_store_def by simp
  show "redis_inv parsePEM w \<Longrightarrow> heap_decodes parsePEM w \<Longrightarrow> ref < w_next w \<Longrightarrow>
      SaveCertificate redis_store ref w = (None, w1) \<Longrightarrow> IsFor s as (w_heap w ref) \<Longrightarrow>
      StoreGetCertificate redis_store p s as w1 = (Some ref', w2) \<Longrightarrow> p = det_Provider (w_heap w ref) \<Longrightarrow>
      det_Provider (w_heap w2 ref') = p \<Longrightarrow> same_issue (w_heap w ref) (w_heap w2 ref')"
    using redis_save_lookup [of parsePEM w ref w1 s as p ref' w2] unfolding redis_store_def by simp
  show "redis_locked None w \<Longrightarrow> \<exists>w'. LockCertificate redis_store s as w = Some w'"
    using redis_lock(1) unfolding redis_store_def by simp
  show "redis_inv parsePEM w \<Longrightarrow> redis_locked None w \<Longrightarrow> LockCertificate redis_store s as w = Some w' \<Longrightarrow>
      heap_frame w w' \<and> w_env w' = w_env w \<and> w_next w' = w_next w \<and> redis_inv parsePEM w' \<and> redis_locked (Some (s, as)) w'"
    using redis_lock(2) unfolding redis_store_def by simp
  show "redis_locked (Some (s, as)) w \<Longrightarrow> \<exists>w'. UnlockCertificate redis_store s as w = Some w'"
    using redis_unlock(1) unfolding redis_store_def by simp
  show "redis_inv parsePEM w \<Longrightarrow> redis_locked (Some (s, as)) w \<Longrightarrow> UnlockCertificate redis_store s as w = Some w' \<Longrightarrow>
      heap_frame w w' \<and> w_env w' = w_env w \<and> w_next w' = w_next w \<and> redis_inv parsePEM w' \<and> redis_locked None w'"
    using redis_unlock(2) unfolding redis_store_def by simp
qed

subsection \<open>The program's provider with a Redis store\<close>

abbreviation redis_config :: "(RedisStore, 'e) ProviderConfig \<Rightarrow> (RedisStore, 'e) ProviderConfig" where
  "redis_config config \<equiv> config\<lparr>pc_Store := redis_store\<rparr>"

interpretation redis_mgr: cert_manager "provider_manager P (redis_config config)" P "redis_inv (parsePEM P)" redis_locked
  "\<lambda>_. pki_ok P" for P config
proof (rule cert_manager.intro)
  show "certificate_store (cm_store (provider_manager P (redis_config config))) (parsePEM P) (redis_inv (parsePEM P)) redis_locked"
    using redis.certificate_store_axioms by (simp add: provider_manager_def NewCertManager_def)
  show "cert_manager_axioms (provider_manager P (redis_config config)) P (\<lambda>_. pki_ok P)"
    by (rule cert_manager_axioms.intro) (simp add: provider_manager_def NewCertManager_def provider_suppliers_ok)
qed

definition redis_provider_inv :: "'e Pki \<Rightarrow> 'e redis_world \<Rightarrow> bool" where
  "redis_provider_inv P w \<longleftrightarrow> redis_inv (parsePEM P) w \<and> redis_locked None w \<and> pki_ok P \<and> heap_decodes (parsePEM P) w"

definition redis_provider :: "'e Pki \<Rightarrow> (RedisStore, 'e) ProviderConfig \<Rightarrow> 'e redis_world CertificateProvider" where
  "redis_provider P config = wildcard_provider (NewProvider P (redis_config config))"

interpretation redis_prov: certificate_provider "redis_provider P config" "redis_provider_inv P" for P config
proof -
  have "redis_mgr.winv P None = redis_provider_inv P"
    by (simp add: fun_eq_iff redis_mgr.winv_def redis_provider_inv_def)
  then have "certificate_provider (manager_provider P (provider_manager P (redis_config config))) (redis_provider_inv P)"
    using redis_mgr.manager_provider_ok by metis
  from certificate_provider.wildcard_provider_ok [OF this]
  show "certificate_provider (redis_provider P config) (redis_provider_inv P)"
    by (simp add: redis_provider_def NewProvider_def)
qed

end
