(* ===== verification/Redis_Lease.thy ===== *)
theory Redis_Lease
  imports Redis_Lock Go_Text
begin

text \<open>
  \<^verbatim>\<open>certificate/store_redis.go\<close>, what the transition system of \<open>Redis_Lock\<close> takes for granted: where tokens come from, and
  how the times of the lock fit together so that a lease that is refreshed does not run out.

  The goroutine \<^verbatim>\<open>refresh\<close> is a function of its ticks. Before a tick the others may do what they like to the lock. The request of
  a tick reaches the server some time after the ticker fired, at most the time-out of an operation, or is lost.
\<close>

definition redisLockRetryInterval :: duration where
  "redisLockRetryInterval = second div 2"

definition redisOperationTimeout :: duration where
  "redisOperationTimeout = 5 * second"

text \<open>The deadline of the context for one operation that starts now.\<close>

definition operationContext :: "time \<Rightarrow> time" where
  "operationContext now = now + redisOperationTimeout"

subsection \<open>Tokens\<close>

definition hex_digit :: "nat \<Rightarrow> char" where
  "hex_digit n = ''0123456789abcdef'' ! n"

definition hex_byte :: "char \<Rightarrow> string" where
  "hex_byte c = [hex_digit (of_char c div 16), hex_digit (of_char c mod 16)]"

text \<open>\<^verbatim>\<open>hex.EncodeToString\<close>.\<close>

definition hex_encode :: "string \<Rightarrow> string" where
  "hex_encode b = concat (map hex_byte b)"

text \<open>\<open>rand_read n\<close> is the result of reading \<open>n\<close> random bytes.\<close>

definition newLockToken :: "(nat \<Rightarrow> (string, string) result) \<Rightarrow> int \<Rightarrow> int \<Rightarrow> string" where
  "newLockToken rand_read pid unixNano =
     (case rand_read 16 of
        Inl err \<Rightarrow> format_d pid @ ''-'' @ format_d unixNano
      | Inr b \<Rightarrow> hex_encode b)"

definition hex_value :: "char \<Rightarrow> nat" where
  "hex_value c = (if is_digit c then of_char c - 48 else of_char c - 87)"

fun hex_decode :: "string \<Rightarrow> string" where
  "hex_decode (a # b # cs) = char_of (16 * hex_value a + hex_value b) # hex_decode cs"
| "hex_decode _ = []"

lemma nat16_cases:
  assumes "(n::nat) < 16"
  shows "n \<in> {0, 1, 2, 3, 4, 5, 6, 7, 8, 9, 10, 11, 12, 13, 14, 15}"
  using assms by (auto simp: eval_nat_numeral less_Suc_eq)

lemma hex_value_digit: "n < 16 \<Longrightarrow> hex_value (hex_digit n) = n"
  by (drule nat16_cases) (auto simp: hex_digit_def hex_value_def is_digit_nat)

lemma hex_digit_not_dash: "n < 16 \<Longrightarrow> hex_digit n \<noteq> CHR ''-''"
  by (drule nat16_cases) (auto simp: hex_digit_def)

lemma byte_halves: "of_char c div 16 < (16::nat)" "of_char c mod 16 < (16::nat)"
  using nat_of_char_less_256 [of c] by linarith+

lemma hex_decode_encode: "hex_decode (hex_encode b) = b"
proof (induction b)
  case (Cons c b)
  note byte_halves [of c]
  then have "hex_value (hex_digit (of_char c div 16)) = of_char c div 16" "hex_value (hex_digit (of_char c mod 16)) = of_char c mod 16"
    by (auto intro!: hex_value_digit)
  with Cons show ?case by (simp add: hex_encode_def hex_byte_def)
qed (simp add: hex_encode_def)

lemma hex_encode_length: "length (hex_encode b) = 2 * length b"
  by (induction b) (simp_all add: hex_encode_def hex_byte_def)

lemma hex_encode_no_dash: "CHR ''-'' \<notin> set (hex_encode b)"
proof (induction b)
  case (Cons c b)
  note byte_halves [of c]
  then have "hex_digit (of_char c div 16) \<noteq> CHR ''-''" "hex_digit (of_char c mod 16) \<noteq> CHR ''-''"
    by (auto intro!: hex_digit_not_dash)
  with Cons show ?case by (auto simp: hex_encode_def hex_byte_def)
qed (simp add: hex_encode_def)

text \<open>A token is never empty, which would mean that the lock is not held; different random bytes make different tokens; and a
  token made without randomness differs from all that are made with it.\<close>

lemma newLockToken_nonempty:
  assumes "\<And>b. rand_read 16 = Ok b \<Longrightarrow> length b = 16"
  shows "newLockToken rand_read pid now \<noteq> []"
proof (cases "rand_read 16")
  case (Inr b)
  then have "length (newLockToken rand_read pid now) = 32" using assms by (simp add: newLockToken_def hex_encode_length)
  then show ?thesis by auto
qed (simp add: newLockToken_def)

lemma newLockToken_inject:
  assumes "r 16 = Ok b" "r' 16 = Ok b'"
  shows "newLockToken r pid now = newLockToken r' pid' now' \<longleftrightarrow> b = b'"
  using assms hex_decode_encode by (auto simp: newLockToken_def) (metis hex_decode_encode)

lemma newLockToken_fallback_differs:
  assumes "r 16 = Ok b" "r' 16 = Error e"
  shows "newLockToken r pid now \<noteq> newLockToken r' pid' now'"
proof
  assume "newLockToken r pid now = newLockToken r' pid' now'"
  then have "CHR ''-'' \<in> set (hex_encode b)" using assms by (auto simp: newLockToken_def)
  with hex_encode_no_dash show False by blast
qed

subsection \<open>Leases\<close>

text \<open>What others may do to the key of a lock: try to acquire it, or run the scripts with a token of theirs.\<close>

datatype other_op = OtherSetNX string | OtherExtend string | OtherRelease string

fun do_other :: "string \<Rightarrow> duration \<Rightarrow> other_op \<Rightarrow> redis_server \<Rightarrow> redis_server" where
  "do_other key ttl (OtherSetNX t) sv = snd (SetNX key t ttl sv)"
| "do_other key ttl (OtherExtend t) sv = snd (extendLockScript key t ttl sv)"
| "do_other key ttl (OtherRelease t) sv = snd (releaseLockScript key t sv)"

fun others_run :: "string \<Rightarrow> duration \<Rightarrow> (time \<times> other_op) list \<Rightarrow> redis_server \<Rightarrow> redis_server" where
  "others_run key ttl [] sv = sv"
| "others_run key ttl ((at, opr) # ops) sv = others_run key ttl ops (do_other key ttl opr (sv\<lparr>sv_now := at\<rparr>))"

text \<open>A tick of \<^verbatim>\<open>refresh\<close>: what others do before its request arrives, how long the request takes, and whether it is lost.\<close>

record refresh_tick =
  rt_others :: "(time \<times> other_op) list"
  rt_delay :: duration
  rt_lost :: bool

text \<open>\<open>due\<close> is when the ticker fires next; the list ends when the stop channel is closed.\<close>

fun refresh_ticks :: "string \<Rightarrow> string \<Rightarrow> duration \<Rightarrow> time \<Rightarrow> refresh_tick list \<Rightarrow> redis_server \<Rightarrow> redis_server" where
  "refresh_ticks key token ttl due [] sv = sv"
| "refresh_ticks key token ttl due (tk # tks) sv =
     (let sv1 = (others_run key ttl (rt_others tk) sv)\<lparr>sv_now := due + rt_delay tk\<rparr>;
          sv2 = (if rt_lost tk then sv1 else snd (extendLockScript key token ttl sv1))
      in refresh_ticks key token ttl (due + redisLockRenewInterval) tks sv2)"

text \<open>The others act before the request of the tick arrives and do not know the token; a request takes at most the time-out of
  an operation.\<close>

fun other_token :: "other_op \<Rightarrow> string option" where
  "other_token (OtherSetNX t) = None"
| "other_token (OtherExtend t) = Some t"
| "other_token (OtherRelease t) = Some t"

fun ticks_ok :: "string \<Rightarrow> time \<Rightarrow> refresh_tick list \<Rightarrow> bool" where
  "ticks_ok token due [] = True"
| "ticks_ok token due (tk # tks) =
     (0 \<le> rt_delay tk \<and> due + rt_delay tk \<le> operationContext due \<and>
      list_all (\<lambda>(at, opr). at \<le> due + rt_delay tk \<and> other_token opr \<noteq> Some token) (rt_others tk) \<and>
      ticks_ok token (due + redisLockRenewInterval) tks)"

text \<open>No two requests in a row are lost.\<close>

fun no_two_lost :: "bool \<Rightarrow> refresh_tick list \<Rightarrow> bool" where
  "no_two_lost last_lost [] = True"
| "no_two_lost last_lost (tk # tks) = (\<not> (last_lost \<and> rt_lost tk) \<and> no_two_lost (rt_lost tk) tks)"

lemma others_keep_lease:
  assumes "sv_keys sv key = Some (token, expiry)" "\<And>at opr. (at, opr) \<in> set ops \<Longrightarrow> at < expiry \<and> other_token opr \<noteq> Some token"
  shows "sv_keys (others_run key ttl ops sv) key = Some (token, expiry)"
  using assms
proof (induction ops arbitrary: sv)
  case (Cons p ops)
  obtain at opr where p: "p = (at, opr)" by (cases p)
  have now: "at < expiry" "other_token opr \<noteq> Some token" using Cons.prems(2) [of at opr] by (auto simp: p)
  have "sv_keys (do_other key ttl opr (sv\<lparr>sv_now := at\<rparr>)) key = Some (token, expiry)"
    using Cons.prems(1) now
    by (cases opr) (auto simp: SetNX_def extendLockScript_def releaseLockScript_def redis_get_def)
  then have "sv_keys (others_run key ttl ops (do_other key ttl opr (sv\<lparr>sv_now := at\<rparr>))) key = Some (token, expiry)"
    by (rule Cons.IH) (use Cons.prems(2) in auto)
  then show ?case by (simp add: p)
qed simp

lemmas lease_times = redisLockTTL_def redisLockRenewInterval_def redisOperationTimeout_def operationContext_def second_def

text \<open>How far beyond the next tick a lease lasts: 35 seconds if the last request arrived, and 15 seconds if it was lost.\<close>

lemma refresh_keeps_lease:
  assumes "sv_keys sv key = Some (token, expiry)" "due + (if last_lost then 15 * second else 35 * second) \<le> expiry"
    and "ticks_ok token due tks" "no_two_lost last_lost tks" "sv_now sv < expiry"
  shows "redis_get key (refresh_ticks key token redisLockTTL due tks sv) = Some token"
  using assms
proof (induction tks arbitrary: sv due expiry last_lost)
  case Nil
  then show ?case by (simp add: redis_get_def)
next
  case (Cons tk tks)
  let ?sv1 = "(others_run key redisLockTTL (rt_others tk) sv)\<lparr>sv_now := due + rt_delay tk\<rparr>"
  have d: "0 \<le> rt_delay tk" "due + rt_delay tk < expiry"
    using Cons.prems(2,3) by (auto simp: lease_times split: if_splits)
  have "sv_keys (others_run key redisLockTTL (rt_others tk) sv) key = Some (token, expiry)"
    by (rule others_keep_lease [OF Cons.prems(1)]) (use Cons.prems(3) d in \<open>force simp: list_all_iff\<close>)
  then have k: "sv_keys ?sv1 key = Some (token, expiry)" by simp
  show ?case
  proof (cases "rt_lost tk")
    case True
    moreover from this have "\<not> last_lost" using Cons.prems(4) by simp
    ultimately show ?thesis
      using Cons.IH [of ?sv1 expiry "due + redisLockRenewInterval" True] Cons.prems(2,3,4) k d
      by (simp add: lease_times)
  next
    case False
    let ?sv2 = "snd (extendLockScript key token redisLockTTL ?sv1)"
    have "sv_keys ?sv2 key = Some (token, due + rt_delay tk + redisLockTTL)" "sv_now ?sv2 = due + rt_delay tk"
      using k d(2) by (simp_all add: extendLockScript_def redis_get_def)
    then show ?thesis
      using Cons.IH [of ?sv2 "due + rt_delay tk + redisLockTTL" "due + redisLockRenewInterval" False] Cons.prems(3,4) d(1) False
      by (simp add: lease_times)
  qed
qed

text \<open>Two requests in a row that are lost are one too many: the lease has run out when the third arrives.\<close>

definition lost_tick :: refresh_tick where
  "lost_tick = \<lparr>rt_others = [], rt_delay = 0, rt_lost = True\<rparr>"

lemma two_lost_refreshes_lose_the_lease:
  assumes "SetNX key token redisLockTTL sv = (True, sv')" "token \<noteq> []"
  shows "redis_get key (refresh_ticks key token redisLockTTL (sv_now sv + redisLockRenewInterval)
    [lost_tick, lost_tick, lost_tick\<lparr>rt_lost := False\<rparr>] sv') = None"
  using assms by (auto simp: SetNX_def redis_get_def extendLockScript_def lost_tick_def lease_times split: if_splits)

end
