(* ===== verification/Metrics.thy ===== *)
theory Metrics
  imports Rewriter
begin

text \<open>
  \<^verbatim>\<open>metrics/recorder.go\<close>: the counters of responses and of TLS handshakes, and the wrappers that
  increment them around the handlers of the proxy.

  A counter vector is a map from label values to counts. A wrapped handler takes the recorder and
  returns it; a panic is the result \<^const>\<open>None\<close>. The routes come from a lookup function, as in the rewriter.

  The registry is Prometheus's: its state is of any type, and \<open>register\<close>, \<open>handlerFor\<close> and \<open>instrument\<close> stand for
  \<^verbatim>\<open>Registry.Register\<close>, \<^verbatim>\<open>promhttp.HandlerFor\<close> and \<^verbatim>\<open>promhttp.InstrumentMetricHandler\<close>.
\<close>

record Recorder =
  helloCounter :: "string \<Rightarrow> nat"
  responseCounter :: "string \<times> string \<Rightarrow> nat"

definition NewRecorder :: Recorder where
  "NewRecorder = \<lparr>helloCounter = (\<lambda>_. 0), responseCounter = (\<lambda>_. 0)\<rparr>"

definition inc :: "'a \<Rightarrow> ('a \<Rightarrow> nat) \<Rightarrow> 'a \<Rightarrow> nat" where
  "inc labels c = c(labels := Suc (c labels))"

subsection \<open>The registry\<close>

text \<open>What is registered: counters by name, help text and labels, and the two collectors that Prometheus supplies.\<close>

datatype collector = CounterVec string string "string list" | ProcessCollector | GoCollector

definition helloCounter_vec :: collector where
  "helloCounter_vec = CounterVec ''centauri_tls_hello_total'' ''The total number of TLS client hellos processed'' [''known'']"

definition responseCounter_vec :: collector where
  "responseCounter_vec = CounterVec ''centauri_response_total'' ''The total number of HTTP responses sent to clients''
     [''route'', ''status'']"

text \<open>An error is logged, and the next collector is registered all the same.\<close>

definition registerMetrics :: "(collector \<Rightarrow> 'r \<Rightarrow> string option \<times> 'r) \<Rightarrow> 'r \<Rightarrow> 'r" where
  "registerMetrics register reg =
     (let (err1, reg1) = register helloCounter_vec reg;
          (err2, reg2) = register responseCounter_vec reg1;
          (err3, reg3) = register ProcessCollector reg2;
          (err4, reg4) = register GoCollector reg3
      in reg4)"

definition Handler :: "('r \<Rightarrow> 'h) \<Rightarrow> ('r \<Rightarrow> 'h \<Rightarrow> 'h) \<Rightarrow> 'r \<Rightarrow> 'h" where
  "Handler handlerFor instrument reg = instrument reg (handlerFor reg)"

text \<open>With a registry that takes every collector it does not have yet, a fresh one has exactly the four afterwards.\<close>

lemma registerMetrics_registers:
  assumes "\<And>c r. c \<notin> registered r \<Longrightarrow> registered (snd (register c r)) = insert c (registered r)" "registered reg = {}"
  shows "registered (registerMetrics register reg) = {helloCounter_vec, responseCounter_vec, ProcessCollector, GoCollector}"
proof -
  let ?r1 = "snd (register helloCounter_vec reg)"
  let ?r2 = "snd (register responseCounter_vec ?r1)"
  let ?r3 = "snd (register ProcessCollector ?r2)"
  have "registered ?r1 = {helloCounter_vec}" using assms by simp
  moreover from this have "registered ?r2 = {responseCounter_vec, helloCounter_vec}"
    using assms(1) by (simp add: helloCounter_vec_def responseCounter_vec_def)
  moreover from this have "registered ?r3 = {ProcessCollector, responseCounter_vec, helloCounter_vec}"
    using assms(1) by (simp add: helloCounter_vec_def responseCounter_vec_def)
  moreover from this have "registered (snd (register GoCollector ?r3)) = insert GoCollector (registered ?r3)"
    using assms(1) by (simp add: helloCounter_vec_def responseCounter_vec_def)
  ultimately show ?thesis by (auto simp: registerMetrics_def Let_def split: prod.split)
qed

subsection \<open>The wrappers\<close>

text \<open>The shared part of the two wrappers: count a response for the route of a forwarded host. A route without domains
  is an index out of range.\<close>

definition count_response :: "lookup \<Rightarrow> string \<Rightarrow> string \<Rightarrow> Recorder \<Rightarrow> Recorder option" where
  "count_response routeForDomain host status rc =
     (case routeForDomain host of
        None \<Rightarrow> Some rc
      | Some route \<Rightarrow>
          (case Domains route of
             [] \<Rightarrow> None
           | d # _ \<Rightarrow> Some (rc\<lparr>responseCounter := inc (d, status) (responseCounter rc)\<rparr>)))"

definition TrackBadGateway ::
  "lookup \<Rightarrow> (ResponseWriter \<Rightarrow> Request \<Rightarrow> ResponseWriter) \<Rightarrow> ResponseWriter \<Rightarrow> Request \<Rightarrow> Recorder \<Rightarrow>
   (ResponseWriter \<times> Recorder) option" where
  "TrackBadGateway routeForDomain fn writer req rc =
     (case count_response routeForDomain (header_get (req_Header req) ''X-Forwarded-Host'') ''502'' rc of
        None \<Rightarrow> None
      | Some rc' \<Rightarrow> Some (fn writer req, rc'))"

definition TrackResponse ::
  "lookup \<Rightarrow> (Response \<Rightarrow> Response option) \<Rightarrow> Response \<Rightarrow> Recorder \<Rightarrow> (Response \<times> Recorder) option" where
  "TrackResponse routeForDomain fn resp rc =
     (case resp_Request resp of
        None \<Rightarrow> None
      | Some req \<Rightarrow>
          (case count_response routeForDomain (header_get (req_Header req) ''X-Forwarded-Host'')
                  (format_d (resp_StatusCode resp)) rc of
             None \<Rightarrow> None
           | Some rc' \<Rightarrow> map_option (\<lambda>resp'. (resp', rc')) (fn resp)))"

definition TrackHello ::
  "(string \<Rightarrow> (string, TLSCertificate option) result) \<Rightarrow> string \<Rightarrow> Recorder \<Rightarrow>
   (string, TLSCertificate option) result \<times> Recorder" where
  "TrackHello fn hello rc =
     (let res = fn hello; known = (case res of Inr (Some cert) \<Rightarrow> True | _ \<Rightarrow> False)
      in (res, rc\<lparr>helloCounter := inc (format_t known) (helloCounter rc)\<rparr>))"

subsection \<open>Facts\<close>

lemma count_response_Some:
  "count_response rf host status rc = Some rc' \<longleftrightarrow>
     (rf host = None \<and> rc' = rc) \<or>
     (\<exists>route d ds. rf host = Some route \<and> Domains route = d # ds \<and>
        rc' = rc\<lparr>responseCounter := inc (d, status) (responseCounter rc)\<rparr>)"
  by (auto simp: count_response_def split: option.splits list.splits)

lemma count_once:
  assumes "rf host = Some route" "Domains route = d # ds"
  shows "count_response rf host status rc = Some (rc\<lparr>responseCounter := inc (d, status) (responseCounter rc)\<rparr>)"
  using assms by (simp add: count_response_def)

end
