(* ===== verification/Reverse_Proxy.thy ===== *)
theory Reverse_Proxy
  imports Metrics
begin

text \<open>
  \<^verbatim>\<open>frontend/frontend.go\<close>, the handlers: the reverse proxy with its rewriter and its metrics behind the redirect to the primary
  domain, and the TLS configuration.

  The first part models what the program uses of \<^verbatim>\<open>httputil.ReverseProxy\<close>: which request it hands to \<^verbatim>\<open>Rewrite\<close>, when it
  calls \<^verbatim>\<open>ModifyResponse\<close> and \<^verbatim>\<open>ErrorHandler\<close>, and what it writes. The network is the function \<open>transport\<close>, which depends on the settings of the transport. \<open>cleanQuery\<close>
  is the standard library's removal of malformed query parameters. \<open>order\<close> is the order in which Go ranges over a header map.
\<close>

subsection \<open>httputil.ReverseProxy\<close>

definition http_space :: "char \<Rightarrow> bool" where
  "http_space c \<longleftrightarrow> c = CHR '' '' \<or> c = CHR 0x09 \<or> c = CHR 0x0A \<or> c = CHR 0x0D"

definition trim_http :: "string \<Rightarrow> string" where
  "trim_http s = rev (dropWhile http_space (rev (dropWhile http_space s)))"

definition header_tokens :: "header \<Rightarrow> string \<Rightarrow> string list" where
  "header_tokens h k =
     filter (\<lambda>t. t \<noteq> []) (map trim_http (concat (map (split_on CHR '','') (case h k of None \<Rightarrow> [] | Some vs \<Rightarrow> vs))))"

definition contains_token :: "header \<Rightarrow> string \<Rightarrow> string \<Rightarrow> bool" where
  "contains_token h k t \<longleftrightarrow> (\<exists>x \<in> set (header_tokens h k). map lower_char x = t)"

definition hopHeaders :: "string list" where
  "hopHeaders = [''Connection'', ''Proxy-Connection'', ''Keep-Alive'', ''Proxy-Authenticate'', ''Proxy-Authorization'',
     ''Te'', ''Trailer'', ''Transfer-Encoding'', ''Upgrade'']"

definition remove_hop_headers :: "header \<Rightarrow> header" where
  "remove_hop_headers h = fold (\<lambda>k h. header_del h k) (header_tokens h ''Connection'' @ hopHeaders) h"

definition upgradeType :: "header \<Rightarrow> string" where
  "upgradeType h = (if contains_token h ''Connection'' ''upgrade'' then header_get h ''Upgrade'' else [])"

definition ascii_print :: "string \<Rightarrow> bool" where
  "ascii_print s \<longleftrightarrow> list_all (\<lambda>c. CHR '' '' \<le> c \<and> c \<le> CHR ''~'') s"

text \<open>The outgoing request when \<^verbatim>\<open>Rewrite\<close> is called.\<close>

definition outgoing :: "(string \<Rightarrow> string) \<Rightarrow> Request \<Rightarrow> Request" where
  "outgoing cleanQuery req =
     (let h = req_Header req;
          h1 = remove_hop_headers h;
          h2 = (if contains_token h ''Te'' ''trailers'' then header_set h1 ''Te'' ''trailers'' else h1);
          h3 = (if upgradeType h \<noteq> [] then header_set (header_set h2 ''Connection'' ''Upgrade'') ''Upgrade'' (upgradeType h) else h2);
          h4 = fold (\<lambda>k h. header_del h k) [''Forwarded'', ''X-Forwarded-For'', ''X-Forwarded-Host'', ''X-Forwarded-Proto''] h3
      in req\<lparr>req_Header := h4,
             req_URL := map_option (\<lambda>u. u\<lparr>url_RawQuery := cleanQuery (url_RawQuery u)\<rparr>) (req_URL req)\<rparr>)"

text \<open>After \<^verbatim>\<open>Rewrite\<close>, a request without a user agent is given an empty one, so that the transport does not add its own.\<close>

definition default_user_agent :: "Request \<Rightarrow> Request" where
  "default_user_agent r =
     (if req_Header r ''User-Agent'' = None then r\<lparr>req_Header := header_set (req_Header r) ''User-Agent'' []\<rparr> else r)"

text \<open>What a handler does: it redirects, writes a status, serves an answer, or lets the connection change to another protocol.\<close>

datatype handled = Redirected int URL | Rejected int | Served ResponseWriter | Switched Response

definition ReverseProxy_ServeHTTP ::
  "(string \<Rightarrow> string) \<Rightarrow> (header \<Rightarrow> string list) \<Rightarrow> (Request \<Rightarrow> (string, Response) result) \<Rightarrow>
   (Request \<Rightarrow> Request \<Rightarrow> Request option) \<Rightarrow> (Response \<Rightarrow> 's \<Rightarrow> (Response \<times> 's) option) \<Rightarrow>
   (ResponseWriter \<Rightarrow> Request \<Rightarrow> 's \<Rightarrow> (ResponseWriter \<times> 's) option) \<Rightarrow>
   ResponseWriter \<Rightarrow> Request \<Rightarrow> 's \<Rightarrow> (handled \<times> 's) option" where
  "ReverseProxy_ServeHTTP cleanQuery order transport Rewrite ModifyResponse ErrorHandler writer req s =
     (if \<not> ascii_print (upgradeType (req_Header req))
      then map_option (\<lambda>(w, s'). (Served w, s')) (ErrorHandler writer req s)
      else
     (case Rewrite req (outgoing cleanQuery req) of
        None \<Rightarrow> None
      | Some rewritten \<Rightarrow>
     (let out = default_user_agent rewritten in
      case transport out of
        Inl err \<Rightarrow> map_option (\<lambda>(w, s'). (Served w, s')) (ErrorHandler writer out s)
      | Inr res \<Rightarrow>
     (let res0 = res\<lparr>resp_Request := Some out\<rparr> in
      if resp_StatusCode res0 = 101 then map_option (\<lambda>(res', s'). (Switched res', s')) (ModifyResponse res0 s)
      else
     (case ModifyResponse (res0\<lparr>resp_Header := remove_hop_headers (resp_Header res0)\<rparr>) s of
        None \<Rightarrow> None
      | Some (res', s') \<Rightarrow>
          (let w = writer\<lparr>w_Header := copyHeaders (order (resp_Header res')) (w_Header writer) (resp_Header res')\<rparr>
           in Some (Served (Write (case resp_Body res' of None \<Rightarrow> [] | Some b \<Rightarrow> b)
                (WriteHeader (resp_StatusCode res') w)), s')))))))"

subsection \<open>The handlers of a frontend\<close>

definition badGatewayError :: string where
  "badGatewayError = ''<!doctype html>'' @ [CHR 0x0A] @ ''<html lang='' @ [CHR 0x22] @ ''en'' @ [CHR 0x22] @ ''>'' @ [CHR 0x0A] @
     ''<head>'' @ [CHR 0x0A] @ ''  <title>502 Bad Gateway</title>'' @ [CHR 0x0A] @ ''</head>'' @ [CHR 0x0A] @
     ''<body>'' @ [CHR 0x0A] @ ''  <h1>Bad Gateway</h1>'' @ [CHR 0x0A] @
     ''  <p>The server was unable to complete your request. Please try again later.</p>'' @ [CHR 0x0A] @
     ''</body>'' @ [CHR 0x0A] @ ''</html>''"

definition handleError :: "ResponseWriter \<Rightarrow> Request \<Rightarrow> ResponseWriter" where
  "handleError writer request = Write badGatewayError (WriteHeader StatusBadGateway writer)"

text \<open>The routes may be replaced while a request is handled: \<open>lks k\<close> is the manager's lookup at the \<open>k\<close>-th time that the handling of this
  request looks a route up. \<open>env\<close> bundles what the handlers use from outside.\<close>

record proxy_env =
  pe_cleanQuery :: "string \<Rightarrow> string"
  pe_order :: "header \<Rightarrow> string list"
  pe_transport :: "Transport \<Rightarrow> Request \<Rightarrow> (string, Response) result"
  pe_intN :: "nat \<Rightarrow> nat"
  pe_newURL :: "URL \<Rightarrow> URL option"

definition proxyTransport :: Transport where
  "proxyTransport = \<lparr>ForceAttemptHTTP2 = False, DisableCompression = True, MaxIdleConnsPerHost = 100, IdleConnTimeout = 90 * second\<rparr>"

definition createProxy ::
  "proxy_env \<Rightarrow> RewriterState \<Rightarrow> (nat \<Rightarrow> lookup) \<Rightarrow> ResponseWriter \<Rightarrow> Request \<Rightarrow> Recorder \<Rightarrow> (handled \<times> Recorder) option" where
  "createProxy env rw lks writer req rc =
     (let d = NewDomainRedirector (lks 0)
            (ReverseProxy_ServeHTTP (pe_cleanQuery env) (pe_order env) (pe_transport env proxyTransport)
              (RewriteRequest (lks 1) (pe_intN env) rw)
              (TrackResponse (lks 2) (RewriteResponse (lks 3) (lks 4) (pe_newURL env) rw))
              (TrackBadGateway (lks 2) (RewriteError (lks 3) (lks 4) (lks 5) (pe_newURL env) (pe_order env) rw handleError)))
      in case DomainRedirector_ServeHTTP (dr_routeProvider d) req of
           Redirect status target \<Rightarrow> Some (Redirected status target, rc)
         | WriteStatus status \<Rightarrow> Some (Rejected status, rc)
         | Panic \<Rightarrow> None
         | CallNext r \<Rightarrow> dr_next d writer r rc)"

definition createRedirector :: "Request \<Rightarrow> Recorder \<Rightarrow> (handled \<times> Recorder) option" where
  "createRedirector req rc =
     (case HttpRedirector_ServeHTTP req of
        Redirect status target \<Rightarrow> Some (Redirected status target, rc)
      | WriteStatus status \<Rightarrow> Some (Rejected status, rc)
      | _ \<Rightarrow> None)"

text \<open>The TLS configuration; versions, curves and cipher suites by their names.\<close>

record TLSConfig =
  MinVersion :: string
  CurvePreferences :: "string list"
  CipherSuites :: "string list"
  tls_GetCertificate :: "string \<Rightarrow> Recorder \<Rightarrow> (string, TLSCertificate option) result \<times> Recorder"
  NextProtos :: "string list"

definition createTLSConfig :: "'p Manager \<Rightarrow> TLSConfig" where
  "createTLSConfig m =
     \<lparr>MinVersion = ''VersionTLS12'',
      CurvePreferences = [''X25519MLKEM768'', ''X25519'', ''CurveP256'', ''CurveP384''],
      CipherSuites =
        [''TLS_ECDHE_ECDSA_WITH_AES_128_GCM_SHA256'', ''TLS_ECDHE_RSA_WITH_AES_128_GCM_SHA256'',
         ''TLS_ECDHE_ECDSA_WITH_AES_256_GCM_SHA384'', ''TLS_ECDHE_RSA_WITH_AES_256_GCM_SHA384'',
         ''TLS_ECDHE_ECDSA_WITH_CHACHA20_POLY1305_SHA256'', ''TLS_ECDHE_RSA_WITH_CHACHA20_POLY1305_SHA256''],
      tls_GetCertificate = TrackHello (CertificateForClient m),
      NextProtos = [''h2'', ''http/1.1'']\<rparr>"

subsection \<open>What a client sees\<close>

lemma default_user_agent_forwarded:
  "header_get (req_Header (default_user_agent r)) ''X-Forwarded-Host'' = header_get (req_Header r) ''X-Forwarded-Host''"
  by (simp add: default_user_agent_def hdr_simps canonical_names)

lemma WriteHeader_status: "w_Status (WriteHeader st w) = Some (case w_Status w of None \<Rightarrow> st | Some st' \<Rightarrow> st')"
  by (auto simp: WriteHeader_def split: option.splits)

lemma Write_status: "w_Status (Write b w) = Some (case w_Status w of None \<Rightarrow> 200 | Some st \<Rightarrow> st)"
  by (simp add: Write_def WriteHeader_status)

lemma handleError_status: "w_Status w = None \<Longrightarrow> w_Status (handleError w req) = Some 502"
  by (simp add: handleError_def Write_status WriteHeader_status StatusBadGateway_def)

lemma RewriteError_status:
  "w_Status w = None \<Longrightarrow> w_Status (RewriteError l1 l2 l3 newURL order rw handleError w req) = Some 502"
  by (auto simp: RewriteError_def serveUpstreamErrorPage_def Let_def Write_status WriteHeader_status handleError_status
      StatusBadGateway_def split: option.splits)

lemma TrackBadGateway_status:
  assumes "TrackBadGateway lk (RewriteError l1 l2 l3 newURL order rw handleError) w req rc = Some (w', rc')" "w_Status w = None"
  shows "w_Status w' = Some 502"
  using assms RewriteError_status by (auto simp: TrackBadGateway_def split: option.splits)

lemma RewriteResponse_status:
  assumes "RewriteResponse l1 l2 newURL rw resp = Some resp'"
  shows "resp_StatusCode resp' = resp_StatusCode resp \<and> resp_Request resp' = resp_Request resp"
proof -
  obtain b r c where "replaceWithUpstreamErrorPage l1 newURL rw resp = (b, r, c)" by (metis prod.exhaust)
  with replaceWithUpstreamErrorPage_keeps [OF this] assms show ?thesis
    by (auto simp: RewriteResponse_def Let_def split: option.splits if_splits)
qed

lemma TrackResponse_cases:
  assumes "TrackResponse lk (RewriteResponse l1 l2 newURL rw) resp rc = Some (resp', rc')"
  obtains req where "resp_Request resp = Some req" "resp_StatusCode resp' = resp_StatusCode resp"
    and "count_response lk (header_get (req_Header req) ''X-Forwarded-Host'') (format_d (resp_StatusCode resp)) rc = Some rc'"
  using assms RewriteResponse_status by (auto simp: TrackResponse_def split: option.splits)

text \<open>What the reverse proxy serves, for requests that do not try to change to an unprintable protocol.\<close>

lemma createProxy_served:
  assumes "createProxy env rw lks writer req rc = Some (Served w, rc')" "w_Status writer = None"
    and "ascii_print (upgradeType (req_Header req))"
  obtains out status where "RewriteRequest (lks 1) (pe_intN env) rw req (outgoing (pe_cleanQuery env) req) = Some out"
    and "status = (case pe_transport env proxyTransport (default_user_agent out) of Inl _ \<Rightarrow> 502 | Inr res \<Rightarrow> resp_StatusCode res)" "w_Status w = Some status"
    and "count_response (lks 2) (header_get (req_Header out) ''X-Forwarded-Host'') (format_d status) rc = Some rc'"
proof -
  let ?mod = "TrackResponse (lks 2) (RewriteResponse (lks 3) (lks 4) (pe_newURL env) rw)"
  let ?err = "TrackBadGateway (lks 2) (RewriteError (lks 3) (lks 4) (lks 5) (pe_newURL env) (pe_order env) rw handleError)"
  have "DomainRedirector_ServeHTTP (lks 0) req = CallNext r \<Longrightarrow> r = req" for r
    by (auto simp: DomainRedirector_ServeHTTP_def Let_def split: option.splits if_splits list.splits)
  then have rp: "ReverseProxy_ServeHTTP (pe_cleanQuery env) (pe_order env) (pe_transport env proxyTransport)
      (RewriteRequest (lks 1) (pe_intN env) rw) ?mod ?err writer req rc = Some (Served w, rc')"
    using assms(1) by (auto simp: createProxy_def NewDomainRedirector_def Let_def split: outcome.splits)
  then obtain out where out: "RewriteRequest (lks 1) (pe_intN env) rw req (outgoing (pe_cleanQuery env) req) = Some out"
    using assms(3) by (auto simp: ReverseProxy_ServeHTTP_def split: option.splits)
  let ?out = "default_user_agent out"
  show thesis
  proof (cases "pe_transport env proxyTransport ?out")
    case (Inl e)
    with rp out assms(3) have err: "?err writer ?out rc = Some (w, rc')"
      by (auto simp: ReverseProxy_ServeHTTP_def Let_def)
    then have "count_response (lks 2) (header_get (req_Header out) ''X-Forwarded-Host'') ''502'' rc = Some rc'"
      by (auto simp: TrackBadGateway_def default_user_agent_forwarded split: option.splits)
    with out Inl TrackBadGateway_status [OF err assms(2)] show thesis
      by (intro that [of out 502]) (simp_all add: format_d_502)
  next
    case (Inr res)
    let ?res = "res\<lparr>resp_Request := Some ?out, resp_Header := remove_hop_headers (resp_Header res)\<rparr>"
    obtain res' where m: "?mod ?res rc = Some (res', rc')"
      and w: "w = Write (case resp_Body res' of None \<Rightarrow> [] | Some b \<Rightarrow> b) (WriteHeader (resp_StatusCode res')
        (writer\<lparr>w_Header := copyHeaders (pe_order env (resp_Header res')) (w_Header writer) (resp_Header res')\<rparr>))"
      using rp out assms(3) Inr by (auto simp: ReverseProxy_ServeHTTP_def Let_def split: if_splits option.splits)
    from m obtain "resp_StatusCode res' = resp_StatusCode res"
      "count_response (lks 2) (header_get (req_Header out) ''X-Forwarded-Host'') (format_d (resp_StatusCode res)) rc = Some rc'"
      by (rule TrackResponse_cases) (auto simp: default_user_agent_forwarded)
    with out Inr w assms(2) show thesis
      by (intro that [of out "resp_StatusCode res"]) (simp_all add: Write_status WriteHeader_status)
  qed
qed

subsection \<open>Which route a response is counted for\<close>

lemma outgoing_simps [simp]:
  "req_Host (outgoing cq req) = req_Host req" "req_RemoteAddr (outgoing cq req) = req_RemoteAddr req"
  "req_TLS (outgoing cq req) = req_TLS req" "req_Method (outgoing cq req) = req_Method req"
  by (simp_all add: outgoing_def Let_def)

lemma remote_ip_outgoing [simp]: "remote_ip (outgoing cq req) = remote_ip req"
  by (simp add: remote_ip_def)

lemma outgoing_no_forwarded:
  "k \<in> {''X-Forwarded-For'', ''X-Forwarded-Host'', ''X-Forwarded-Proto'', ''Forwarded''} \<Longrightarrow> req_Header (outgoing cq req) k = None"
  unfolding outgoing_def Let_def Request.simps fold_del_apply by (auto simp: canonical_names)

text \<open>The host that a proxied request says it was for.\<close>

lemma forwarded_host_out:
  assumes "rf (hostForRequest req) = Some route" "Upstreams route \<noteq> []"
    and "RewriteRequest rf intN (NewRewriter parseIP contains nets client) req (outgoing cq req) = Some out"
    and "\<not> trusted parseIP contains nets (remote_ip req)"
  shows "header_get (req_Header out) ''X-Forwarded-Host'' = req_Host req"
proof -
  let ?rw = "NewRewriter parseIP contains nets client" and ?o = "outgoing cq req"
  obtain u where out: "out = (apply_decorators (decorators ?rw) req ?o)
      \<lparr>req_URL := Some (u\<lparr>url_Scheme := ''http'', url_Host := selectUpstream intN route\<rparr>)\<rparr>"
    using RewriteRequest_routed [OF assms(1-3)] by blast
  have "req_Header (xForwardedForDecorator parseIP contains nets req ?o) ''X-Forwarded-Host'' = Some [req_Host req]"
    using forwarded_headers_out [of parseIP contains nets req ?o] assms(4) by (simp add: Let_def forwarded_host_def)
  then have "req_Header out ''X-Forwarded-Host'' = Some [req_Host req]"
    using forwarded_not_banned [of "''X-Forwarded-Host''"]
      default_header [of parseIP contains nets client req ?o "''X-Forwarded-Host''"] by (simp add: out Let_def)
  then show ?thesis by (simp add: header_get_def canonical_names)
qed

text \<open>A host with a colon is no domain of the manager.\<close>

lemma to_lower_colon: "CHR '':'' \<in> set s \<Longrightarrow> CHR '':'' \<in> set (to_lower s)"
proof -
  have "lower_char CHR '':'' = CHR '':''" by code_simp
  then show "CHR '':'' \<in> set s \<Longrightarrow> CHR '':'' \<in> set (to_lower s)"
    by (induction s rule: to_lower.induct) (auto simp: to_lower.simps)
qed

lemma colon_not_routed:
  assumes "tables_ok m" "CHR '':'' \<in> set host"
  shows "Get m host = None"
proof (cases "m_domains m")
  case (Some dm)
  with assms(1) have dm: "dm = owner (m_heap m) (Routes m)"
    and names: "\<And>ref d. ref \<in> set (Routes m) \<Longrightarrow> d \<in> set (Domains (m_heap m ref)) \<Longrightarrow> isDomainName d"
    by (auto simp: tables_ok_def list_all_iff)
  have "\<not> lists_domain (m_heap m) (to_lower host) ref" if "ref \<in> set (Routes m)" for ref
  proof
    assume "lists_domain (m_heap m) (to_lower host) ref"
    then obtain d where "d \<in> set (Domains (m_heap m ref))" "to_lower d = to_lower host" by (auto simp: lists_domain_def)
    then have "isDomainName (to_lower host)" using names [OF that] isDomainName_to_lower by metis
    then have "CHR '':'' \<notin> set (to_lower host)" by (rule isDomainName_excludes) simp
    with to_lower_colon [OF assms(2)] show False by simp
  qed
  then show ?thesis using Some dm by (simp add: Get_def owner_def find_None_iff)
qed (simp add: Get_def)

text \<open>A handshake is counted as known exactly if a certificate is returned.\<close>

lemma hello_counted:
  assumes "tls_GetCertificate (createTLSConfig m) serverName rc = (res, rc')"
  shows "res = CertificateForClient m serverName \<and>
    rc' = rc\<lparr>helloCounter := inc (if \<exists>c. res = Ok (Some c) then ''true'' else ''false'') (helloCounter rc)\<rparr>"
  using assms
  by (cases "CertificateForClient m serverName")
    (auto simp: createTLSConfig_def TrackHello_def Let_def format_t_def split: option.splits dest: sym)

end
