(* ===== verification/Frontends.thy ===== *)
theory Frontends
  imports Reverse_Proxy
begin

text \<open>
  \<^verbatim>\<open>frontend/frontend.go\<close>, the servers; \<^verbatim>\<open>frontend/tcp.go\<close> and \<^verbatim>\<open>frontend/tailscale.go\<close> with their options, and the stubs
  \<^verbatim>\<open>tcp_disabled.go\<close> and \<^verbatim>\<open>tailscale_disabled.go\<close> that take their place in builds without them.

  \<open>listen n addr\<close> is the result of the \<open>n\<close>-th call that listens on an address: an error or a listener.
\<close>

subsection \<open>Servers\<close>

definition shutdownTimeout :: duration where
  "shutdownTimeout = 5 * second"

definition readHeaderTimeout :: duration where
  "readHeaderTimeout = 5 * second"

definition readTimeout :: duration where
  "readTimeout = 0"

definition writeTimeout :: duration where
  "writeTimeout = 0"

definition idleTimeout :: duration where
  "idleTimeout = 0"

datatype handler_kind = ProxyHandler | RedirectHandler | MetricsHandler

record Listener =
  ln_Addr :: string
  ln_TLS :: bool

type_synonym listen = "nat \<Rightarrow> string \<Rightarrow> (string, unit) result"

text \<open>A server, with the listener it runs on. \<open>srv_inflight\<close> is how long the requests that it is handling will still take.\<close>

record Server =
  srv_handler :: handler_kind
  srv_ReadHeaderTimeout :: duration
  srv_ReadTimeout :: duration
  srv_WriteTimeout :: duration
  srv_IdleTimeout :: duration
  srv_listener :: "Listener option"
  srv_running :: bool
  srv_inflight :: duration

definition NewServer :: "handler_kind \<Rightarrow> Server" where
  "NewServer h = \<lparr>srv_handler = h, srv_ReadHeaderTimeout = readHeaderTimeout, srv_ReadTimeout = readTimeout,
     srv_WriteTimeout = writeTimeout, srv_IdleTimeout = idleTimeout, srv_listener = None, srv_running = False, srv_inflight = 0\<rparr>"

definition go_Start :: "Listener \<Rightarrow> Server \<Rightarrow> Server" where
  "go_Start l s = s\<lparr>srv_listener := Some l, srv_running := True\<rparr>"

text \<open>What \<^verbatim>\<open>Start\<close> sends on the error channel when \<^verbatim>\<open>http.Server.Serve\<close> returns.\<close>

datatype serve_error = ErrServerClosed | ServeError string

definition Server_Start :: "serve_error option \<Rightarrow> string option" where
  "Server_Start res = (case res of Some (ServeError err) \<Rightarrow> Some err | _ \<Rightarrow> None)"

text \<open>Shutting down waits for the requests that are being handled, but no longer than the time-out.\<close>

definition Server_Stop :: "Server \<Rightarrow> duration \<times> Server" where
  "Server_Stop s = (min (srv_inflight s) shutdownTimeout, s\<lparr>srv_running := False\<rparr>)"

text \<open>What all frontends share: the manager, the rewriter and the recorder. The error channel is the list of results in \<open>Server_Start\<close>.\<close>

record 'm Context =
  ctx_Manager :: 'm
  ctx_Rewriter :: RewriterState
  ctx_Recorder :: Recorder

subsection \<open>The TCP frontend\<close>

record tcpFrontend =
  tcp_httpPort :: int
  tcp_httpsPort :: int
  tcp_tlsServer :: "Server option"
  tcp_plainServer :: "Server option"

definition NewTCP :: "int \<Rightarrow> int \<Rightarrow> (string, tcpFrontend) result" where
  "NewTCP httpPort httpsPort =
     Ok \<lparr>tcp_httpPort = httpPort, tcp_httpsPort = httpsPort, tcp_tlsServer = None, tcp_plainServer = None\<rparr>"

definition NewTCP_disabled :: "int \<Rightarrow> int \<Rightarrow> (string, tcpFrontend) result" where
  "NewTCP_disabled httpPort httpsPort = Error ''tcp frontend is not compiled in (built with the notcp tag)''"

definition port_addr :: "int \<Rightarrow> string" where
  "port_addr port = CHR '':'' # format_d port"

definition tcp_Serve :: "listen \<Rightarrow> tcpFrontend \<Rightarrow> string option \<times> tcpFrontend" where
  "tcp_Serve listen t =
     (let tlsAddr = port_addr (tcp_httpsPort t); plainAddr = port_addr (tcp_httpPort t) in
      case listen 0 tlsAddr of
        Inl err \<Rightarrow> (Some err, t)
      | Inr _ \<Rightarrow>
          (let t1 = t\<lparr>tcp_tlsServer := Some (go_Start \<lparr>ln_Addr = tlsAddr, ln_TLS = True\<rparr> (NewServer ProxyHandler))\<rparr> in
           case listen 1 plainAddr of
             Inl err \<Rightarrow> (Some err, t1)
           | Inr _ \<Rightarrow>
               (None, t1\<lparr>tcp_plainServer := Some (go_Start \<lparr>ln_Addr = plainAddr, ln_TLS = False\<rparr> (NewServer RedirectHandler))\<rparr>)))"

text \<open>Stopping a server that was never made is a nil pointer.\<close>

definition tcp_Stop :: "tcpFrontend \<Rightarrow> (duration \<times> tcpFrontend) option" where
  "tcp_Stop t =
     (case (tcp_tlsServer t, tcp_plainServer t) of
        (Some a, Some b) \<Rightarrow>
          (let (t1, a') = Server_Stop a; (t2, b') = Server_Stop b
           in Some (t1 + t2, t\<lparr>tcp_tlsServer := Some a', tcp_plainServer := Some b'\<rparr>))
      | _ \<Rightarrow> None)"

definition tcp_UsesCertificates :: "tcpFrontend \<Rightarrow> bool" where
  "tcp_UsesCertificates t = True"

subsection \<open>The Tailscale frontend\<close>

record TailscaleOptions =
  ts_Hostname :: string
  ts_AuthKey :: string
  ts_Mode :: string
  ts_Dir :: string

text \<open>The node on the tailnet.\<close>

record tsnetServer =
  tsn_Hostname :: string
  tsn_AuthKey :: string
  tsn_Dir :: string
  tsn_closed :: bool

record tailscaleFrontend =
  ts_options :: TailscaleOptions
  ts_tlsServer :: "Server option"
  ts_plainServer :: "Server option"
  ts_tailscale :: "tsnetServer option"

definition NewTailscale :: "TailscaleOptions \<Rightarrow> (string, tailscaleFrontend) result" where
  "NewTailscale options = Ok \<lparr>ts_options = options, ts_tlsServer = None, ts_plainServer = None, ts_tailscale = None\<rparr>"

definition NewTailscale_disabled :: "TailscaleOptions \<Rightarrow> (string, tailscaleFrontend) result" where
  "NewTailscale_disabled options = Error ''tailscale frontend is not compiled in (built with the notailscale tag)''"

definition startHttpServer :: "listen \<Rightarrow> handler_kind \<Rightarrow> tailscaleFrontend \<Rightarrow> string option \<times> tailscaleFrontend" where
  "startHttpServer listen h t =
     (case listen 0 '':80'' of
        Inl err \<Rightarrow> (Some err, t)
      | Inr _ \<Rightarrow> (None, t\<lparr>ts_plainServer := Some (go_Start \<lparr>ln_Addr = '':80'', ln_TLS = False\<rparr> (NewServer h))\<rparr>))"

definition startHttpsServer :: "listen \<Rightarrow> tailscaleFrontend \<Rightarrow> string option \<times> tailscaleFrontend" where
  "startHttpsServer listen t =
     (case listen 1 '':443'' of
        Inl err \<Rightarrow> (Some err, t)
      | Inr _ \<Rightarrow> (None, t\<lparr>ts_tlsServer := Some (go_Start \<lparr>ln_Addr = '':443'', ln_TLS = True\<rparr> (NewServer ProxyHandler))\<rparr>))"

text \<open>The local client is an error or the function that says who an address belongs to.\<close>

definition tailscale_Serve ::
  "(string, string \<Rightarrow> UserProfile option) result \<Rightarrow> listen \<Rightarrow> 'm Context \<Rightarrow> tailscaleFrontend \<Rightarrow>
   string option \<times> 'm Context \<times> tailscaleFrontend" where
  "tailscale_Serve localClient listen ctx t =
     (let opts = ts_options t in
      if ts_Mode opts \<noteq> ''http'' \<and> ts_Mode opts \<noteq> ''https''
      then (Some (''unknown value for tailscale mode: '' @ ts_Mode opts @ '' (accepted: http, https)''), ctx, t)
      else
     (let t0 = t\<lparr>ts_tailscale := Some \<lparr>tsn_Hostname = ts_Hostname opts, tsn_AuthKey = ts_AuthKey opts, tsn_Dir = ts_Dir opts,
            tsn_closed = False\<rparr>\<rparr> in
      case localClient of
        Inl err \<Rightarrow> (Some err, ctx, t0)
      | Inr whoIs \<Rightarrow>
     (let ctx' = ctx\<lparr>ctx_Rewriter := AddDecorator (tailscaleHeaderDecorator whoIs) (ctx_Rewriter ctx)\<rparr> in
      if ts_Mode opts = ''http''
      then (case startHttpServer listen ProxyHandler t0 of (err, t1) \<Rightarrow> (err, ctx', t1))
      else
     (case startHttpServer listen RedirectHandler t0 of
        (Some err, t1) \<Rightarrow> (Some err, ctx', t1)
      | (None, t1) \<Rightarrow> (case startHttpsServer listen t1 of (err, t2) \<Rightarrow> (err, ctx', t2))))))"

text \<open>A server that was not made is skipped; closing a node that was never made is a nil pointer. The time is that of the servers.\<close>

definition stop_if_made :: "Server option \<Rightarrow> duration \<times> Server option" where
  "stop_if_made s = (case s of None \<Rightarrow> (0, None) | Some a \<Rightarrow> (let (t, a') = Server_Stop a in (t, Some a')))"

definition tailscale_Stop :: "tailscaleFrontend \<Rightarrow> (duration \<times> tailscaleFrontend) option" where
  "tailscale_Stop t =
     (case ts_tailscale t of
        None \<Rightarrow> None
      | Some node \<Rightarrow>
          (let (t1, plain) = stop_if_made (ts_plainServer t); (t2, tls) = stop_if_made (ts_tlsServer t)
           in Some (t1 + t2, t\<lparr>ts_plainServer := plain, ts_tlsServer := tls, ts_tailscale := Some (node\<lparr>tsn_closed := True\<rparr>)\<rparr>)))"

definition tailscale_UsesCertificates :: "tailscaleFrontend \<Rightarrow> bool" where
  "tailscale_UsesCertificates t \<longleftrightarrow> ts_Mode (ts_options t) = ''https''"

subsection \<open>Frontends that have started\<close>

text \<open>A server of the given kind that runs on a listener, with the time-outs the program sets.\<close>

definition serving :: "handler_kind \<Rightarrow> Listener \<Rightarrow> Server" where
  "serving h l = go_Start l (NewServer h)"

lemma serving_simps [simp]:
  "srv_handler (serving h l) = h" "srv_listener (serving h l) = Some l" "srv_running (serving h l)"
  "srv_ReadHeaderTimeout (serving h l) = readHeaderTimeout"
  by (simp_all add: serving_def go_Start_def NewServer_def)

lemma tcp_Serve_ok:
  assumes "tcp_Serve listen t = (None, t')"
  shows "tcp_tlsServer t' = Some (serving ProxyHandler \<lparr>ln_Addr = port_addr (tcp_httpsPort t), ln_TLS = True\<rparr>)"
    and "tcp_plainServer t' = Some (serving RedirectHandler \<lparr>ln_Addr = port_addr (tcp_httpPort t), ln_TLS = False\<rparr>)"
  using assms by (auto simp: tcp_Serve_def serving_def Let_def split: sum.splits)

lemma tailscale_Serve_ok:
  assumes "tailscale_Serve lc listen ctx t = (None, ctx', t')" "ts_tlsServer t = None"
  defines "mode \<equiv> ts_Mode (ts_options t)"
  shows "ts_tailscale t' \<noteq> None \<and> (mode = ''http'' \<or> mode = ''https'') \<and>
    (\<exists>whoIs. lc = Ok whoIs \<and> ctx' = ctx\<lparr>ctx_Rewriter := AddDecorator (tailscaleHeaderDecorator whoIs) (ctx_Rewriter ctx)\<rparr>) \<and>
    ts_plainServer t' = Some (serving (if mode = ''http'' then ProxyHandler else RedirectHandler) \<lparr>ln_Addr = '':80'', ln_TLS = False\<rparr>) \<and>
    ts_tlsServer t' = (if mode = ''http'' then None else Some (serving ProxyHandler \<lparr>ln_Addr = '':443'', ln_TLS = True\<rparr>))"
  using assms
  by (auto simp: tailscale_Serve_def startHttpServer_def startHttpsServer_def serving_def Let_def
      split: if_splits sum.splits option.splits prod.splits)

text \<open>Stopping takes at most the time-out for each of the two servers.\<close>

lemma Server_Stop_time: "fst (Server_Stop s) \<le> shutdownTimeout"
  by (simp add: Server_Stop_def)

lemma stop_if_made_time: "fst (stop_if_made s) \<le> shutdownTimeout"
  by (simp add: stop_if_made_def Server_Stop_def shutdownTimeout_def second_def split: option.split)

lemma tcp_Stop_time: "tcp_Stop t = Some (d, t') \<Longrightarrow> d \<le> 2 * shutdownTimeout"
  by (auto simp: tcp_Stop_def Server_Stop_def split: option.splits)

lemma tailscale_Stop_time: "tailscale_Stop t = Some (d, t') \<Longrightarrow> d \<le> 2 * shutdownTimeout"
  using stop_if_made_time [of "ts_plainServer t"] stop_if_made_time [of "ts_tlsServer t"]
  by (auto simp: tailscale_Stop_def Let_def split: option.splits prod.splits)

end
