(* ===== verification/Acme_Account.thy ===== *)
theory Acme_Account
  imports Suppliers
begin

text \<open>
  The rest of \<^verbatim>\<open>certificate/supplier_lego.go\<close>: the ACME account, which is loaded from a file or registered and saved
  there, and the construction of the supplier.

  The file is represented by what reading it gives. Keys are texts; \<open>parseKey\<close> and \<open>encodeKey\<close> stand for \<^verbatim>\<open>certcrypto.ParsePEMPrivateKey\<close> and \<^verbatim>\<open>certcrypto.PEMEncode\<close>.
\<close>

record ExtendedAccount =
  acc_Body :: string
  acc_Location :: string

record savedUser =
  su_Email :: string
  su_Registration :: ExtendedAccount
  su_Key :: string

datatype user_file = NoUserFile | UserUnreadable string | UserNotJson string | SavedUser savedUser

record acmeUser =
  au_email :: string
  au_eabKid :: string
  au_eabHmac :: string
  au_account :: "ExtendedAccount option"
  au_key :: "string option"

datatype acme_error =
    NotWritable string
  | KeyNotGenerated string
  | UserDataUnreadable string
  | UserDataInvalid string
  | UserKeyInvalid string
  | ClientFailed string
  | ChallengeFailed string
  | RegistrationFailed string
  | UserNotSerialized string
  | UserNotWritten string

text \<open>The answer of \<^verbatim>\<open>Stat\<close> on the path (an error that says it does not exist, or anything else), and of \<^verbatim>\<open>Access\<close> on the
  path and on its directory.\<close>

record path_access =
  stat_not_exist :: bool
  access_path :: "string option"
  access_dir :: "string option"

definition canWriteTo :: "path_access \<Rightarrow> string option" where
  "canWriteTo p = (if stat_not_exist p then access_dir p else access_path p)"

text \<open>\<open>newKey\<close> is the result of generating a key.\<close>

definition user_load ::
  "(string \<Rightarrow> (string, string) result) \<Rightarrow> (string, string) result \<Rightarrow> user_file \<Rightarrow> acmeUser \<Rightarrow> (acme_error, acmeUser) result" where
  "user_load parseKey newKey contents a =
     (case contents of
        NoUserFile \<Rightarrow>
          (case newKey of
             Inl err \<Rightarrow> Error (KeyNotGenerated err)
           | Inr privateKey \<Rightarrow> Ok (a\<lparr>au_key := Some privateKey\<rparr>))
      | UserUnreadable err \<Rightarrow> Error (UserDataUnreadable err)
      | UserNotJson err \<Rightarrow> Error (UserDataInvalid err)
      | SavedUser saved \<Rightarrow>
          (case parseKey (su_Key saved) of
             Inl err \<Rightarrow> Error (UserKeyInvalid err)
           | Inr key \<Rightarrow> Ok (a\<lparr>au_email := su_Email saved, au_account := Some (su_Registration saved), au_key := Some key\<rparr>)))"

text \<open>The DNS provider itself is left out; whether it can be used is the answer of \<open>ae_challenge\<close>.\<close>

record LegoSupplierConfig =
  lc_Path :: string
  lc_Email :: string
  lc_DirUrl :: string
  lc_Profile :: string
  lc_KeyType :: string
  lc_DisablePropagationCheck :: bool
  lc_PropagationDelay :: duration
  lc_ExternalAccountKid :: string
  lc_ExternalAccountHmac :: string
  lc_OverallRequestLimit :: int
  lc_ObtainInterval :: duration
  lc_Resolvers :: "string list"
  lc_Timeout :: duration

text \<open>The registration service: with or without a binding to an external account.\<close>

record registrar =
  RegisterWithExternalAccountBinding :: "string \<Rightarrow> string \<Rightarrow> (string, ExtendedAccount) result"
  Register :: "(string, ExtendedAccount) result"

text \<open>What happens when the file is written: it is, or an error that leaves something in its place.\<close>

datatype user_write = UserWritten | UserWriteFailed string user_file

record account_env =
  ae_registrar :: registrar
  ae_parseKey :: "string \<Rightarrow> (string, string) result"
  ae_encodeKey :: "string \<Rightarrow> string"
  ae_newKey :: "(string, string) result"
  ae_marshal :: "string option"
  ae_write :: user_write
  ae_client :: "LegoSupplierConfig \<Rightarrow> string option"
  ae_challenge :: "LegoSupplierConfig \<Rightarrow> string option"
  ae_access :: path_access

definition register_user :: "registrar \<Rightarrow> acmeUser \<Rightarrow> (string, ExtendedAccount) result" where
  "register_user r a =
     (if au_eabHmac a \<noteq> [] \<and> au_eabKid a \<noteq> [] then RegisterWithExternalAccountBinding r (au_eabKid a) (au_eabHmac a)
      else Register r)"

definition registerAndSave ::
  "account_env \<Rightarrow> user_file \<Rightarrow> acmeUser \<Rightarrow> acme_error option \<times> acmeUser \<times> user_file" where
  "registerAndSave env contents a =
     (case register_user (ae_registrar env) a of
        Inl err \<Rightarrow> (Some (RegistrationFailed err), a\<lparr>au_account := None\<rparr>, contents)
      | Inr account \<Rightarrow>
          (let a' = a\<lparr>au_account := Some account\<rparr> in
           case ae_marshal env of
             Some err \<Rightarrow> (Some (UserNotSerialized err), a', contents)
           | None \<Rightarrow>
               (let b = SavedUser \<lparr>su_Email = au_email a', su_Registration = account,
                                   su_Key = ae_encodeKey env (the (au_key a'))\<rparr>
                in case ae_write env of
                     UserWritten \<Rightarrow> (None, a', b)
                   | UserWriteFailed err left \<Rightarrow> (Some (UserNotWritten err), a', left))))"

text \<open>The result: the supplier and its user, how many registrations were sent, and the file afterwards.\<close>

definition NewLegoSupplier ::
  "account_env \<Rightarrow> LegoSupplierConfig \<Rightarrow> user_file \<Rightarrow> (acme_error, LegoSupplier \<times> acmeUser) result \<times> nat \<times> user_file" where
  "NewLegoSupplier env config contents =
     (case canWriteTo (ae_access env) of
        Some err \<Rightarrow> (Error (NotWritable err), 0, contents)
      | None \<Rightarrow>
     (case user_load (ae_parseKey env) (ae_newKey env) contents
             \<lparr>au_email = lc_Email config, au_eabKid = lc_ExternalAccountKid config, au_eabHmac = lc_ExternalAccountHmac config,
              au_account = None, au_key = None\<rparr> of
        Inl err \<Rightarrow> (Error err, 0, contents)
      | Inr user \<Rightarrow>
     (case ae_client env config of
        Some err \<Rightarrow> (Error (ClientFailed err), 0, contents)
      | None \<Rightarrow>
     (case ae_challenge env config of
        Some err \<Rightarrow> (Error (ChallengeFailed err), 0, contents)
      | None \<Rightarrow>
     (let s = \<lparr>ls_profile = lc_Profile config, ls_keyType = lc_KeyType config\<rparr> in
      if au_account user \<noteq> None then (Ok (s, user), 0, contents)
      else
     (case registerAndSave env contents user of
        (Some err, user', contents') \<Rightarrow> (Error err, 1, contents')
      | (None, user', contents') \<Rightarrow> (Ok (s, user'), 1, contents')))))))"

fun parse_resolvers :: "string list \<Rightarrow> string list" where
  "parse_resolvers [] = []"
| "parse_resolvers (part # parts) =
     (let p = trim_space part in if p \<noteq> [] then p # parse_resolvers parts else parse_resolvers parts)"

definition ParseResolvers :: "string \<Rightarrow> string list" where
  "ParseResolvers input = parse_resolvers (split_on CHR '','' input)"

subsection \<open>Facts\<close>

lemma parse_resolvers_filter: "parse_resolvers parts = filter (\<lambda>p. p \<noteq> []) (map trim_space parts)"
  by (induction parts) (auto simp: Let_def)

text \<open>Keys that are written can be read back, and reading a file that exists needs no new key.\<close>

definition keys_ok :: "account_env \<Rightarrow> bool" where
  "keys_ok env \<longleftrightarrow> (\<forall>k. ae_parseKey env (ae_encodeKey env k) = Ok k)"

lemma registerAndSave_ok:
  assumes "registerAndSave env contents a = (None, a', contents')"
  obtains account where "register_user (ae_registrar env) a = Ok account" "a' = a\<lparr>au_account := Some account\<rparr>"
    and "contents' = SavedUser \<lparr>su_Email = au_email a, su_Registration = account, su_Key = ae_encodeKey env (the (au_key a))\<rparr>"
  using assms by (auto simp: registerAndSave_def Let_def split: sum.splits option.splits user_write.splits)

lemma user_load_key: "user_load parseKey newKey contents a = Ok user \<Longrightarrow> au_key user \<noteq> None"
  by (auto simp: user_load_def split: user_file.splits sum.splits)

lemma user_load_registered:
  assumes "user_load parseKey newKey contents a = Ok user" "au_account a = None"
  shows "au_account user \<noteq> None \<longleftrightarrow> (\<exists>saved. contents = SavedUser saved)"
  using assms by (auto simp: user_load_def split: user_file.splits sum.splits)

text \<open>Once the supplier has been created, starting again finds the account: nothing is registered, and the account and the key
  are the same.\<close>

lemma restart_keeps_account:
  assumes first: "NewLegoSupplier env config contents = (Ok (s, user), n, contents')"
    and env: "keys_ok env" "ae_parseKey env' = ae_parseKey env"
      "canWriteTo (ae_access env') = None" "ae_client env' config' = None" "ae_challenge env' config' = None"
  shows "\<exists>s' user'. NewLegoSupplier env' config' contents' = (Ok (s', user'), 0, contents') \<and>
    au_account user' = au_account user \<and> au_key user' = au_key user \<and> au_email user' = au_email user"
proof -
  let ?a = "\<lambda>config. \<lparr>au_email = lc_Email config, au_eabKid = lc_ExternalAccountKid config,
    au_eabHmac = lc_ExternalAccountHmac config, au_account = None, au_key = None\<rparr>"
  obtain u where u: "user_load (ae_parseKey env) (ae_newKey env) contents (?a config) = Ok u"
    using first by (auto simp: NewLegoSupplier_def split: option.splits sum.splits)
  have "\<exists>saved key. contents' = SavedUser saved \<and> ae_parseKey env (su_Key saved) = Ok key \<and> au_account user = Some (su_Registration saved) \<and>
      au_key user = Some key \<and> au_email user = su_Email saved"
  proof (cases "au_account u")
    case None
    then have "registerAndSave env contents u = (None, user, contents')"
      using first u by (auto simp: NewLegoSupplier_def Let_def split: option.splits prod.splits)
    then obtain account where "user = u\<lparr>au_account := Some account\<rparr>"
      "contents' = SavedUser \<lparr>su_Email = au_email u, su_Registration = account, su_Key = ae_encodeKey env (the (au_key u))\<rparr>"
      by (rule registerAndSave_ok)
    with env(1) user_load_key [OF u] show ?thesis by (auto simp: keys_ok_def)
  next
    case (Some acc)
    then have "user = u" "contents' = contents"
      using first u by (auto simp: NewLegoSupplier_def Let_def split: option.splits)
    with Some u show ?thesis by (auto simp: user_load_def split: user_file.splits sum.splits)
  qed
  then show ?thesis using env(2-5) by (auto simp: NewLegoSupplier_def user_load_def Let_def)
qed

end
