(* ===== verification/Command.thy ===== *)
theory Command
  imports Network_Source Redis_Store Redis_Lease Frontends Acme_Account
begin

text \<open>
  \<^verbatim>\<open>cmd/centauri/main.go\<close>: the parts of the program put together, its start-up and the loop that waits for signals
  and errors.

  \<open>flags\<close> are the command-line options, except the paths of the files that \<open>inputs\<close> has the contents of; \<open>inputs\<close> is what the start-up gets
  from outside, and the build tags the binary was made with. The goroutines it starts are the step relation \<open>system_step\<close> at the end.
\<close>

text \<open>Build tags that leave out a feature.\<close>

record build_tags =
  notcp :: bool
  notailscale :: bool
  noredis :: bool

definition certCheckInterval :: duration where
  "certCheckInterval = 12 * hour"

record flags =
  fl_frontend :: string
  fl_config_source :: string
  fl_trusted_downstreams :: string
  fl_metrics_port :: int
  fl_debug_cpu_profile :: string
  fl_validate :: bool
  fl_config_network_address :: string
  fl_certificate_store_type :: string
  fl_certificate_providers :: string
  fl_wildcard_domains :: string
  fl_ocsp_stapling :: bool
  fl_http_port :: int
  fl_https_port :: int
  fl_tailscale_hostname :: string
  fl_tailscale_key :: string
  fl_tailscale_mode :: string
  fl_tailscale_dir :: string
  fl_redis_address :: string
  fl_redis_username :: string
  fl_redis_password :: string
  fl_redis_db :: int
  fl_redis_key_prefix :: string
  fl_redis_tls :: bool
  fl_dns_provider :: string
  fl_acme_email :: string
  fl_acme_profile :: string
  fl_acme_external_kid :: string
  fl_acme_external_hmac :: string
  fl_user_data :: string
  fl_acme_directory :: string
  fl_acme_disable_propagation_check :: bool
  fl_acme_propagation_delay :: duration
  fl_acme_resolvers :: string
  fl_acme_overall_request_limit :: int
  fl_acme_obtain_interval :: duration
  fl_acme_overall_timeout :: duration

datatype Source = FileSrc FileSource | NetSrc NetworkSource

datatype Frontend = TcpFront tcpFrontend | TailscaleFront tailscaleFrontend

text \<open>The two certificate stores have different states: a world with the store in it, or the store on a server.\<close>

datatype 'e opened_store = JsonOpened "'e json_world" | RedisOpened RedisStore

record ('e, 'net) inputs =
  in_tags :: build_tags
  in_create_profile :: "string option"   \<comment> \<open>error of creating the file for the CPU profile\<close>
  in_start_profile :: "string option"
  in_file :: opened
  in_dial :: "(string, connection) result"
  in_world :: "'e json_world"
  in_ping :: "redis_client \<Rightarrow> reply"
  in_hash :: redis_hash
  in_redis :: redis_env
  in_dns :: "(string, unit) result"
  in_account :: account_env
  in_user_file :: user_file
  in_parseCIDR :: "string \<Rightarrow> 'net option"
  in_localClient :: "(string, string \<Rightarrow> UserProfile option) result"
  in_listen :: listen
  in_listen_metrics :: "(string, unit) result"

subsection \<open>Choices by name\<close>

definition createFrontend :: "build_tags \<Rightarrow> flags \<Rightarrow> string \<Rightarrow> (string, Frontend) result" where
  "createFrontend tags fl name =
     (if to_lower name = ''tcp''
      then map_sum id TcpFront ((if notcp tags then NewTCP_disabled else NewTCP) (fl_http_port fl) (fl_https_port fl))
      else if to_lower name = ''tailscale''
      then map_sum id TailscaleFront ((if notailscale tags then NewTailscale_disabled else NewTailscale)
        \<lparr>ts_Hostname = fl_tailscale_hostname fl, ts_AuthKey = fl_tailscale_key fl, ts_Mode = fl_tailscale_mode fl, ts_Dir = fl_tailscale_dir fl\<rparr>)
      else Error (''unknown frontend: '' @ name))"

definition createConfigSource :: "flags \<Rightarrow> string \<Rightarrow> (string, Source) result" where
  "createConfigSource fl name =
     (if to_lower name = ''file'' then Ok (FileSrc NewFileSource)
      else if to_lower name = ''network'' then Ok (NetSrc (NewNetworkSource (fl_config_network_address fl)))
      else Error (''unknown config source: '' @ name))"

definition createCertificateStore :: "flags \<Rightarrow> ('e, 'net) inputs \<Rightarrow> string \<Rightarrow> (string, 'e opened_store) result" where
  "createCertificateStore fl i name =
     (if to_lower name = ''json'' then map_sum id JsonOpened (NewStore (in_world i))
      else if to_lower name = ''redis''
      then (let options = \<lparr>ro_Addr = fl_redis_address fl, ro_Username = fl_redis_username fl, ro_Password = fl_redis_password fl,
              ro_DB = fl_redis_db fl, ro_KeyPrefix = fl_redis_key_prefix fl, ro_UseTLS = fl_redis_tls fl\<rparr>
            in map_sum id RedisOpened (if noredis (in_tags i) then NewRedisStoreFromOptions_disabled options
                 else NewRedisStoreFromOptions (in_ping i) options (in_hash i) (in_redis i)))
      else Error (''unknown certificate store: '' @ name))"

text \<open>The configuration of the ACME supplier, if there is a DNS provider. \<^verbatim>\<open>certcrypto.EC384\<close> is lego's name of a kind of key.\<close>

definition EC384 :: string where
  "EC384 = ''P384''"

definition legoConfig :: "flags \<Rightarrow> ('e, 'net) inputs \<Rightarrow> LegoSupplierConfig option" where
  "legoConfig fl i =
     (if fl_dns_provider fl = [] then None
      else (case in_dns i of
              Inl err \<Rightarrow> None
            | Inr _ \<Rightarrow> Some \<lparr>lc_Path = fl_user_data fl, lc_Email = fl_acme_email fl, lc_DirUrl = fl_acme_directory fl,
                lc_Profile = fl_acme_profile fl, lc_KeyType = EC384,
                lc_DisablePropagationCheck = fl_acme_disable_propagation_check fl,
                lc_PropagationDelay = fl_acme_propagation_delay fl,
                lc_ExternalAccountKid = fl_acme_external_kid fl, lc_ExternalAccountHmac = fl_acme_external_hmac fl,
                lc_OverallRequestLimit = fl_acme_overall_request_limit fl, lc_ObtainInterval = fl_acme_obtain_interval fl,
                lc_Resolvers = ParseResolvers (fl_acme_resolvers fl), lc_Timeout = fl_acme_overall_timeout fl\<rparr>))"

text \<open>\<^verbatim>\<open>NewProvider\<close> creates the ACME supplier, and goes on without it if it cannot.\<close>

definition lego_or_none :: "account_env \<Rightarrow> LegoSupplierConfig option \<Rightarrow> user_file \<Rightarrow> LegoSupplier option" where
  "lego_or_none env config contents =
     (case config of
        None \<Rightarrow> None
      | Some c \<Rightarrow> (case fst (NewLegoSupplier env c contents) of Inl err \<Rightarrow> None | Inr (s, user) \<Rightarrow> Some s))"

record 'e provider_setup =
  ps_store :: "'e opened_store"
  ps_lego :: "LegoSupplier option"
  ps_preferred :: "string list"
  ps_wildcards :: "string list"
  ps_staples :: bool

definition certProvider :: "flags \<Rightarrow> ('e, 'net) inputs \<Rightarrow> (string, 'e provider_setup) result" where
  "certProvider fl i =
     (case createCertificateStore fl i (fl_certificate_store_type fl) of
        Inl err \<Rightarrow> Error (''certificate store error: '' @ err)
      | Inr store \<Rightarrow> Ok \<lparr>ps_store = store,
          ps_lego = lego_or_none (in_account i) (legoConfig fl i) (in_user_file i),
          ps_preferred = split_on CHR '' '' (fl_certificate_providers fl),
          ps_wildcards = split_on CHR '' '' (fl_wildcard_domains fl), ps_staples = fl_ocsp_stapling fl\<rparr>)"

subsection \<open>The interfaces\<close>

fun Source_Start :: "(string, connection) result \<Rightarrow> Source \<Rightarrow> (SourceError, Source) result" where
  "Source_Start dial (FileSrc f) = Ok (FileSrc (FileSource_Start f))"
| "Source_Start dial (NetSrc n) = map_sum id NetSrc (NetworkSource_Start dial n)"

fun Source_Stop :: "Source \<Rightarrow> Source option" where
  "Source_Stop (FileSrc f) = map_option FileSrc (FileSource_Stop f)"
| "Source_Stop (NetSrc n) = map_option NetSrc (NetworkSource_Stop n)"

fun Source_Reload :: "Source \<Rightarrow> Source" where
  "Source_Reload (FileSrc f) = FileSrc (FileSource_Reload f)"
| "Source_Reload (NetSrc n) = NetSrc (NetworkSource_Reload n)"

fun Source_Validate :: "(string \<Rightarrow> bool) \<Rightarrow> opened \<Rightarrow> Source \<Rightarrow> SourceError option" where
  "Source_Validate auth_ok contents (FileSrc f) = FileSource_Validate auth_ok contents"
| "Source_Validate auth_ok contents (NetSrc n) = NetworkSource_Validate n"

fun UsesCertificates :: "Frontend \<Rightarrow> bool" where
  "UsesCertificates (TcpFront t) = tcp_UsesCertificates t"
| "UsesCertificates (TailscaleFront t) = tailscale_UsesCertificates t"

fun Serve :: "('e, 'net) inputs \<Rightarrow> 'm Context \<Rightarrow> Frontend \<Rightarrow> string option \<times> 'm Context \<times> Frontend" where
  "Serve i ctx (TcpFront t) = (case tcp_Serve (in_listen i) t of (err, t') \<Rightarrow> (err, ctx, TcpFront t'))"
| "Serve i ctx (TailscaleFront t) =
     (case tailscale_Serve (in_localClient i) (in_listen i) ctx t of (err, ctx', t') \<Rightarrow> (err, ctx', TailscaleFront t'))"

text \<open>How long stopping the servers takes, and the frontend afterwards.\<close>

fun Frontend_Stop :: "Frontend \<Rightarrow> (duration \<times> Frontend) option" where
  "Frontend_Stop (TcpFront t) = map_option (map_prod id TcpFront) (tcp_Stop t)"
| "Frontend_Stop (TailscaleFront t) = map_option (map_prod id TailscaleFront) (tailscale_Stop t)"

subsection \<open>Start-up\<close>

datatype main_error =
    ProfileError string
  | ValidationError SourceError
  | InvalidSource string
  | InvalidFrontend string
  | ProviderError string
  | DownstreamsError string
  | SourceStartError SourceError
  | FrontendStartError string
  | ReportedError string

text \<open>What runs after the start-up: the source, the frontend, what the frontend's handlers share (with the certificate provider that the
  manager was made with, if any), the interval of the certificate checks, the metrics server, and how many messages are in
  \<^verbatim>\<open>metricsChan\<close>, which has room for one.\<close>

record 'e running =
  ru_source :: Source
  ru_frontend :: Frontend
  ru_context :: "'e provider_setup option Context"
  ru_monitoring :: "duration option"
  ru_metrics :: "Server option"
  ru_metricsChan :: nat

abbreviation ru_provider :: "'e running \<Rightarrow> 'e provider_setup option" where
  "ru_provider r \<equiv> ctx_Manager (ru_context r)"

abbreviation ru_rewriter :: "'e running \<Rightarrow> RewriterState" where
  "ru_rewriter r \<equiv> ctx_Rewriter (ru_context r)"

datatype 'e started = StartFailed main_error | Validated "SourceError option" | Started "'e running"

text \<open>The CPU profile, if one is asked for.\<close>

definition start_profile :: "flags \<Rightarrow> ('e, 'net) inputs \<Rightarrow> string option" where
  "start_profile fl i =
     (if fl_debug_cpu_profile fl = [] then None
      else (case in_create_profile i of
              Some err \<Rightarrow> Some (''could not create file for cpu profiling: '' @ err)
            | None \<Rightarrow> map_option (\<lambda>err. ''could not start CPU profile: '' @ err) (in_start_profile i)))"

text \<open>The metrics server: a server like the others, whose goroutine reports an error if it cannot listen.\<close>

definition serveMetrics :: "int \<Rightarrow> (string, unit) result \<Rightarrow> Server \<times> string option" where
  "serveMetrics port l =
     (let s = NewServer MetricsHandler in
      case l of
        Inl err \<Rightarrow> (s, Some (''failed to listen on port '' @ format_d port @ '': '' @ err))
      | Inr _ \<Rightarrow> (go_Start \<lparr>ln_Addr = port_addr port, ln_TLS = False\<rparr> s, None))"

definition run_start ::
  "(string \<Rightarrow> bool) \<Rightarrow> (string \<Rightarrow> 'ip option) \<Rightarrow> ('net \<Rightarrow> 'ip \<Rightarrow> bool) \<Rightarrow> (Client \<Rightarrow> Request \<Rightarrow> Response option) \<Rightarrow>
   flags \<Rightarrow> ('e, 'net) inputs \<Rightarrow> 'e started" where
  "run_start auth_ok parseIP contains client fl i =
     (case start_profile fl i of
        Some err \<Rightarrow> StartFailed (ProfileError err)
      | None \<Rightarrow>
     (case createConfigSource fl (fl_config_source fl) of
        Inl err \<Rightarrow> StartFailed (InvalidSource err)
      | Inr configSource \<Rightarrow>
     if fl_validate fl then Validated (Source_Validate auth_ok (in_file i) configSource)
     else
     (case createFrontend (in_tags i) fl (fl_frontend fl) of
        Inl err \<Rightarrow> StartFailed (InvalidFrontend err)
      | Inr f \<Rightarrow>
     (case (if UsesCertificates f then map_sum id Some (certProvider fl i) else Ok None) of
        Inl err \<Rightarrow> StartFailed (ProviderError err)
      | Inr provider \<Rightarrow>
     (case ParseCIDRList (in_parseCIDR i) (fl_trusted_downstreams fl) of
        Inl err \<Rightarrow> StartFailed (DownstreamsError err)
      | Inr downstreams \<Rightarrow>
     (case Source_Start (in_dial i) configSource of
        Inl err \<Rightarrow> StartFailed (SourceStartError err)
      | Inr configSource' \<Rightarrow>
     (case Serve i \<lparr>ctx_Manager = provider, ctx_Rewriter = NewRewriter parseIP contains downstreams client, ctx_Recorder = NewRecorder\<rparr> f of
        (Some err, ctx, f') \<Rightarrow> StartFailed (FrontendStartError err)
      | (None, ctx, f') \<Rightarrow>
          Started \<lparr>ru_source = configSource', ru_frontend = f', ru_context = ctx,
            ru_monitoring = (if UsesCertificates f then Some certCheckInterval else None),
            ru_metrics = (if 0 < fl_metrics_port fl then Some (fst (serveMetrics (fl_metrics_port fl) (in_listen_metrics i))) else None),
            ru_metricsChan = 0\<rparr>)))))))"

subsection \<open>The main loop\<close>

datatype event = SigHup | SigInt | SigTerm | ErrorEvent string

text \<open>\<open>Exit\<close> has the error that is returned and how long stopping the servers took; \<open>Stuck\<close> is a send on a full channel, or a panic.\<close>

datatype 'e after_event = Continue "'e running" | Exit "string option" duration "'e running" | Stuck

definition stop_all :: "'e running \<Rightarrow> (duration \<times> 'e running) option" where
  "stop_all r =
     (case Source_Stop (ru_source r) of
        None \<Rightarrow> None
      | Some s \<Rightarrow>
          (case Frontend_Stop (ru_frontend r) of None \<Rightarrow> None | Some (d, f) \<Rightarrow> Some (d, r\<lparr>ru_source := s, ru_frontend := f\<rparr>)))"

definition run_event :: "event \<Rightarrow> 'e running \<Rightarrow> 'e after_event" where
  "run_event ev r =
     (case ev of
        SigHup \<Rightarrow> Continue (r\<lparr>ru_source := Source_Reload (ru_source r)\<rparr>)
      | ErrorEvent err \<Rightarrow>
          (case Frontend_Stop (ru_frontend r) of
             None \<Rightarrow> Stuck
           | Some (d, f) \<Rightarrow>
               (case Source_Stop (ru_source r) of
                  None \<Rightarrow> Stuck
                | Some s \<Rightarrow> Exit (Some err) d (r\<lparr>ru_source := s, ru_frontend := f\<rparr>)))
      | _ \<Rightarrow>
          (if 1 \<le> ru_metricsChan r then Stuck
           else (case stop_all (r\<lparr>ru_metricsChan := Suc (ru_metricsChan r)\<rparr>) of
                   None \<Rightarrow> Stuck
                 | Some (d, r') \<Rightarrow> Exit None d r')))"

text \<open>The loop, for the signals and errors that arrive: it returns an error or none, or still waits, or hangs.\<close>

datatype 'e looped = Waiting "'e running" | Returned "main_error option" | Hung

fun run_loop :: "event list \<Rightarrow> 'e running \<Rightarrow> 'e looped" where
  "run_loop [] r = Waiting r"
| "run_loop (ev # evs) r =
     (case run_event ev r of
        Continue r' \<Rightarrow> run_loop evs r'
      | Exit err d r' \<Rightarrow> Returned (map_option ReportedError err)
      | Stuck \<Rightarrow> Hung)"

definition run ::
  "(string \<Rightarrow> bool) \<Rightarrow> (string \<Rightarrow> 'ip option) \<Rightarrow> ('net \<Rightarrow> 'ip \<Rightarrow> bool) \<Rightarrow> (Client \<Rightarrow> Request \<Rightarrow> Response option) \<Rightarrow>
   flags \<Rightarrow> ('e, 'net) inputs \<Rightarrow> event list \<Rightarrow> 'e looped" where
  "run auth_ok parseIP contains client fl i evs =
     (case run_start auth_ok parseIP contains client fl i of
        StartFailed err \<Rightarrow> Returned (Some err)
      | Validated err \<Rightarrow> Returned (map_option ValidationError err)
      | Started r \<Rightarrow> run_loop evs r)"

text \<open>The exit status of the process once \<^verbatim>\<open>run\<close> has returned.\<close>

definition main_exit :: "'e looped \<Rightarrow> nat option" where
  "main_exit res = (case res of Returned err \<Rightarrow> Some (if err = None then 0 else 1) | _ \<Rightarrow> None)"

subsection \<open>The program can always be stopped\<close>

text \<open>What the goroutine of the source does to the source, as the main loop sees it.\<close>

inductive source_moves :: "Source \<Rightarrow> Source \<Rightarrow> bool" where
  takes_update: "0 < fs_updateChan f \<Longrightarrow> source_moves (FileSrc f) (FileSrc (f\<lparr>fs_updateChan := fs_updateChan f - 1\<rparr>))"
| reads_network: "source_moves (NetSrc n) (NetSrc (n\<lparr>ns_conn := c, initialConfigRead := b, secondChance := chance\<rparr>))"

lemma round_moves:
  assumes "NetworkSource_round auth_ok updateRoutes i now n m = NetLooped now' n' m' \<or>
    NetworkSource_round auth_ok updateRoutes i now n m = NetReturned err now' n' m'" "ns_stopChan n = 0"
  shows "source_moves (NetSrc n) (NetSrc n')"
proof -
  have "n' = n\<lparr>ns_conn := ns_conn n', initialConfigRead := initialConfigRead n', secondChance := secondChance n'\<rparr>"
    using assms
    by (cases n) (auto simp: NetworkSource_round_def reconnect_def Let_def split: if_splits option.splits prod.splits sum.splits)
  then show ?thesis by (metis source_moves.reads_network)
qed

inductive main_reachable :: "'e running \<Rightarrow> 'e running \<Rightarrow> bool" for r where
  started: "main_reachable r r"
| event: "main_reachable r r1 \<Longrightarrow> run_event ev r1 = Continue r2 \<Longrightarrow> main_reachable r r2"
| moves: "main_reachable r r1 \<Longrightarrow> source_moves (ru_source r1) s \<Longrightarrow> main_reachable r (r1\<lparr>ru_source := s\<rparr>)"

fun source_idle :: "Source \<Rightarrow> bool" where
  "source_idle (FileSrc f) = (fs_stopChan f = 0)"
| "source_idle (NetSrc n) = (ns_stopChan n = 0)"

definition running_ok :: "'e running \<Rightarrow> bool" where
  "running_ok r \<longleftrightarrow> source_idle (ru_source r) \<and> Frontend_Stop (ru_frontend r) \<noteq> None \<and> ru_metricsChan r = 0"

lemma source_idle_stop: "source_idle s \<Longrightarrow> Source_Stop s \<noteq> None"
  by (cases s) (simp_all add: FileSource_Stop_def NetworkSource_Stop_def)

lemma source_idle_reload: "source_idle s \<Longrightarrow> source_idle (Source_Reload s)"
  by (cases s) (simp_all add: FileSource_Reload_def NetworkSource_Reload_def)

lemma source_moves_idle: "source_moves s s' \<Longrightarrow> source_idle s \<Longrightarrow> source_idle s'"
  by (induction rule: source_moves.induct) simp_all

lemma source_start_idle:
  "createConfigSource fl name = Ok s \<Longrightarrow> Source_Start dial s = Ok s' \<Longrightarrow> source_idle s'"
  by (auto simp: createConfigSource_def NewFileSource_def NewNetworkSource_def FileSource_Start_def FileSource_Reload_def
      NetworkSource_Start_def split: if_splits sum.splits)

lemma createFrontend_cases:
  assumes "createFrontend tags fl name = Ok f"
  obtains (tcp) t where "f = TcpFront t" "NewTCP (fl_http_port fl) (fl_https_port fl) = Ok t" "\<not> notcp tags"
  | (tailscale) t where "f = TailscaleFront t" "ts_tlsServer t = None" "ts_Mode (ts_options t) = fl_tailscale_mode fl" "\<not> notailscale tags"
  using assms
  by (auto simp: createFrontend_def NewTCP_def NewTCP_disabled_def NewTailscale_def NewTailscale_disabled_def split: if_splits)

lemma serve_stoppable:
  assumes "createFrontend tags fl name = Ok f" "Serve i ctx f = (None, ctx', f')"
  shows "Frontend_Stop f' \<noteq> None"
  using assms(1)
proof (cases rule: createFrontend_cases)
  case (tcp t)
  with assms(2) obtain t' where t': "tcp_Serve (in_listen i) t = (None, t')" "f' = TcpFront t'"
    by (auto split: prod.splits)
  with tcp_Serve_ok [OF t'(1)] show ?thesis by (simp add: tcp_Stop_def Let_def split: prod.split)
next
  case (tailscale t)
  obtain t' where t': "tailscale_Serve (in_localClient i) (in_listen i) ctx t = (None, ctx', t')" "f' = TailscaleFront t'"
    using assms(2) tailscale(1) by (auto split: prod.splits)
  with tailscale_Serve_ok [OF t'(1) tailscale(2)] show ?thesis by (auto simp: tailscale_Stop_def Let_def split: prod.split)
qed

text \<open>The start-up, once it has succeeded.\<close>

lemma run_start_cases:
  assumes "run_start auth_ok parseIP contains client fl i = Started r"
  obtains src f nets provider where "createConfigSource fl (fl_config_source fl) = Ok src"
    "createFrontend (in_tags i) fl (fl_frontend fl) = Ok f" "Source_Start (in_dial i) src = Ok (ru_source r)"
    "Serve i \<lparr>ctx_Manager = provider, ctx_Rewriter = NewRewriter parseIP contains nets client, ctx_Recorder = NewRecorder\<rparr> f =
       (None, ru_context r, ru_frontend r)"
    "ParseCIDRList (in_parseCIDR i) (fl_trusted_downstreams fl) = Ok nets"
    "(if UsesCertificates f then map_sum id Some (certProvider fl i) else Ok None) = Ok provider"
    "ru_metricsChan r = 0" "ru_monitoring r = (if UsesCertificates f then Some certCheckInterval else None)"
  using assms
  by (auto simp: run_start_def split: option.splits sum.splits if_splits prod.splits)

lemma run_start_ok:
  assumes "run_start auth_ok parseIP contains client fl i = Started r"
  shows "running_ok r"
proof -
  obtain src f nets provider where "createConfigSource fl (fl_config_source fl) = Ok src"
    "createFrontend (in_tags i) fl (fl_frontend fl) = Ok f" "Source_Start (in_dial i) src = Ok (ru_source r)"
    "Serve i \<lparr>ctx_Manager = provider, ctx_Rewriter = NewRewriter parseIP contains nets client, ctx_Recorder = NewRecorder\<rparr> f =
       (None, ru_context r, ru_frontend r)" "ru_metricsChan r = 0"
    by (rule run_start_cases [OF assms])
  then show ?thesis using source_start_idle serve_stoppable unfolding running_ok_def by metis
qed

lemma main_reachable_ok: "main_reachable r0 r \<Longrightarrow> running_ok r0 \<Longrightarrow> running_ok r"
proof (induction rule: main_reachable.induct)
  case (event r1 ev r2)
  then show ?case
    by (cases ev) (auto simp: run_event_def running_ok_def source_idle_reload split: if_splits option.splits)
next
  case (moves r1 s)
  then show ?case using source_moves_idle by (auto simp: running_ok_def)
qed simp

lemma Frontend_Stop_time: "Frontend_Stop f = Some (d, f') \<Longrightarrow> d \<le> 2 * shutdownTimeout"
  by (cases f) (auto dest: tcp_Stop_time tailscale_Stop_time)

lemma running_ok_stops:
  assumes "running_ok r" "ev \<noteq> SigHup"
  shows "\<exists>d r'. run_event ev r = Exit (case ev of ErrorEvent e \<Rightarrow> Some e | _ \<Rightarrow> None) d r' \<and> d \<le> 2 * shutdownTimeout"
proof -
  obtain s d f where "Source_Stop (ru_source r) = Some s" "Frontend_Stop (ru_frontend r) = Some (d, f)"
    using assms(1) source_idle_stop unfolding running_ok_def by (metis option.exhaust prod.exhaust)
  moreover from this have "d \<le> 2 * shutdownTimeout" using Frontend_Stop_time by blast
  ultimately show ?thesis using assms by (cases ev) (simp_all add: run_event_def stop_all_def running_ok_def)
qed

text \<open>What the process returns is decided by the first event that is not a reload.\<close>

lemma run_loop_ends:
  assumes "running_ok r" "ev \<noteq> SigHup"
  shows "run_loop (replicate n SigHup @ ev # evs) r = Returned (case ev of ErrorEvent e \<Rightarrow> Some (ReportedError e) | _ \<Rightarrow> None)"
  using assms(1)
proof (induction n arbitrary: r)
  case 0
  from running_ok_stops [OF 0 assms(2)] obtain d r' where "run_event ev r = Exit (case ev of ErrorEvent e \<Rightarrow> Some e | _ \<Rightarrow> None) d r'"
    by blast
  then show ?case by (cases ev) simp_all
next
  case (Suc n)
  have "running_ok (r\<lparr>ru_source := Source_Reload (ru_source r)\<rparr>)"
    using Suc.prems source_idle_reload by (auto simp: running_ok_def)
  with Suc.IH show ?case by (simp add: run_event_def)
qed

subsection \<open>Which server does what\<close>

fun plain_server :: "Frontend \<Rightarrow> Server option" where
  "plain_server (TcpFront t) = tcp_plainServer t"
| "plain_server (TailscaleFront t) = ts_plainServer t"

fun tls_server :: "Frontend \<Rightarrow> Server option" where
  "tls_server (TcpFront t) = tcp_tlsServer t"
| "tls_server (TailscaleFront t) = ts_tlsServer t"

lemma serve_servers:
  assumes "createFrontend tags fl name = Ok f" "Serve i ctx f = (None, ctx', f')"
  shows "ctx_Manager ctx' = ctx_Manager ctx \<and>
    (\<exists>a. plain_server f' = Some (serving (if UsesCertificates f then RedirectHandler else ProxyHandler) \<lparr>ln_Addr = a, ln_TLS = False\<rparr>)) \<and>
    (if UsesCertificates f then \<exists>a. tls_server f' = Some (serving ProxyHandler \<lparr>ln_Addr = a, ln_TLS = True\<rparr>) else tls_server f' = None)"
  using assms(1)
proof (cases rule: createFrontend_cases)
  case (tcp t)
  with assms(2) obtain t' where t': "tcp_Serve (in_listen i) t = (None, t')" "f' = TcpFront t'" "ctx' = ctx"
    by (auto split: prod.splits)
  with tcp_Serve_ok [OF t'(1)] tcp(1) show ?thesis by (auto simp: tcp_UsesCertificates_def)
next
  case (tailscale t)
  obtain t' where t': "tailscale_Serve (in_localClient i) (in_listen i) ctx t = (None, ctx', t')" "f' = TailscaleFront t'"
    using assms(2) tailscale(1) by (auto split: prod.splits)
  with tailscale_Serve_ok [OF t'(1) tailscale(2)] tailscale show ?thesis
    by (auto simp: tailscale_UsesCertificates_def)
qed

subsection \<open>The running system\<close>

text \<open>The sources can rely on the manager, with either store.\<close>

interpretation json_updates: route_updater install_routes "mgr_reachable (provider_inv P) (Some (json_provider P config))" for P config
  by (rule manager_updates [OF json_prov.certificate_provider_axioms])

interpretation redis_updates: route_updater install_routes "mgr_reachable (redis_provider_inv P) (Some (redis_provider P config))" for P config
  by (rule manager_updates [OF redis_prov.certificate_provider_axioms])

text \<open>The goroutines of the running program, as far as they change the manager: the source, which installs the configurations that arrive;
  the certificate checks; and the world around the certificate provider. Handling requests only reads the manager.\<close>

record 'p system =
  sy_source :: Source
  sy_manager :: "'p Manager"

inductive system_step :: "(string \<Rightarrow> bool) \<Rightarrow> ('p \<Rightarrow> bool) \<Rightarrow> 'p system \<Rightarrow> 'p system \<Rightarrow> bool" for auth_ok pinv where
  reload: "system_step auth_ok pinv s (s\<lparr>sy_source := Source_Reload (sy_source s)\<rparr>)"
| file_update: "sy_source s = FileSrc f \<Longrightarrow> 0 < fs_updateChan f \<Longrightarrow>
    FileSource_update auth_ok install_routes configFile (sy_manager s) = Some (err, m') \<Longrightarrow>
    system_step auth_ok pinv s (s\<lparr>sy_source := FileSrc (f\<lparr>fs_updateChan := fs_updateChan f - 1\<rparr>), sy_manager := m'\<rparr>)"
| network_round: "sy_source s = NetSrc n \<Longrightarrow>
    NetworkSource_round auth_ok install_routes i now n (sy_manager s) = NetLooped now' n' m' \<or>
    NetworkSource_round auth_ok install_routes i now n (sy_manager s) = NetReturned err now' n' m' \<Longrightarrow>
    system_step auth_ok pinv s (s\<lparr>sy_source := NetSrc n', sy_manager := m'\<rparr>)"
| check: "ref < m_next (sy_manager s) \<Longrightarrow> check_route ref (sy_manager s) = Some m' \<Longrightarrow>
    system_step auth_ok pinv s (s\<lparr>sy_manager := m'\<rparr>)"
| world: "pinv ps \<Longrightarrow> system_step auth_ok pinv s (s\<lparr>sy_manager := (sy_manager s)\<lparr>m_pstate := ps\<rparr>\<rparr>)"

inductive system_reachable ::
  "(string \<Rightarrow> bool) \<Rightarrow> ('p \<Rightarrow> bool) \<Rightarrow> 'p CertificateProvider option \<Rightarrow> 'p \<Rightarrow> Source \<Rightarrow> 'p system \<Rightarrow> bool"
  for auth_ok pinv prov ps src where
  start: "system_reachable auth_ok pinv prov ps src \<lparr>sy_source = src, sy_manager = NewManager prov ps\<rparr>"
| step: "system_reachable auth_ok pinv prov ps src s \<Longrightarrow> system_step auth_ok pinv s s' \<Longrightarrow>
    system_reachable auth_ok pinv prov ps src s'"

text \<open>Whatever configurations arrive, the manager stays in the states the manager's own steps lead to.\<close>

lemma system_step_manager:
  "system_step auth_ok pinv s s' \<Longrightarrow> sy_manager s' = sy_manager s \<or> mgr_step pinv (sy_manager s) (sy_manager s')"
proof (induction rule: system_step.induct)
  case (file_update s f configFile err m')
  then show ?case using FileSource_update_step by fastforce
next
  case (network_round s n i now now' n' m' err)
  then show ?case using round_step by fastforce
qed (auto intro: mgr_step.check mgr_step.world)

lemma system_manager_reachable:
  "system_reachable auth_ok pinv prov ps src s \<Longrightarrow> pinv ps \<Longrightarrow> mgr_reachable pinv prov (sy_manager s)"
proof (induction rule: system_reachable.induct)
  case start
  then show ?case by (simp add: mgr_reachable.start)
next
  case (step s s')
  then show ?case using system_step_manager by (metis mgr_reachable.step)
qed

text \<open>The certificate provider of a running program with a store on a Redis server.\<close>

definition redis_setup_config :: "'e provider_setup \<Rightarrow> (RedisStore, 'e) ProviderConfig" where
  "redis_setup_config p = \<lparr>pc_Store = redis_store, pc_Lego = ps_lego p, PreferredSuppliers = ps_preferred p,
     WildcardDomains = ps_wildcards p, UseStaples = ps_staples p\<rparr>"

definition setup_provider :: "'e Pki \<Rightarrow> 'e provider_setup \<Rightarrow> 'e redis_world CertificateProvider" where
  "setup_provider P p = wildcard_provider (NewProvider P (redis_setup_config p))"

lemma setup_provider_redis: "setup_provider P p = redis_provider P (redis_setup_config p)"
  by (simp add: setup_provider_def redis_provider_def redis_setup_config_def)

text \<open>A program that has just started, with nothing in memory, is in a state in which the provider works, if the hash on the server is in order,
  the other instances keep it so, and attempts to lock succeed again and again.\<close>

definition redis_inputs_ok :: "'e Pki \<Rightarrow> ('e, 'net) inputs \<Rightarrow> bool" where
  "redis_inputs_ok P i \<longleftrightarrow> pki_ok P \<and> hash_ok (parsePEM P) (in_hash i) \<and> redis_env_ok (parsePEM P) (in_redis i) \<and> lock_env_ok (in_redis i)"

lemma map_sum_Inr_conv: "map_sum f g x = Inr y \<longleftrightarrow> (\<exists>z. x = Inr z \<and> y = g z)"
  by (cases x) auto

lemma started_provider:
  assumes "run_start auth_ok parseIP contains client fl i = Started r"
  shows "ru_provider r \<noteq> None \<longrightarrow> certProvider fl i = Ok (the (ru_provider r))"
proof -
  obtain src f nets provider where f: "createFrontend (in_tags i) fl (fl_frontend fl) = Ok f"
    and s: "Serve i \<lparr>ctx_Manager = provider, ctx_Rewriter = NewRewriter parseIP contains nets client, ctx_Recorder = NewRecorder\<rparr> f =
       (None, ru_context r, ru_frontend r)"
    and p: "(if UsesCertificates f then map_sum id Some (certProvider fl i) else Ok None) = Ok provider"
    by (rule run_start_cases [OF assms])
  have "ru_provider r = provider" using serve_servers [OF f s] by simp
  with p show ?thesis by (cases "certProvider fl i") (auto split: if_splits)
qed

lemma started_redis_inv:
  assumes "run_start auth_ok parseIP contains client fl i = Started r" "ru_provider r = Some p"
    and "ps_store p = RedisOpened (w_store w)" "w_next w = 0" "redis_inputs_ok P i"
  shows "redis_provider_inv P w"
proof -
  have "ru_provider r \<noteq> None \<longrightarrow> certProvider fl i = Ok (the (ru_provider r))" by (rule started_provider [OF assms(1)])
  then have "certProvider fl i = Ok p"
    using assms(2) by simp
  then have "createCertificateStore fl i (fl_certificate_store_type fl) = Ok (RedisOpened (w_store w))"
    using assms(3) by (auto simp: certProvider_def split: sum.splits)
  then obtain options where "NewRedisStoreFromOptions (in_ping i) options (in_hash i) (in_redis i) = Ok (w_store w)"
    by (cases "NewStore (in_world i)")
      (auto simp: createCertificateStore_def NewRedisStoreFromOptions_disabled_def map_sum_Inr_conv Let_def split: if_splits)
  then have "rs_hash (w_store w) = in_hash i" "rs_env (w_store w) = in_redis i" "rs_locks (w_store w) = Map.empty"
    by (auto simp: NewRedisStoreFromOptions_def NewRedisStore_def split: reply.splits dest: sym)
  with assms(4,5) show ?thesis
    by (simp add: redis_provider_inv_def redis_inputs_ok_def redis_inv_def redis_locked_def locks_ok_def has_token_def held_name_def
        heap_decodes_def)
qed

end
