(* ===== verification/Kept_Details.thy ===== *)
theory Kept_Details
  imports Redis_Store
begin

text \<open>
  What is true of every certificate that the stores and the suppliers deal in is true of every certificate that the certificate manager
  hands out. \<open>Q\<close> is a property of a certificate with its key and its names; that it holds is kept by everything the manager does.
\<close>

subsection \<open>Properties of certificates\<close>

definition cert_only :: "(Details \<Rightarrow> bool) \<Rightarrow> bool" where
  "cert_only Q \<longleftrightarrow> (\<forall>d d'. det_Certificate d' = det_Certificate d \<longrightarrow> PrivateKey d' = PrivateKey d \<longrightarrow>
     det_Subject d' = det_Subject d \<longrightarrow> AltNames d' = AltNames d \<longrightarrow> Q d' = Q d)"

definition heap_all :: "(Details \<Rightarrow> bool) \<Rightarrow> ('s, 'e) World \<Rightarrow> bool" where
  "heap_all Q w \<longleftrightarrow> (\<forall>ref < w_next w. Q (w_heap w ref))"

lemma cert_onlyD:
  "cert_only Q \<Longrightarrow> det_Certificate d' = det_Certificate d \<Longrightarrow> PrivateKey d' = PrivateKey d \<Longrightarrow>
   det_Subject d' = det_Subject d \<Longrightarrow> AltNames d' = AltNames d \<Longrightarrow> Q d' = Q d"
  unfolding cert_only_def by blast

lemma cert_only_same: "cert_only Q \<Longrightarrow> same_cert d d' \<Longrightarrow> Q d' = Q d"
  by (rule cert_onlyD) (simp_all add: same_cert_def)

lemma cert_only_simps:
  assumes "cert_only Q"
  shows "Q (forget_staple d) = Q d" "Q (d\<lparr>det_Provider := n\<rparr>) = Q d"
  by (rule cert_onlyD [OF assms]; simp add: forget_staple_def)+

lemma heap_all_frame: "cert_only Q \<Longrightarrow> heap_all Q w \<Longrightarrow> heap_frame w w' \<Longrightarrow> w_next w' = w_next w \<Longrightarrow> heap_all Q w'"
  by (auto simp: heap_all_def heap_frame_def cert_only_same)

lemma heap_all_cong: "w_heap w' = w_heap w \<Longrightarrow> w_next w' = w_next w \<Longrightarrow> heap_all Q w' = heap_all Q w"
  by (simp add: heap_all_def)

lemma heap_all_provider: "cert_only Q \<Longrightarrow> heap_all Q w \<Longrightarrow> heap_all Q (set_details (\<lambda>d. d\<lparr>det_Provider := n\<rparr>) ref w)"
  by (auto simp: heap_all_def set_details_def cert_only_simps)

lemma heap_all_new: "new_details d w = (ref, w') \<Longrightarrow> Q d \<Longrightarrow> heap_all Q w \<Longrightarrow> heap_all Q w'"
  by (auto simp: heap_all_def new_details_def less_Suc_eq)

lemma heap_all_alloc:
  "alloc_details ds w = (refs, w') \<Longrightarrow> \<forall>d \<in> set ds. Q d \<Longrightarrow> heap_all Q w \<Longrightarrow> heap_all Q w' \<and> w_store w' = w_store w"
proof (induction ds arbitrary: w refs)
  case (Cons d ds)
  let ?w = "snd (new_details d w)"
  obtain refs' where "alloc_details ds ?w = (refs', w')" using Cons.prems(1) by (auto split: prod.splits)
  moreover have "heap_all Q ?w" "w_store ?w = w_store w"
    using heap_all_new [of d w "fst (new_details d w)" ?w Q] Cons.prems(2,3) by (simp_all add: new_details_def)
  ultimately show ?case using Cons.IH [of ?w refs'] Cons.prems(2) by simp
qed simp

text \<open>A certificate for the names \<open>s # as\<close> that satisfies \<open>Q\<close>, as it is given to TLS clients.\<close>

definition made_from :: "(Details \<Rightarrow> bool) \<Rightarrow> string \<Rightarrow> string list \<Rightarrow> TLSCertificate \<Rightarrow> bool" where
  "made_from Q s as c \<longleftrightarrow> (\<exists>d. Q d \<and> IsFor s as d \<and> tls_chain c = det_Certificate d \<and> tls_key c = PrivateKey d)"

lemma made_from_pair:
  assumes "heap_all Q w" "ref < w_next w" "IsFor s as (w_heap w ref)" "cert_keyPair kp ref w = (Some c, err)"
  shows "made_from Q s as c"
  unfolding made_from_def
proof (intro exI conjI)
  show "Q (w_heap w ref)" using assms(1,2) by (simp add: heap_all_def)
qed (use assms(3,4) in \<open>auto simp: cert_keyPair_def keyPair_def split: option.splits\<close>)

subsection \<open>A store that keeps such a property\<close>

text \<open>\<open>within\<close> says of a store that \<open>Q\<close> holds of everything in it.\<close>

locale keeping_store = certificate_store st "parsePEM P" sinv locked
  for st :: "('s, 'e) Store" and P :: "'e Pki" and sinv locked +
  fixes Q :: "Details \<Rightarrow> bool" and within :: "'s \<Rightarrow> bool"
  assumes Q_cert: "cert_only Q"
    and keep_lookup: "within (w_store w) \<Longrightarrow> heap_all Q w \<Longrightarrow> StoreGetCertificate st p s as w = (r, w') \<Longrightarrow>
      within (w_store w') \<and> heap_all Q w'"
    and keep_save: "within (w_store w) \<Longrightarrow> heap_all Q w \<Longrightarrow> ref < w_next w \<Longrightarrow> SaveCertificate st ref w = (err, w') \<Longrightarrow>
      within (w_store w') \<and> w_heap w' = w_heap w \<and> w_next w' = w_next w"
    and keep_lock: "within (w_store w) \<Longrightarrow> LockCertificate st s as w = Some w' \<Longrightarrow>
      within (w_store w') \<and> w_heap w' = w_heap w \<and> w_next w' = w_next w"
    and keep_unlock: "within (w_store w) \<Longrightarrow> UnlockCertificate st s as w = Some w' \<Longrightarrow>
      within (w_store w') \<and> w_heap w' = w_heap w \<and> w_next w' = w_next w"
begin

definition kept :: "('s, 'e) World \<Rightarrow> bool" where
  "kept w \<longleftrightarrow> within (w_store w) \<and> heap_all Q w"

lemma kept_quiet: "kept w \<Longrightarrow> quiet w w' \<Longrightarrow> kept w'"
  using heap_all_frame [OF Q_cert] by (auto simp: kept_def quiet_def world_frame_def)

lemma kept_lookup: "kept w \<Longrightarrow> StoreGetCertificate st p s as w = (r, w') \<Longrightarrow> kept w'"
  using keep_lookup [of w p s as r w'] by (simp add: kept_def)

lemma kept_save:
  "kept w \<Longrightarrow> ref < w_next w \<Longrightarrow> SaveCertificate st ref w = (err, w') \<Longrightarrow> kept w' \<and> w_heap w' = w_heap w \<and> w_next w' = w_next w"
  using keep_save [of w ref err w'] heap_all_cong [of w' w Q] by (simp add: kept_def)

lemma kept_locks:
  "kept w \<Longrightarrow> LockCertificate st s as w = Some w' \<Longrightarrow> kept w'"
  "kept w \<Longrightarrow> UnlockCertificate st s as w = Some w' \<Longrightarrow> kept w'"
  using keep_lock [of w s as w'] keep_unlock [of w s as w'] heap_all_cong [of w' w Q] by (simp_all add: kept_def)

lemma kept_provider: "kept w \<Longrightarrow> kept (set_details (\<lambda>d. d\<lparr>det_Provider := n\<rparr>) ref w)"
  using heap_all_provider [OF Q_cert, of w n ref] by (simp add: kept_def set_details_simps)

end

subsection \<open>A manager whose store and suppliers do\<close>

locale keeping_manager = cert_manager m P sinv locked env_ok + keeping_store "cm_store m" P sinv locked Q within
  for m :: "('s, 'e) CertManager" and P :: "'e Pki" and sinv locked env_ok Q within +
  assumes supply_keeps: "suppliers m n = Some sp \<Longrightarrow> env_ok (w_env w) \<Longrightarrow> heap_all Q w \<Longrightarrow>
      SupplierGetCertificate sp s as b w = (res, w') \<Longrightarrow> heap_all Q w'"
begin

text \<open>\<open>issued s as ref w\<close>: the details at \<open>ref\<close> are for these names.\<close>

definition issued :: "string \<Rightarrow> string list \<Rightarrow> cert_ref \<Rightarrow> ('s, 'e) World \<Rightarrow> bool" where
  "issued s as ref w \<longleftrightarrow> ref < w_next w \<and> IsFor s as (w_heap w ref)"

lemma issued_frame: "issued s as ref w \<Longrightarrow> heap_frame w w' \<Longrightarrow> issued s as ref w'"
  by (auto simp: issued_def heap_frame_def IsFor_same)

lemma kept_pair: "kept w \<Longrightarrow> issued s as ref w \<Longrightarrow> cert_keyPair (x509KeyPair P) ref w = (Some c, err) \<Longrightarrow> made_from Q s as c"
  using made_from_pair [of Q w ref s as] by (simp add: kept_def issued_def)

lemma kept_supply:
  assumes "suppliers m n = Some sp" "env_ok (w_env w)" "kept w" "SupplierGetCertificate sp s as b w = (res, w')"
  shows "kept w'"
proof -
  have "world_frame w w'" using certificate_supplier.supply_frame [OF suppliers_ok [OF assms(1)] assms(2,4)] by blast
  then show ?thesis using supply_keeps [OF assms(1,2) _ assms(4)] assms(3) by (simp add: kept_def world_frame_def)
qed

lemma kept_renewal:
  assumes "suppliers m n = Some sp" "env_ok (w_env w)" "kept w" "ref < w_next w"
  shows "kept (updateRenewalInfo m sp ref b w)"
proof -
  obtain err w1 where 1: "UpdateRenewalInfo sp ref w = (err, w1)" by fastforce
  have q: "quiet w w1"
    using certificate_supplier.renewal_frame [OF suppliers_ok [OF assms(1)] assms(2) 1] by (simp add: quiet_def)
  then have k1: "kept w1" "ref < w_next w1" using kept_quiet assms(3,4) by (auto simp: quiet_def)
  then show ?thesis
    using 1 kept_save [of w1 ref] by (cases "SaveCertificate (cm_store m) ref w1") (auto simp: updateRenewalInfo_def split: option.split)
qed

lemma kept_save_pair:
  assumes "kept w" "issued s as ref w" "SaveCertificate (cm_store m) ref w = (err, w')"
  shows "kept w'" "cert_keyPair (x509KeyPair P) ref w' = (Some c, e) \<Longrightarrow> made_from Q s as c"
proof -
  have "kept w' \<and> w_heap w' = w_heap w \<and> w_next w' = w_next w"
    using kept_save [OF assms(1) _ assms(3)] assms(2) by (simp add: issued_def)
  then show "kept w'" "cert_keyPair (x509KeyPair P) ref w' = (Some c, e) \<Longrightarrow> made_from Q s as c"
    using kept_pair [of w' s as ref c e] assms(2) by (simp_all add: issued_def)
qed

lemma kept_obtain:
  assumes "suppliers m n = Some sp" "winv l w" "kept w" "obtain_cert P m sp n s as w = ((c, err), w')"
  shows "kept w' \<and> (\<forall>x. c = Some x \<longrightarrow> made_from Q s as x)"
proof -
  note sp = suppliers_ok [OF assms(1)]
  have env: "env_ok (w_env w)" using assms(2) by (simp add: winv_def)
  obtain res w1 where 1: "SupplierGetCertificate sp s as (shouldStaple m) w = (res, w1)" by fastforce
  have k1: "kept w1" "env_ok (w_env w1)"
    using kept_supply [OF assms(1) env assms(3) 1] certificate_supplier.supply_frame [OF sp env 1] by simp_all
  show ?thesis
  proof (cases res)
    case (Inr ref)
    let ?w2 = "set_details (\<lambda>d. d\<lparr>det_Provider := n\<rparr>) ref w1"
    define w3 where "w3 = updateRenewalInfo m sp ref False ?w2"
    have i2: "issued s as ref ?w2"
      using certificate_supplier.supply_new [OF sp env] 1 Inr by (auto simp: issued_def IsFor_iff set_details_def)
    obtain e2 where 2: "UpdateRenewalInfo sp ref ?w2 = (e2, w3)"
      by (cases "UpdateRenewalInfo sp ref ?w2") (auto simp: w3_def updateRenewalInfo_def split: option.splits)
    have env2: "env_ok (w_env ?w2)" using k1(2) by (simp add: set_details_def)
    have "heap_frame ?w2 w3" using certificate_supplier.renewal_frame [OF sp env2 2] by (simp add: world_frame_def)
    then have k3: "kept w3" "issued s as ref w3"
      using kept_renewal [OF assms(1) env2 kept_provider [OF k1(1)], of ref False] i2 issued_frame [OF i2]
      by (simp_all add: w3_def issued_def)
    obtain e4 w4 where 4: "SaveCertificate (cm_store m) ref w3 = (e4, w4)" by fastforce
    from kept_save_pair [OF k3 4] assms(4) 1 4 Inr show ?thesis
      by (auto simp: obtain_cert_def w3_def [symmetric] split: option.splits)
  qed (use assms(4) 1 k1 in \<open>auto simp: obtain_cert_def\<close>)
qed

lemma kept_staple:
  assumes "suppliers m n = Some sp" "winv l w" "kept w" "issued s as ref w" "staple P m sp ref w = ((c, err), w')"
  shows "kept w' \<and> (\<forall>x. c = Some x \<longrightarrow> made_from Q s as x)"
proof -
  obtain e1 w1 where 1: "UpdateStaple sp ref w = (e1, w1)" by fastforce
  have q: "quiet w w1"
    using certificate_supplier.staple_frame [OF suppliers_ok [OF assms(1)] _ 1] assms(2) by (simp add: quiet_def winv_def)
  have k1: "kept w1" "issued s as ref w1"
    using kept_quiet [OF assms(3) q] issued_frame [OF assms(4)] q by (auto simp: quiet_def world_frame_def)
  obtain e2 w2 where 2: "SaveCertificate (cm_store m) ref w1 = (e2, w2)" by fastforce
  from kept_save_pair [OF k1 2] assms(5) 1 2 k1(1) show ?thesis by (auto simp: staple_def split: option.splits)
qed

lemma kept_get_locked:
  assumes "suppliers m n = Some sp" "winv l w" "kept w" "get_locked P m sp n s as w = Some ((c, err), w')"
  shows "kept w' \<and> (\<forall>x. c = Some x \<longrightarrow> made_from Q s as x)"
  using suppliers_ok [OF assms(1)] assms(2)
proof (rule get_locked_cases [of sp l w n s as kept])
  fix v
  assume "step l w v" "kept v" "get_locked P m sp n s as w = Some (obtain_cert P m sp n s as v)"
  then show ?thesis using kept_obtain [OF assms(1), of l v s as c err w'] assms(4) by (simp add: step_def)
next
  fix v ref
  assume "step l w v" "kept v" "ref < w_next v" "IsFor s as (w_heap v ref)" "get_locked P m sp n s as w = Some (staple P m sp ref v)"
  then show ?thesis using kept_staple [OF assms(1), of l v s as ref c err w'] assms(4) by (simp add: step_def issued_def)
next
  fix v ref
  assume "kept v" "ref < w_next v" "IsFor s as (w_heap v ref)"
    "get_locked P m sp n s as w = Some (cert_keyPair (x509KeyPair P) ref v, v)"
  then show ?thesis using kept_pair [of v s as ref _ err] assms(4) by (auto simp: issued_def)
next
  show "kept v" if "StoreGetCertificate (cm_store m) n s as w = (r, v)" for r v using kept_lookup [OF assms(3) that] .
  show "kept v'" if "kept v" "quiet v v'" for v v' using that by (rule kept_quiet)
  show "kept (updateRenewalInfo m sp ref True v)" if "kept v" "winv l v" "ref < w_next v" for v ref
    using kept_renewal [OF assms(1) _ that(1,3)] that(2) by (simp add: winv_def)
qed

lemma GetCertificate_made:
  assumes "winv None w" "kept w" "Manager_GetCertificate P m p s as w = Some ((c, err), w')"
  shows "kept w' \<and> (\<forall>x. c = Some x \<longrightarrow> made_from Q s as x)"
proof (cases "supplier m p")
  case (Inr r)
  obtain sp n where r: "r = (sp, n)" by fastforce
  obtain w1 w2 where 1: "LockCertificate (cm_store m) s as w = Some w1" "get_locked P m sp n s as w1 = Some ((c, err), w2)"
      "UnlockCertificate (cm_store m) s as w2 = Some w'"
    using assms(3) Inr r by (auto simp: Manager_GetCertificate_def bind_eq_Some_conv)
  have "winv (Some (s, as)) w1"
    using lock_frame [OF _ _ 1(1)] assms(1) heap_decodes_frame [of w w1] by (auto simp: winv_def)
  from kept_get_locked [OF supplier_Ok this kept_locks(1) [OF assms(2) 1(1)] 1(2)] Inr r kept_locks(2) [OF _ 1(3)]
  show ?thesis by blast
qed (use assms(2,3) in \<open>auto simp: Manager_GetCertificate_def\<close>)

lemma GetExistingCertificate_made:
  assumes "winv l w" "kept w" "Manager_GetExistingCertificate P m p s as w = Some ((c, b, err), w')"
  shows "kept w' \<and> (\<forall>x. c = Some x \<longrightarrow> made_from Q s as x)"
  using assms(1,2)
proof (rule existing_cases [of l w kept s as p])
  fix ref v c' b' err' v'
  assume "Manager_GetExistingCertificate P m p s as w = Some ((c', b', err'), v')" "kept v'"
    "cert_keyPair (x509KeyPair P) ref v = (c', err')" "kept v" "ref < w_next v" "IsFor s as (w_heap v ref)"
  then show ?thesis using kept_pair [of v s as ref _ err'] assms(3) by (auto simp: issued_def)
next
  show "kept v" if "StoreGetCertificate (cm_store m) n s as w = (r, v)" for n r v using kept_lookup [OF assms(2) that] .
  show "kept v'" if "kept v" "quiet v v'" for v v' using that by (rule kept_quiet)
qed (use assms(3) in auto)

lemma keeping_provider_ok: "certificate_provider (manager_provider P m) (\<lambda>w. winv None w \<and> kept w)"
proof
  fix p :: "('s, 'e) World" and s n as c err p' b
  assume p: "winv None p \<and> kept p"
  show "\<exists>c err p'. GetCertificate (manager_provider P m) s n as p = Some ((c, err), p')"
    "\<exists>c b err p'. GetExistingCertificate (manager_provider P m) s n as p = Some ((c, b, err), p')"
    "GetCertificate (manager_provider P m) s n as p = Some ((c, None), p') \<Longrightarrow> c \<noteq> None"
    "GetExistingCertificate (manager_provider P m) s n as p = Some ((c, b, None), p') \<Longrightarrow> c \<noteq> None"
    using p certificate_provider.get_returns [OF manager_provider_ok] certificate_provider.existing_returns [OF manager_provider_ok]
      certificate_provider.get_ok [OF manager_provider_ok] certificate_provider.existing_ok [OF manager_provider_ok, of p s n as c b p']
    by blast+
  show "GetCertificate (manager_provider P m) s n as p = Some ((c, err), p') \<Longrightarrow> winv None p' \<and> kept p'"
    using p certificate_provider.get_inv [OF manager_provider_ok, of p s n as c err p'] GetCertificate_made [of p s n as c err p']
    by (simp add: manager_provider_def)
  show "GetExistingCertificate (manager_provider P m) s n as p = Some ((c, b, err), p') \<Longrightarrow> winv None p' \<and> kept p'"
    using p certificate_provider.existing_inv [OF manager_provider_ok, of p s n as c b err p']
      GetExistingCertificate_made [of None p s n as c b err p'] by (simp add: manager_provider_def)
qed

end

subsection \<open>The JSON store\<close>

text \<open>Its certificates are those in memory.\<close>

lemma json_save_memory:
  "JsonStore_SaveCertificate ref w = (err, w') \<Longrightarrow> w_heap w' = w_heap w \<and> w_next w' = w_next w"
  by (auto simp: JsonStore_SaveCertificate_def Let_def removeCertificate_def set_store_def save_def
      pruneCertificates_def prune_loop_eq split: write_outcome.splits)

lemma json_lock_memory:
  "JsonStore_LockCertificate s as w = Some w' \<Longrightarrow> w_heap w' = w_heap w \<and> w_next w' = w_next w"
  "JsonStore_UnlockCertificate s as w = Some w' \<Longrightarrow> w_heap w' = w_heap w \<and> w_next w' = w_next w"
  by (auto simp: JsonStore_LockCertificate_def JsonStore_UnlockCertificate_def lockFor_def set_store_def Let_def
      split: option.splits if_splits)

lemma json_keeping:
  assumes "cert_only Q"
  shows "keeping_store json_store P json_inv json_locked Q (\<lambda>_. True)"
proof (rule keeping_store.intro [OF json.certificate_store_axioms], unfold_locales)
  fix w w' :: "'a json_world" and p s as r ref err
  show "heap_all Q w \<Longrightarrow> StoreGetCertificate json_store p s as w = (r, w') \<Longrightarrow> True \<and> heap_all Q w'"
    by (simp add: json_store_def JsonStore_GetCertificate_def)
  show "SaveCertificate json_store ref w = (err, w') \<Longrightarrow> True \<and> w_heap w' = w_heap w \<and> w_next w' = w_next w"
    using json_save_memory [of ref w err w'] by (simp add: json_store_def)
  show "LockCertificate json_store s as w = Some w' \<Longrightarrow> True \<and> w_heap w' = w_heap w \<and> w_next w' = w_next w"
    "UnlockCertificate json_store s as w = Some w' \<Longrightarrow> True \<and> w_heap w' = w_heap w \<and> w_next w' = w_next w"
    using json_lock_memory [of s as w w'] by (simp_all add: json_store_def)
qed (rule assms)

subsection \<open>The Redis store\<close>

text \<open>Other instances change the hash between the requests of a save, and \<open>Q\<close> holds of what they put there too.\<close>

definition hash_all :: "(Details \<Rightarrow> bool) \<Rightarrow> redis_hash \<Rightarrow> bool" where
  "hash_all Q h \<longleftrightarrow> (\<forall>e \<in> set h. \<forall>d. Unmarshal (snd e) = Some d \<longrightarrow> Q d)"

definition redis_holds :: "(Details \<Rightarrow> bool) \<Rightarrow> RedisStore \<Rightarrow> bool" where
  "redis_holds Q r \<longleftrightarrow> hash_all Q (rs_hash r) \<and>
     (\<forall>k h. mset (re_order (rs_env r) k h) = mset h \<and> (hash_all Q h \<longrightarrow> hash_all Q (re_others (rs_env r) k h)))"

lemma hash_all_subset: "hash_all Q h \<Longrightarrow> set h' \<subseteq> set h \<Longrightarrow> hash_all Q h'"
  by (auto simp: hash_all_def)

lemma redis_keep_lookup:
  assumes "redis_holds Q (w_store w)" "heap_all Q w" "RedisStore_GetCertificate p s as w = (r, w')"
  shows "redis_holds Q (w_store w') \<and> heap_all Q w'"
proof -
  obtain res w1 where 1: "storedCertificates w = (res, w1)" by fastforce
  have w1: "w1 = set_redis (\<lambda>r. r\<lparr>rs_requests := Suc (rs_requests r)\<rparr>) w" by (rule storedCertificates_effect(1) [OF 1])
  have k1: "redis_holds Q (w_store w1)" "heap_all Q w1" using assms(1,2) heap_all_cong [of w1 w Q] w1 by (simp_all add: redis_holds_def)
  show ?thesis
  proof (cases res)
    case (Inl e)
    with 1 assms(3) k1 show ?thesis by (simp add: RedisStore_GetCertificate_def allCertificates_def)
  next
    case (Inr h)
    have "mset h = mset (rs_hash (w_store w))"
      using 1 Inr assms(1) by (auto simp: storedCertificates_def redis_holds_def Let_def split: reply.splits)
    then have "hash_all Q h" using assms(1) mset_eq_setD [of h] by (simp add: redis_holds_def hash_all_def)
    then have q: "\<forall>d \<in> set (stored_details h). Q d" by (fastforce simp: stored_details_iff hash_all_def)
    obtain refs w2 where 2: "alloc_details (stored_details h) w1 = (refs, w2)" by fastforce
    have "w' = w2" using assms(3) 1 2 Inr by (auto simp: RedisStore_GetCertificate_def allCertificates_def stored_details_def)
    with heap_all_alloc [OF 2 q k1(2)] k1(1) show ?thesis by simp
  qed
qed

lemma hash_all_save:
  assumes "cert_only Q" "hash_all Q h" "Q d"
  shows "hash_all Q (save_transaction args key (Marshalled (forget_staple d)) h)"
proof -
  let ?h = "if 0 < length args then pruneCertificatesScript args h else h"
  have "hash_all Q ?h" using assms(2) prune_script_subset [of args h] by (auto intro: hash_all_subset)
  moreover have "set (AList.update key v xs) \<subseteq> insert (key, v) (set xs)" for v :: redis_value and xs
    by (induction xs) auto
  moreover have "Q (forget_staple (forget_staple d))" using assms(1,3) by (simp add: cert_only_simps)
  ultimately show ?thesis unfolding save_transaction_def hash_all_def by (fastforce simp: cert_only_simps [OF assms(1)])
qed

lemma redis_keep_save:
  assumes "cert_only Q" "redis_holds Q (w_store w)" "heap_all Q w" "ref < w_next w" "RedisStore_SaveCertificate ref w = (err, w')"
  shows "redis_holds Q (w_store w') \<and> w_heap w' = w_heap w \<and> w_next w' = w_next w"
  using assms(5)
proof (cases rule: redis_save_cases)
  case (failed e)
  with assms(2) show ?thesis by (simp add: redis_holds_def)
next
  case (sent stored args w1 w2 h h' k)
  have w1: "w1 = set_redis (\<lambda>r. r\<lparr>rs_requests := Suc (rs_requests r)\<rparr>) w" by (rule storedCertificates_effect(1) [OF sent(1)])
  note fr = prune_args_frame [OF sent(2)]
  have h: "hash_all Q h" using assms(2) sent(4) by (simp add: redis_holds_def)
  have "Q (w_heap w ref)" using assms(3,4) by (simp add: heap_all_def)
  then have "hash_all Q h'" unfolding sent(5) by (rule hash_all_save [OF assms(1) h])
  with assms(2) sent(6) fr w1 h show ?thesis by (simp add: redis_holds_def)
qed

lemma redis_lock_memory:
  "RedisStore_LockCertificate s as w = Some w' \<Longrightarrow> w_heap w' = w_heap w \<and> w_next w' = w_next w \<and>
     rs_hash (w_store w') = rs_hash (w_store w) \<and> rs_env (w_store w') = rs_env (w_store w)"
  "RedisStore_UnlockCertificate s as w = Some w' \<Longrightarrow> w_heap w' = w_heap w \<and> w_next w' = w_next w \<and>
     rs_hash (w_store w') = rs_hash (w_store w) \<and> rs_env (w_store w') = rs_env (w_store w)"
  by (auto simp: RedisStore_LockCertificate_def RedisStore_UnlockCertificate_def redis_lockFor_def Let_def
      split: option.splits if_splits prod.splits)

lemma redis_keeping:
  assumes "cert_only Q"
  shows "keeping_store redis_store P (redis_inv (parsePEM P)) redis_locked Q (redis_holds Q)"
proof (rule keeping_store.intro [OF redis.certificate_store_axioms], unfold_locales)
  fix w w' :: "'a redis_world" and p s as r ref err
  show "redis_holds Q (w_store w) \<Longrightarrow> heap_all Q w \<Longrightarrow> StoreGetCertificate redis_store p s as w = (r, w') \<Longrightarrow>
      redis_holds Q (w_store w') \<and> heap_all Q w'"
    using redis_keep_lookup [of Q w p s as r w'] by (simp add: redis_store_def)
  show "redis_holds Q (w_store w) \<Longrightarrow> heap_all Q w \<Longrightarrow> ref < w_next w \<Longrightarrow> SaveCertificate redis_store ref w = (err, w') \<Longrightarrow>
      redis_holds Q (w_store w') \<and> w_heap w' = w_heap w \<and> w_next w' = w_next w"
    using redis_keep_save [OF assms, of w ref err w'] by (simp add: redis_store_def)
  show "redis_holds Q (w_store w) \<Longrightarrow> LockCertificate redis_store s as w = Some w' \<Longrightarrow>
      redis_holds Q (w_store w') \<and> w_heap w' = w_heap w \<and> w_next w' = w_next w"
    "redis_holds Q (w_store w) \<Longrightarrow> UnlockCertificate redis_store s as w = Some w' \<Longrightarrow>
      redis_holds Q (w_store w') \<and> w_heap w' = w_heap w \<and> w_next w' = w_next w"
    using redis_lock_memory [of s as w w'] by (simp_all add: redis_store_def redis_holds_def)
qed (rule assms)

end
