(* ===== verification/Availability.thy ===== *)
theory Availability
  imports Kept_Details
begin

text \<open>
  The other half of what the certificate manager promises: as long as the suppliers and the store work, every request for a certificate is
  answered with one, so that every route of a configuration is served once its certificates have been checked.
\<close>

subsection \<open>A manager whose suppliers and store work\<close>

text \<open>\<open>good\<close> are the worlds in which nothing outside fails: it is kept by everything the manager does.\<close>

locale available_manager =
  cert_manager m P sinv locked env_ok
  for m :: "('s, 'e) CertManager" and P :: "'e Pki" and sinv locked env_ok +
  fixes good :: "('s, 'e) World \<Rightarrow> bool"
  assumes good_quiet: "good w \<Longrightarrow> quiet w w' \<Longrightarrow> good w'"
    and good_lookup: "good w \<Longrightarrow> StoreGetCertificate (cm_store m) p s as w = (r, w') \<Longrightarrow> good w'"
    and good_save: "good w \<Longrightarrow> ref < w_next w \<Longrightarrow> SaveCertificate (cm_store m) ref w = (err, w') \<Longrightarrow>
      err = None \<and> good w' \<and> ref < w_next w'"
    and good_lock: "good w \<Longrightarrow> LockCertificate (cm_store m) s as w = Some w' \<Longrightarrow> good w'"
    and good_unlock: "good w \<Longrightarrow> UnlockCertificate (cm_store m) s as w = Some w' \<Longrightarrow> good w'"
    and good_supply: "suppliers m n = Some sp \<Longrightarrow> good w \<Longrightarrow> SupplierGetCertificate sp s as b w = (res, w') \<Longrightarrow>
      \<exists>ref. res = Ok ref \<and> good (set_details (\<lambda>d. d\<lparr>det_Provider := n\<rparr>) ref w')"
    and good_staple: "suppliers m n = Some sp \<Longrightarrow> good w \<Longrightarrow> UpdateStaple sp ref w = (err, w') \<Longrightarrow> err = None"
    and good_pair: "good w \<Longrightarrow> ref < w_next w \<Longrightarrow>
      x509KeyPair P (det_Certificate (w_heap w ref)) (PrivateKey (w_heap w ref)) = None"
begin

lemma good_keyPair: "good w \<Longrightarrow> ref < w_next w \<Longrightarrow> \<exists>c. cert_keyPair (x509KeyPair P) ref w = (Some c, None)"
  using good_pair [of w ref] by (simp add: cert_keyPair_def keyPair_def)

lemma good_renewal:
  assumes "suppliers m n = Some sp" "good w" "env_ok (w_env w)" "ref < w_next w"
  shows "good (updateRenewalInfo m sp ref b w) \<and> ref < w_next (updateRenewalInfo m sp ref b w)"
proof -
  obtain err w1 where 1: "UpdateRenewalInfo sp ref w = (err, w1)" by fastforce
  have "quiet w w1"
    using certificate_supplier.renewal_frame [OF suppliers_ok [OF assms(1)] assms(3) 1] by (simp add: quiet_def)
  then have "good w1" "ref < w_next w1" using good_quiet assms(2,4) by (auto simp: quiet_def)
  then show ?thesis
    using 1 good_save [of w1 ref] by (cases "SaveCertificate (cm_store m) ref w1") (auto simp: updateRenewalInfo_def split: option.split)
qed

lemma good_save_pair:
  assumes "good w" "ref < w_next w" "SaveCertificate (cm_store m) ref w = (err, w')"
  shows "err = None \<and> good w' \<and> (\<exists>c. cert_keyPair (x509KeyPair P) ref w' = (Some c, None))"
  using good_save [OF assms] good_keyPair by blast

lemma good_obtain:
  assumes "suppliers m n = Some sp" "good w" "env_ok (w_env w)"
  shows "\<exists>c w'. obtain_cert P m sp n s as w = ((Some c, None), w') \<and> good w'"
proof -
  note sp = suppliers_ok [OF assms(1)]
  obtain res w1 where 1: "SupplierGetCertificate sp s as (shouldStaple m) w = (res, w1)" by fastforce
  obtain ref where ref: "res = Ok ref" and good: "good (set_details (\<lambda>d. d\<lparr>det_Provider := n\<rparr>) ref w1)"
    using good_supply [OF assms(1,2) 1] by blast
  let ?w2 = "set_details (\<lambda>d. d\<lparr>det_Provider := n\<rparr>) ref w1"
  have env: "env_ok (w_env ?w2)" "ref < w_next ?w2"
    using certificate_supplier.supply_frame [OF sp assms(3) 1] certificate_supplier.supply_new [OF sp assms(3)] 1 ref
    by (auto simp: set_details_simps)
  define w3 where "w3 = updateRenewalInfo m sp ref False ?w2"
  have 3: "good w3" "ref < w_next w3" using good_renewal [OF assms(1) good env] by (simp_all add: w3_def)
  obtain err w4 where 4: "SaveCertificate (cm_store m) ref w3 = (err, w4)" by fastforce
  from good_save_pair [OF 3 4] 1 ref 4 show ?thesis by (auto simp: obtain_cert_def w3_def [symmetric])
qed

lemma good_stapled:
  assumes "suppliers m n = Some sp" "good w" "env_ok (w_env w)" "ref < w_next w"
  shows "\<exists>c w'. staple P m sp ref w = ((Some c, None), w') \<and> good w'"
proof -
  obtain err w1 where 1: "UpdateStaple sp ref w = (err, w1)" by fastforce
  have "quiet w w1"
    using certificate_supplier.staple_frame [OF suppliers_ok [OF assms(1)] assms(3) 1] by (simp add: quiet_def)
  then have g: "good w1" "ref < w_next w1" using good_quiet assms(2,4) by (auto simp: quiet_def)
  obtain err' w2 where 2: "SaveCertificate (cm_store m) ref w1 = (err', w2)" by fastforce
  from good_save_pair [OF g 2] good_staple [OF assms(1,2) 1] 1 2 show ?thesis by (auto simp: staple_def)
qed

lemma good_get_locked:
  assumes "suppliers m n = Some sp" "winv l w" "good w"
  shows "\<exists>c w'. get_locked P m sp n s as w = Some ((Some c, None), w') \<and> good w'"
  using suppliers_ok [OF assms(1)] assms(2)
proof (rule get_locked_cases [of sp l w n s as good])
  fix v
  assume "step l w v" "good v" "get_locked P m sp n s as w = Some (obtain_cert P m sp n s as v)"
  then show ?thesis using good_obtain [OF assms(1), of v s as] by (auto simp: step_def winv_def)
next
  fix v ref
  assume "step l w v" "good v" "ref < w_next v" "get_locked P m sp n s as w = Some (staple P m sp ref v)"
  then show ?thesis using good_stapled [OF assms(1), of v ref] by (auto simp: step_def winv_def)
next
  fix v ref
  assume "good v" "ref < w_next v" "get_locked P m sp n s as w = Some (cert_keyPair (x509KeyPair P) ref v, v)"
  then show ?thesis using good_keyPair [of v ref] by auto
next
  show "good v" if "StoreGetCertificate (cm_store m) n s as w = (r, v)" for r v using good_lookup [OF assms(3) that] .
  show "good v'" if "good v" "quiet v v'" for v v' using that by (rule good_quiet)
  show "good (updateRenewalInfo m sp ref True v)" if "good v" "winv l v" "ref < w_next v" for v ref
    using good_renewal [OF assms(1) that(1) _ that(3)] that(2) by (simp add: winv_def)
qed

lemma good_existing:
  assumes "winv l w" "good w" "Manager_GetExistingCertificate P m p s as w = Some (res, w')"
  shows "good w'"
  using assms(1,2)
proof (rule existing_cases [of l w good s as p])
  show "good v" if "StoreGetCertificate (cm_store m) n s as w = (r, v)" for n r v using good_lookup [OF assms(2) that] .
  show "good v'" if "good v" "quiet v v'" for v v' using that by (rule good_quiet)
qed (use assms(3) in auto)

lemma GetCertificate_succeeds:
  assumes "winv None w" "good w" "supplier m p = Ok (sp, n)"
  shows "\<exists>c w'. Manager_GetCertificate P m p s as w = Some ((Some c, None), w') \<and> winv None w' \<and> good w'"
proof -
  obtain w1 where 1: "LockCertificate (cm_store m) s as w = Some w1"
    using lock_returns assms(1) unfolding winv_def by blast
  have w1: "winv (Some (s, as)) w1"
    using lock_frame [OF _ _ 1] assms(1) heap_decodes_frame [of w w1] by (auto simp: winv_def)
  obtain c w2 where 2: "get_locked P m sp n s as w1 = Some ((Some c, None), w2)" "good w2"
    using good_get_locked [OF supplier_Ok [OF assms(3)] w1 good_lock [OF assms(2) 1]] by blast
  obtain c' err w3 where 3: "Manager_GetCertificate P m p s as w = Some ((c', err), w3)" "step None w w3"
    using GetCertificate_step [OF assms(1)] by blast
  then have u: "UnlockCertificate (cm_store m) s as w2 = Some w3" "c' = Some c" "err = None"
    using 1 2(1) assms(3) by (auto simp: Manager_GetCertificate_def bind_eq_Some_conv)
  with 3 good_unlock [OF 2(2) u(1)] show ?thesis by (auto simp: step_def)
qed

end

subsection \<open>A world in which nothing fails\<close>

text \<open>Everything outside works: keys and certificates can be made, lego obtains certificates and staples, and what is issued fits
  together.\<close>

definition self_signed_works :: "'e Pki \<Rightarrow> bool" where
  "self_signed_works P \<longleftrightarrow>
     (\<forall>e. \<exists>key e'. GenerateKey P e = (Ok key, e') \<and>
       (\<forall>template e. \<exists>der e'. CreateCertificate P template key e = (Ok der, e') \<and>
          x509KeyPair P (PemEncodeCertificate P der) (PemEncodeKey P key) = None))"

definition acme_works :: "'e Pki \<Rightarrow> bool" where
  "acme_works P \<longleftrightarrow>
     (\<forall>e. fst (LimiterWait P e) = None) \<and>
     (\<forall>request e. \<exists>res e' notAfter. Obtain P request e = (Ok res, e') \<and> ParsePEMCertificate P (res_Certificate res) = Ok notAfter \<and>
       x509KeyPair P (res_Certificate res) (res_PrivateKey res) = None) \<and>
     (\<forall>bundle e. \<exists>b r e'. GetOCSP P bundle e = (Ok (b, Some r), e') \<and> ocsp_good r)"

text \<open>A certificate fits to its key.\<close>

definition fits :: "'e Pki \<Rightarrow> Details \<Rightarrow> bool" where
  "fits P d \<longleftrightarrow> x509KeyPair P (det_Certificate d) (PrivateKey d) = None"

lemma fits_cert: "cert_only (fits P)"
  by (simp add: cert_only_def fits_def)

text \<open>\<open>up\<close> says of a store that it works, and the certificates in memory fit to their keys.\<close>

definition world_good :: "'e Pki \<Rightarrow> LegoSupplier option \<Rightarrow> ('s \<Rightarrow> bool) \<Rightarrow> ('s, 'e) World \<Rightarrow> bool" where
  "world_good P lego up w \<longleftrightarrow> self_signed_works P \<and> (lego = None \<or> acme_works P) \<and> up (w_store w) \<and> heap_all (fits P) w"

lemma world_good_quiet: "world_good P lego up w \<Longrightarrow> quiet w w' \<Longrightarrow> world_good P lego up w'"
  using heap_all_frame [OF fits_cert, of P w w'] by (simp add: world_good_def quiet_def world_frame_def)

text \<open>A new certificate that fits to its key.\<close>

lemma world_good_new:
  assumes "world_good P lego up w" "quiet w v" "new_details d v = (ref, w')" "fits P d"
  shows "world_good P lego up (set_details (\<lambda>d. d\<lparr>det_Provider := n\<rparr>) ref w')"
proof -
  have "world_good P lego up v" by (rule world_good_quiet [OF assms(1,2)])
  moreover have "w_store w' = w_store v" using assms(3) by (auto simp: new_details_def)
  ultimately show ?thesis
    using heap_all_provider [OF fits_cert heap_all_new [of d v ref w' "fits P"], of n ref] assms(3,4) by (simp add: world_good_def)
qed

lemma self_signed_good:
  assumes "world_good P lego up w" "SelfSigned_GetCertificate P s as b w = (res, w')"
  shows "\<exists>ref. res = Ok ref \<and> world_good P lego up (set_details (\<lambda>d. d\<lparr>det_Provider := n\<rparr>) ref w')"
proof -
  obtain key e1 where key: "GenerateKey P (w_env w) = (Ok key, e1)"
    "\<And>template e. \<exists>der e'. CreateCertificate P template key e = (Ok der, e') \<and>
      x509KeyPair P (PemEncodeCertificate P der) (PemEncodeKey P key) = None"
    using assms(1) unfolding world_good_def self_signed_works_def by blast
  let ?w1 = "w\<lparr>w_env := e1\<rparr>"
  obtain t1 w2 where 2: "time_now ?w1 = (t1, w2)" by fastforce
  obtain t2 w3 where 3: "time_now w2 = (t2, w3)" by fastforce
  let ?tpl = "\<lparr>SerialNumber = 1, Organization = [''Centauri''], CommonName = s, tpl_NotBefore = t1 - hour,
    tpl_NotAfter = t2 + hours (24 * 30), DNSNames = s # as\<rparr>"
  obtain der e4 where 4: "CreateCertificate P ?tpl key (w_env w3) = (Ok der, e4)"
    "x509KeyPair P (PemEncodeCertificate P der) (PemEncodeKey P key) = None" using key(2) by blast
  obtain t5 w5 where 5: "time_now (w3\<lparr>w_env := e4\<rparr>) = (t5, w5)" by fastforce
  have q: "quiet w w5" using 2 3 5 by (auto simp: time_now_def quiet_def world_frame_def heap_frame_def)
  show ?thesis
    using assms key(1) 2 3 4 5 world_good_new [OF assms(1) q]
    by (auto simp: SelfSigned_GetCertificate_def outside_def fits_def split: prod.splits)
qed

lemma lego_staple_good:
  assumes "acme_works P" "Lego_UpdateStaple P ref w = (err, w')"
  shows "err = None"
proof -
  obtain b r e' where "GetOCSP P (det_Certificate (w_heap w ref)) (w_env w) = (Ok (b, Some r), e')" "ocsp_good r"
    using assms(1) unfolding acme_works_def by blast
  with assms(2) show ?thesis by (auto simp: Lego_UpdateStaple_def outside_def)
qed

lemma lego_good:
  assumes "world_good P lego up w" "acme_works P" "Lego_GetCertificate P l s as b w = (res, w')"
  shows "\<exists>ref. res = Ok ref \<and> world_good P lego up (set_details (\<lambda>d. d\<lparr>det_Provider := n\<rparr>) ref w')"
proof -
  let ?rq = "\<lparr>or_Domains = s # as, Bundle = True, MustStaple = b, or_Profile = ls_profile l, KeyType = ls_keyType l\<rparr>"
  obtain e1 where 1: "LimiterWait P (w_env w) = (None, e1)"
    using assms(2) unfolding acme_works_def by (metis prod.collapse)
  obtain re e2 t where 2: "Obtain P ?rq e1 = (Ok re, e2)" "ParsePEMCertificate P (res_Certificate re) = Ok t"
    "x509KeyPair P (res_Certificate re) (res_PrivateKey re) = None"
    using assms(2) unfolding acme_works_def by blast
  let ?d = "empty_details\<lparr>Issuer := IssuerCertificate re, PrivateKey := res_PrivateKey re, det_Certificate := res_Certificate re,
    det_Subject := s, AltNames := as, NotAfter := t\<rparr>"
  obtain ref w3 where 3: "new_details ?d (w\<lparr>w_env := e2\<rparr>) = (ref, w3)" by fastforce
  have q: "quiet w (w\<lparr>w_env := e2\<rparr>)" by (simp add: quiet_def)
  have good: "world_good P lego up (set_details (\<lambda>d. d\<lparr>det_Provider := n\<rparr>) ref w3)"
    by (rule world_good_new [OF assms(1) q 3]) (simp add: fits_def 2(3))
  obtain err w4 where 4: "Lego_UpdateStaple P ref w3 = (err, w4)" by fastforce
  have err: "err = None" by (rule lego_staple_good [OF assms(2) 4])
  have "quiet w3 w4" by (rule Lego_UpdateStaple_quiet [OF 4])
  then have "world_good P lego up (set_details (\<lambda>d. d\<lparr>det_Provider := n\<rparr>) ref w4)"
    using good by (auto simp: world_good_def heap_all_def fits_def set_details_def quiet_def world_frame_def heap_frame_def same_cert_def)
  with assms(3) 1 2 3 4 err good show ?thesis by (auto simp: Lego_GetCertificate_def outside_def split: if_splits)
qed

subsection \<open>Routes are served once they have been checked\<close>

text \<open>A provider that answers requests for the suppliers it knows, as long as \<open>avail\<close> holds of its world.\<close>

locale available_provider = certificate_provider +
  fixes avail :: "'a \<Rightarrow> bool" and known :: "string \<Rightarrow> bool"
  assumes get_succeeds: "pinv ps \<Longrightarrow> avail ps \<Longrightarrow> known p \<Longrightarrow>
      \<exists>c ps'. GetCertificate prov p n as ps = Some ((Some c, None), ps') \<and> avail ps'"
    and existing_avail: "pinv ps \<Longrightarrow> avail ps \<Longrightarrow> GetExistingCertificate prov p n as ps = Some (res, ps') \<Longrightarrow> avail ps'"
begin

lemma load_avail:
  assumes "tls_ok m" "avail (m_pstate m)" "loadCertificate ref m = Some m'"
  shows "avail (m_pstate m')"
  using assms existing_avail unfolding tls_ok_def
  by (auto simp: loadCertificate_def Let_def upd_route_def simp del: CertificateNames_Some split: option.splits prod.splits if_splits)

lemma install_avail:
  assumes "tls_ok m" "avail (m_pstate m)" "list_all route_ok rs" "install_routes rs fb m = Some (err, m')"
  shows "avail (m_pstate m')"
proof -
  let ?I = "\<lambda>m. tls_ok m \<and> avail (m_pstate m)"
  have "?I (alloc_routes rs m)" using assms(1-3) by (simp add: tls_ok_def alloc_certs_ok)
  then have "?I m'"
    using assms(4) by (rule install_keeps) (auto intro: loadCertificate_tls_ok load_avail, simp_all add: tls_ok_def)
  then show ?thesis by simp
qed

lemma check_served:
  assumes "tls_ok m" "avail (m_pstate m)" "Domains (m_heap m ref) \<noteq> []" "known (Provider (m_heap m ref))" "check_route ref m = Some m'"
  obtains c where "avail (m_pstate m')" "m_heap m' = (m_heap m)(ref := setCertificateStatus CertificateGood (setCertificate (Some c) (m_heap m ref)))"
proof -
  obtain primary alts where names: "CertificateNames (m_heap m ref) = Some (primary, alts)"
    using assms(3) CertificateNames_Some by (metis option.exhaust prod.exhaust)
  obtain c ps where "GetCertificate prov (Provider (m_heap m ref)) primary alts (m_pstate m) = Some ((Some c, None), ps)" "avail ps"
    using get_succeeds assms(1,2,4) unfolding tls_ok_def by blast
  with assms(1,5) names that [of c] show thesis
    by (auto simp: check_route_def updateCert_def tls_ok_def upd_route_def)
qed

lemma checks_served:
  assumes "tls_ok m" "avail (m_pstate m)" "has_domains m refs" "\<forall>ref \<in> set refs. known (Provider (m_heap m ref))"
    and "each_route check_route refs m = Some m'"
  shows "ref \<in> set refs \<Longrightarrow> certificateStatus (m_heap m' ref) = CertificateGood \<and> certificate (m_heap m' ref) \<noteq> None"
    "ref \<notin> set refs \<Longrightarrow> m_heap m' ref = m_heap m ref"
  using assms
proof (atomize (full), induction refs arbitrary: m)
  case (Cons r refs)
  then obtain m1 where m1: "check_route r m = Some m1" "each_route check_route refs m1 = Some m'" by (auto split: option.splits)
  have r: "Domains (m_heap m r) \<noteq> []" "known (Provider (m_heap m r))" using Cons.prems by (auto simp: has_domains_def)
  obtain c where c: "avail (m_pstate m1)"
    "m_heap m1 = (m_heap m)(r := setCertificateStatus CertificateGood (setCertificate (Some c) (m_heap m r)))"
    using check_served [OF _ _ r m1(1)] Cons.prems by blast
  have "tls_ok m1" using check_route_returns [of m r] Cons.prems r(1) m1(1) by auto
  moreover have "has_domains m1 refs" using Cons.prems by (auto simp: has_domains_def c(2) route_simps)
  moreover have "\<forall>ref \<in> set refs. known (Provider (m_heap m1 ref))" using Cons.prems by (auto simp: c(2) route_simps)
  ultimately have "(ref \<in> set refs \<longrightarrow> certificateStatus (m_heap m' ref) = CertificateGood \<and> certificate (m_heap m' ref) \<noteq> None) \<and>
      (ref \<notin> set refs \<longrightarrow> m_heap m' ref = m_heap m1 ref)"
    using Cons.IH [of m1] c(1) m1(2) by blast
  then show ?case by (cases "ref \<in> set refs") (auto simp: c(2) route_simps)
qed simp

lemma CheckCertificates_serves:
  assumes "mgr_reachable pinv (Some prov) m" "avail (m_pstate m)" "\<And>ref. ref \<in> set (Routes m) \<Longrightarrow> known (Provider (m_heap m ref))"
  shows "\<exists>m'. CheckCertificates m = Some m' \<and> cert_frame m m' \<and>
    (\<forall>d. RouteForDomain m' d = routeFor m d \<and> (routeFor m d \<noteq> None \<longrightarrow> (\<exists>c. CertificateForClient m' d = Ok (Some c))))"
proof -
  obtain m' where m': "CheckCertificates m = Some m'" using CheckCertificates_returns [OF assms(1)] by blast
  have fr: "cert_frame m m'" by (rule CheckCertificates_frame [OF m'])
  have t: "tables_ok m" by (rule mgr_reachable_tables_ok [OF assms(1)])
  have tls: "tls_ok m" by (rule mgr_reachable_tls_ok [OF assms(1)])
  have dom: "has_domains m (Routes m)" using t by (auto simp: tables_ok_def has_domains_def)
  have good: "certificateStatus (m_heap m' ref) = CertificateGood \<and> certificate (m_heap m' ref) \<noteq> None" if "ref \<in> set (Routes m)" for ref
    using checks_served(1) [OF tls assms(2) dom _ m' [unfolded CheckCertificates_def] that] assms(3) by blast
  have mem: "ref \<in> set (Routes m)" if "routeFor m d = Some ref" for d ref
    using routeFor_in_Routes [OF t that] .
  have same: "routeFor m' d = routeFor m d" for d
    unfolding routeFor_def Get_def using fr by (simp add: cert_frame_def split: option.split)
  have "RouteForDomain m' d = routeFor m d \<and> (routeFor m d \<noteq> None \<longrightarrow> (\<exists>c. CertificateForClient m' d = Ok (Some c)))" for d
  proof (cases "routeFor m d")
    case (Some ref)
    with good [OF mem [OF Some]] fr tls show ?thesis
      by (auto simp: RouteForDomain_def same CertificateForClient_def cert_frame_def tls_ok_def Certificate_def less_eq_CertificateStatus_def)
  qed (simp add: RouteForDomain_def same)
  with m' fr show ?thesis by blast
qed

end

subsection \<open>The program's manager with a store that works\<close>

text \<open>The certificates of the store fit to their keys, and while it is \<open>up\<close> it keeps what it is asked to keep.\<close>

locale available_store = keeping_store st P sinv locked "fits P" within
  for st :: "('s, 'e) Store" and P :: "'e Pki" and sinv locked within +
  fixes up :: "'s \<Rightarrow> bool"
  assumes up_lookup: "up (w_store w) \<Longrightarrow> StoreGetCertificate st p s as w = (r, w') \<Longrightarrow> up (w_store w')"
    and up_save: "up (w_store w) \<Longrightarrow> SaveCertificate st ref w = (err, w') \<Longrightarrow> err = None \<and> up (w_store w')"
    and up_lock: "up (w_store w) \<Longrightarrow> LockCertificate st s as w = Some w' \<Longrightarrow> up (w_store w')"
    and up_unlock: "up (w_store w) \<Longrightarrow> UnlockCertificate st s as w = Some w' \<Longrightarrow> up (w_store w')"
begin

definition working :: "LegoSupplier option \<Rightarrow> ('s, 'e) World \<Rightarrow> bool" where
  "working lego = world_good P lego (\<lambda>r. up r \<and> within r)"

lemma working_iff: "working lego w \<longleftrightarrow> self_signed_works P \<and> (lego = None \<or> acme_works P) \<and> up (w_store w) \<and> kept w"
  by (auto simp: working_def world_good_def kept_def)

lemma manager_of_store: "cert_manager (provider_manager P (config\<lparr>pc_Store := st\<rparr>)) P sinv locked (\<lambda>_. pki_ok P)"
proof (rule cert_manager.intro)
  show "certificate_store (cm_store (provider_manager P (config\<lparr>pc_Store := st\<rparr>))) (parsePEM P) sinv locked"
    using certificate_store_axioms by (simp add: provider_manager_def NewCertManager_def)
  show "cert_manager_axioms (provider_manager P (config\<lparr>pc_Store := st\<rparr>)) P (\<lambda>_. pki_ok P)"
    by (rule cert_manager_axioms.intro) (simp add: provider_manager_def NewCertManager_def provider_suppliers_ok)
qed

lemma supplier_cases:
  assumes "provider_suppliers P lego n = Some sp" "working lego w"
  shows "sp = NewSelfSignedSupplier P \<or> acme_works P \<and> (\<exists>l. sp = lego_supplier P l)"
  using assms by (auto simp: provider_suppliers_def working_iff Let_def split: option.splits if_splits)

lemma available_manager_of_store:
  "available_manager (provider_manager P (config\<lparr>pc_Store := st\<rparr>)) P sinv locked (\<lambda>_. pki_ok P) (working (pc_Lego config))"
proof (rule available_manager.intro [OF manager_of_store])
  let ?good = "working (pc_Lego config)"
  have st: "cm_store (provider_manager P (config\<lparr>pc_Store := st\<rparr>)) = st"
    by (simp add: provider_manager_def NewCertManager_def)
  have sup: "suppliers (provider_manager P (config\<lparr>pc_Store := st\<rparr>)) = provider_suppliers P (pc_Lego config)"
    by (simp add: provider_manager_def NewCertManager_def)
  show "available_manager_axioms (provider_manager P (config\<lparr>pc_Store := st\<rparr>)) P ?good"
  proof (unfold_locales, unfold st sup)
    fix w w' :: "('s, 'e) World" and p s as r ref err
    show "?good w \<Longrightarrow> quiet w w' \<Longrightarrow> ?good w'" unfolding working_def by (rule world_good_quiet)
    show "?good w \<Longrightarrow> StoreGetCertificate st p s as w = (r, w') \<Longrightarrow> ?good w'"
      using up_lookup [of w p s as r w'] kept_lookup [of w p s as r w'] by (simp add: working_iff)
    show "?good w \<Longrightarrow> ref < w_next w \<Longrightarrow> SaveCertificate st ref w = (err, w') \<Longrightarrow> err = None \<and> ?good w' \<and> ref < w_next w'"
      using up_save [of w ref err w'] kept_save [of w ref err w'] by (simp add: working_iff)
    show "?good w \<Longrightarrow> LockCertificate st s as w = Some w' \<Longrightarrow> ?good w'"
      "?good w \<Longrightarrow> UnlockCertificate st s as w = Some w' \<Longrightarrow> ?good w'"
      using up_lock [of w s as w'] up_unlock [of w s as w'] kept_locks [of w s as w'] by (simp_all add: working_iff)
    show "?good w \<Longrightarrow> ref < w_next w \<Longrightarrow> x509KeyPair P (det_Certificate (w_heap w ref)) (PrivateKey (w_heap w ref)) = None"
      by (simp add: working_def world_good_def heap_all_def fits_def)
  next
    fix n w w' s as b res ref err and sp :: "('s, 'e) Supplier"
    assume sp: "provider_suppliers P (pc_Lego config) n = Some sp" and g: "?good w"
    note c = supplier_cases [OF sp g] and g' = g [unfolded working_def]
    show "SupplierGetCertificate sp s as b w = (res, w') \<Longrightarrow>
        \<exists>ref. res = Ok ref \<and> ?good (set_details (\<lambda>d. d\<lparr>det_Provider := n\<rparr>) ref w')"
      unfolding working_def using c self_signed_good [OF g'] lego_good [OF g'] by (auto simp: NewSelfSignedSupplier_def lego_supplier_def)
    show "UpdateStaple sp ref w = (err, w') \<Longrightarrow> err = None"
      using c lego_staple_good by (auto simp: NewSelfSignedSupplier_def lego_supplier_def SelfSigned_UpdateStaple_def)
  qed
qed

text \<open>The program's provider, which maps the names of a request to wildcards before it asks the manager.\<close>

definition provider_ok :: "('s, 'e) World \<Rightarrow> bool" where
  "provider_ok w \<longleftrightarrow> sinv w \<and> locked None w \<and> pki_ok P \<and> heap_decodes (parsePEM P) w"

lemma available_provider_of_store:
  assumes "certificate_provider (wildcard_provider (NewProvider P (config\<lparr>pc_Store := st\<rparr>))) provider_ok"
  shows "available_provider (wildcard_provider (NewProvider P (config\<lparr>pc_Store := st\<rparr>))) provider_ok
    (working (pc_Lego config)) (\<lambda>p. \<exists>sp. supplier (provider_manager P (config\<lparr>pc_Store := st\<rparr>)) p = Ok sp)"
proof (rule available_provider.intro [OF assms], unfold_locales)
  note defs = wildcard_provider_def WildcardResolver_GetCertificate_def WildcardResolver_GetExistingCertificate_def NewProvider_def
    NewWildcardResolver_def manager_provider_def
  let ?m = "provider_manager P (config\<lparr>pc_Store := st\<rparr>)" and ?good = "working (pc_Lego config)"
  have inv: "cert_manager.winv P sinv locked (\<lambda>_. pki_ok P) None = provider_ok"
    by (simp add: fun_eq_iff cert_manager.winv_def [OF manager_of_store] provider_ok_def)
  note am = available_manager_of_store [of config]
  fix ps ps' p n as res
  show "provider_ok ps \<Longrightarrow> ?good ps \<Longrightarrow> \<exists>sp. supplier ?m p = Ok sp \<Longrightarrow>
      \<exists>c ps'. GetCertificate (wildcard_provider (NewProvider P (config\<lparr>pc_Store := st\<rparr>))) p n as ps = Some ((Some c, None), ps') \<and> ?good ps'"
    using available_manager.GetCertificate_succeeds [OF am, of ps p] unfolding inv by (force simp: defs)
  show "provider_ok ps \<Longrightarrow> ?good ps \<Longrightarrow>
      GetExistingCertificate (wildcard_provider (NewProvider P (config\<lparr>pc_Store := st\<rparr>))) p n as ps = Some (res, ps') \<Longrightarrow> ?good ps'"
    using available_manager.good_existing [OF am, of None ps] unfolding inv by (auto simp: defs)
qed

end

subsection \<open>The JSON store\<close>

text \<open>The JSON store works if the file can always be written.\<close>

definition json_up :: "JsonStore \<Rightarrow> bool" where
  "json_up j \<longleftrightarrow> (\<forall>k. js_writes j k = Written)"

definition json_good :: "'e Pki \<Rightarrow> LegoSupplier option \<Rightarrow> 'e json_world \<Rightarrow> bool" where
  "json_good P lego = world_good P lego json_up"

lemma json_up_save:
  assumes "json_up (w_store w)" "JsonStore_SaveCertificate ref w = (err, w')"
  shows "err = None \<and> json_up (w_store w')"
  using assms
  by (auto simp: JsonStore_SaveCertificate_def Let_def removeCertificate_def set_store_def save_def
      pruneCertificates_def prune_loop_eq json_up_def split: write_outcome.splits)

lemma json_up_locks:
  "json_up (w_store w) \<Longrightarrow> JsonStore_LockCertificate s as w = Some w' \<Longrightarrow> json_up (w_store w')"
  "json_up (w_store w) \<Longrightarrow> JsonStore_UnlockCertificate s as w = Some w' \<Longrightarrow> json_up (w_store w')"
  by (auto simp: JsonStore_LockCertificate_def JsonStore_UnlockCertificate_def lockFor_def set_store_def json_up_def Let_def
      split: option.splits if_splits)

interpretation json_avail: available_store json_store P json_inv json_locked "\<lambda>_. True" json_up for P
proof (rule available_store.intro [OF json_keeping [OF fits_cert]], unfold_locales)
  fix w w' :: "'a json_world" and p s as r ref err
  show "json_up (w_store w) \<Longrightarrow> StoreGetCertificate json_store p s as w = (r, w') \<Longrightarrow> json_up (w_store w')"
    by (simp add: json_store_def JsonStore_GetCertificate_def)
  show "json_up (w_store w) \<Longrightarrow> SaveCertificate json_store ref w = (err, w') \<Longrightarrow> err = None \<and> json_up (w_store w')"
    using json_up_save [of w ref err w'] by (simp add: json_store_def)
  show "json_up (w_store w) \<Longrightarrow> LockCertificate json_store s as w = Some w' \<Longrightarrow> json_up (w_store w')"
    "json_up (w_store w) \<Longrightarrow> UnlockCertificate json_store s as w = Some w' \<Longrightarrow> json_up (w_store w')"
    using json_up_locks [of w s as w'] by (simp_all add: json_store_def)
qed

interpretation json_served: available_provider "json_provider P config" "provider_inv P" "json_good P (pc_Lego config)"
  "\<lambda>p. \<exists>sp. supplier (provider_manager P (json_config config)) p = Ok sp" for P config
proof -
  have "json_avail.provider_ok P = provider_inv P" "json_avail.working P = json_good P"
    by (simp_all add: fun_eq_iff json_avail.provider_ok_def provider_inv_def json_avail.working_def json_good_def)
  then show "available_provider (json_provider P config) (provider_inv P) (json_good P (pc_Lego config))
      (\<lambda>p. \<exists>sp. supplier (provider_manager P (json_config config)) p = Ok sp)"
    using json_avail.available_provider_of_store [of P config] json_prov.certificate_provider_axioms [of P config]
    by (simp add: json_provider_def)
qed

subsection \<open>The Redis store\<close>

text \<open>The Redis store works if its server answers every request.\<close>

definition redis_up :: "RedisStore \<Rightarrow> bool" where
  "redis_up r \<longleftrightarrow> (\<forall>k. re_outcome (rs_env r) k = Answered \<and> re_marshal (rs_env r) k = None)"

definition redis_good :: "'e Pki \<Rightarrow> LegoSupplier option \<Rightarrow> 'e redis_world \<Rightarrow> bool" where
  "redis_good P lego = world_good P lego (\<lambda>r. redis_up r \<and> redis_holds (fits P) r)"

lemma redis_up_save:
  assumes "redis_up (w_store w)" "RedisStore_SaveCertificate ref w = (err, w')"
  shows "err = None \<and> redis_up (w_store w')"
  using assms(2)
proof (cases rule: redis_save_cases)
  case (failed e)
  with assms show ?thesis
    by (auto simp: RedisStore_SaveCertificate_def storedCertificates_def redis_up_def Let_def split: prod.splits)
next
  case (sent stored args w1 w2 h h' k)
  have "w1 = set_redis (\<lambda>r. r\<lparr>rs_requests := Suc (rs_requests r)\<rparr>) w" by (rule storedCertificates_effect(1) [OF sent(1)])
  with assms(1) sent(6,7) prune_args_frame [OF sent(2)] show ?thesis by (simp add: redis_up_def)
qed

lemma redis_up_lookup:
  assumes "redis_up (w_store w)" "RedisStore_GetCertificate p s as w = (r, w')"
  shows "redis_up (w_store w')"
proof -
  obtain res w1 where 1: "storedCertificates w = (res, w1)" by fastforce
  have "w1 = set_redis (\<lambda>r. r\<lparr>rs_requests := Suc (rs_requests r)\<rparr>) w" by (rule storedCertificates_effect(1) [OF 1])
  moreover have "alloc_details ds w1 = (refs, v) \<Longrightarrow> w_store v = w_store w1" for ds refs v
    using heap_all_alloc [of ds w1 refs v "\<lambda>_. True"] by (simp add: heap_all_def)
  ultimately show ?thesis
    using assms 1 by (auto simp: RedisStore_GetCertificate_def allCertificates_def redis_up_def split: sum.splits prod.splits)
qed

interpretation redis_avail: available_store redis_store P "redis_inv (parsePEM P)" redis_locked "redis_holds (fits P)" redis_up for P
proof (rule available_store.intro [OF redis_keeping [OF fits_cert]], unfold_locales)
  fix w w' :: "'a redis_world" and p s as r ref err
  show "redis_up (w_store w) \<Longrightarrow> StoreGetCertificate redis_store p s as w = (r, w') \<Longrightarrow> redis_up (w_store w')"
    using redis_up_lookup [of w p s as r w'] by (simp add: redis_store_def)
  show "redis_up (w_store w) \<Longrightarrow> SaveCertificate redis_store ref w = (err, w') \<Longrightarrow> err = None \<and> redis_up (w_store w')"
    using redis_up_save [of w ref err w'] by (simp add: redis_store_def)
  show "redis_up (w_store w) \<Longrightarrow> LockCertificate redis_store s as w = Some w' \<Longrightarrow> redis_up (w_store w')"
    "redis_up (w_store w) \<Longrightarrow> UnlockCertificate redis_store s as w = Some w' \<Longrightarrow> redis_up (w_store w')"
    using redis_lock_memory [of s as w w'] by (simp_all add: redis_store_def redis_up_def)
qed

interpretation redis_served: available_provider "redis_provider P config" "redis_provider_inv P" "redis_good P (pc_Lego config)"
  "\<lambda>p. \<exists>sp. supplier (provider_manager P (redis_config config)) p = Ok sp" for P config
proof -
  have "redis_avail.provider_ok P = redis_provider_inv P" "redis_avail.working P = redis_good P"
    by (simp_all add: fun_eq_iff redis_avail.provider_ok_def redis_provider_inv_def redis_avail.working_def redis_good_def)
  then show "available_provider (redis_provider P config) (redis_provider_inv P) (redis_good P (pc_Lego config))
      (\<lambda>p. \<exists>sp. supplier (provider_manager P (redis_config config)) p = Ok sp)"
    using redis_avail.available_provider_of_store [of P config] redis_prov.certificate_provider_axioms [of P config]
    by (simp add: redis_provider_def)
qed

end
