(* ===== verification/Named_Certificates.thy ===== *)
theory Named_Certificates
  imports Kept_Details
begin

text \<open>
  The certificate that a client of a route is given is for the names of the route: whatever is looked up, obtained, renewed and
  stapled, and whichever wildcard names stand in for names.
\<close>

subsection \<open>A provider whose certificates are for the names that were asked for\<close>

locale naming_provider = certificate_provider +
  fixes for_names :: "string \<Rightarrow> string list \<Rightarrow> TLSCertificate \<Rightarrow> bool"
  assumes get_names: "pinv ps \<Longrightarrow> GetCertificate prov p s as ps = Some ((Some c, err), ps') \<Longrightarrow> for_names s as c"
    and existing_names: "pinv ps \<Longrightarrow> GetExistingCertificate prov p s as ps = Some ((Some c, b, err), ps') \<Longrightarrow> for_names s as c"
begin

definition route_named :: "Route \<Rightarrow> bool" where
  "route_named r \<longleftrightarrow> (\<forall>c primary alts. certificate r = Some c \<longrightarrow> CertificateNames r = Some (primary, alts) \<longrightarrow> for_names primary alts c)"

definition names_ok :: "'a Manager \<Rightarrow> bool" where
  "names_ok m \<longleftrightarrow> tls_ok m \<and> (\<forall>ref. route_named (m_heap m ref))"

lemma names_ok_store:
  assumes "\<forall>ref. route_named (m_heap m ref)" "CertificateNames (m_heap m ref) = Some (primary, alts)"
    and "\<And>c. cert = Some c \<Longrightarrow> for_names primary alts c"
  shows "route_named (m_heap (upd_route (setCertificateStatus st) ref (upd_route (setCertificate cert) ref (m\<lparr>m_pstate := ps\<rparr>))) r)"
proof -
  have "CertificateNames (setCertificateStatus st (setCertificate cert r)) = CertificateNames r" for r
    by (simp add: CertificateNames_def setCertificateStatus_def setCertificate_def split: list.split)
  with assms show ?thesis by (auto simp: route_named_def upd_route_def route_simps)
qed

lemma load_names:
  assumes "names_ok m" "loadCertificate ref m = Some m'"
  shows "names_ok m'"
proof -
  have ok: "tls_ok m" "tls_ok m'" using assms loadCertificate_tls_ok by (auto simp: names_ok_def)
  obtain primary alts where n: "CertificateNames (m_heap m ref) = Some (primary, alts)"
    using assms(2) ok(1) by (auto simp: loadCertificate_def tls_ok_def split: option.splits)
  obtain cert b err ps where get: "GetExistingCertificate prov (Provider (m_heap m ref)) primary alts (m_pstate m) = Some ((cert, b, err), ps)"
    using existing_returns ok(1) unfolding tls_ok_def by blast
  have "for_names primary alts c" if "cert = Some c" for c
    using existing_names get that ok(1) unfolding tls_ok_def by blast
  then have "route_named (m_heap m' r)" for r
    using assms n get ok(1) names_ok_store [of m ref primary alts] unfolding names_ok_def
    by (auto simp: loadCertificate_def tls_ok_def Let_def split: option.splits if_splits)
  with ok(2) show ?thesis by (simp add: names_ok_def)
qed

lemma check_names:
  assumes "names_ok m" "Domains (m_heap m ref) \<noteq> []" "check_route ref m = Some m'"
  shows "names_ok m'"
proof -
  have ok: "tls_ok m" "tls_ok m'" using assms check_route_returns [of m ref] by (auto simp: names_ok_def)
  obtain primary alts where n: "CertificateNames (m_heap m ref) = Some (primary, alts)"
    using assms(2) CertificateNames_Some by (metis option.exhaust prod.exhaust)
  obtain cert err ps where get: "GetCertificate prov (Provider (m_heap m ref)) primary alts (m_pstate m) = Some ((cert, err), ps)"
    using get_returns ok(1) unfolding tls_ok_def by blast
  have "for_names primary alts c" if "cert = Some c" for c using get_names get that ok(1) unfolding tls_ok_def by blast
  note new = names_ok_store [of m ref primary alts cert _ ps, OF _ n this]
  have "pinv ps" using get get_inv ok(1) unfolding tls_ok_def by blast
  then have p: "names_ok (m\<lparr>m_pstate := ps\<rparr>)" using assms(1) pstate_tls_ok by (simp add: names_ok_def)
  show ?thesis
  proof (cases err)
    case None
    have "\<forall>r. route_named (m_heap m r)" using assms(1) by (simp add: names_ok_def)
    with None n get ok assms(3) new show ?thesis
      by (auto simp: check_route_def updateCert_def tls_ok_def names_ok_def)
  next
    case (Some e)
    then have "loadCertificate ref (m\<lparr>m_pstate := ps\<rparr>) = Some m'"
      using n get ok(1) assms(2,3) by (auto simp: check_route_def updateCert_def tls_ok_def)
    with p show ?thesis by (rule load_names)
  qed
qed

lemma alloc_names: "names_ok m \<Longrightarrow> list_all route_ok rs \<Longrightarrow> names_ok (alloc_routes rs m)"
proof -
  assume m: "names_ok m" and rs: "list_all route_ok rs"
  have "route_named (rs ! i)" if "i < length rs" for i
    using rs that by (auto simp: list_all_length route_named_def route_ok_def building_ok_def)
  then have "route_named (m_heap (alloc_routes rs m) ref)" for ref
    using m by (auto simp: names_ok_def alloc_routes_def)
  moreover have "tls_ok (alloc_routes rs m)" using m rs by (simp add: names_ok_def tls_ok_def alloc_certs_ok)
  ultimately show ?thesis by (simp add: names_ok_def)
qed

lemma mgr_step_names: "mgr_step pinv m m' \<Longrightarrow> names_ok m \<Longrightarrow> tables_ok m \<Longrightarrow> names_ok m'"
proof (induction rule: mgr_step.induct)
  case (install rs fb m err m')
  show ?case
    using alloc_names [OF install.prems(1) install.hyps(1)] install.hyps(3) load_names
    by (rule install_keeps) (simp_all add: names_ok_def tls_ok_def)
next
  case (check ref m m')
  then show ?case using check_names by (auto simp: tables_ok_def)
next
  case (world ps m)
  then show ?case using pstate_tls_ok by (simp add: names_ok_def)
qed

lemma mgr_reachable_names: "mgr_reachable pinv (Some prov) m \<Longrightarrow> names_ok m"
proof (induction rule: mgr_reachable.induct)
  case (start ps)
  then show ?case
    using mgr_reachable_tls_ok [OF mgr_reachable.start [of pinv ps]] by (simp add: names_ok_def NewManager_def route_named_def new_route_def)
next
  case (step m m')
  then show ?case using mgr_step_names mgr_reachable_tables_ok by blast
qed

lemma client_certificate_names:
  assumes "mgr_reachable pinv (Some prov) m" "routeFor m domain = Some ref" "CertificateForClient m domain = Ok (Some c)"
    and "CertificateNames (m_heap m ref) = Some (primary, alts)"
  shows "for_names primary alts c"
  using mgr_reachable_names [OF assms(1)] assms(2-4)
  by (auto simp: names_ok_def route_named_def CertificateForClient_def Certificate_def split: option.splits if_splits)

end

subsection \<open>Names in certificates\<close>

text \<open>\<open>N\<close> reads the DNS names of the first certificate of a PEM text. What is relied on outside: a certificate that is created from a template or
  obtained for a request has the names of that.\<close>

definition names_issued :: "(string \<Rightarrow> string list) \<Rightarrow> 'e Pki \<Rightarrow> bool" where
  "names_issued N P \<longleftrightarrow>
     (\<forall>template key e der e'. CreateCertificate P template key e = (Ok der, e') \<longrightarrow>
        set (N (PemEncodeCertificate P der)) = set (DNSNames template)) \<and>
     (\<forall>request e res e'. Obtain P request e = (Ok res, e') \<longrightarrow> set (N (res_Certificate res)) = set (or_Domains request))"

text \<open>The names that are kept with a certificate are those that are in it.\<close>

definition named :: "(string \<Rightarrow> string list) \<Rightarrow> Details \<Rightarrow> bool" where
  "named N d \<longleftrightarrow> set (N (det_Certificate d)) = insert (det_Subject d) (set (AltNames d))"

text \<open>A certificate for a list of names has a name for each of them, or a wildcard name.\<close>

definition covers_names :: "(string \<Rightarrow> string list) \<Rightarrow> string \<Rightarrow> string list \<Rightarrow> TLSCertificate \<Rightarrow> bool" where
  "covers_names N s as c \<longleftrightarrow>
     (\<forall>d \<in> set (s # as). d \<noteq> [] \<and> hd d \<noteq> CHR ''.'' \<longrightarrow> (\<exists>n \<in> set (N (tls_chain c)). name_covers n d))"

lemma named_cert: "cert_only (named N)"
  by (simp add: cert_only_def named_def)

lemma heap_all_quiet: "cert_only Q \<Longrightarrow> heap_all Q w \<Longrightarrow> quiet w w' \<Longrightarrow> heap_all Q w'"
  using heap_all_frame by (auto simp: quiet_def world_frame_def)

lemma self_signed_named:
  assumes "names_issued N P" "heap_all (named N) w" "SelfSigned_GetCertificate P s as b w = (res, w')"
  shows "heap_all (named N) w'"
proof -
  note q = heap_all_quiet [OF named_cert]
  obtain key w1 where 1: "outside (GenerateKey P) w = (key, w1)" by fastforce
  obtain t1 w2 where 2: "time_now w1 = (t1, w2)" by fastforce
  obtain t2 w3 where 3: "time_now w2 = (t2, w3)" by fastforce
  let ?tpl = "\<lparr>SerialNumber = 1, Organization = [''Centauri''], CommonName = s, tpl_NotBefore = t1 - hour,
    tpl_NotAfter = t2 + hours (24 * 30), DNSNames = s # as\<rparr>"
  obtain der w4 where 4: "outside (CreateCertificate P ?tpl (projr key)) w3 = (der, w4)" by fastforce
  obtain t5 w5 where 5: "time_now w4 = (t5, w5)" by fastforce
  have h: "heap_all (named N) w1" "heap_all (named N) w4" "heap_all (named N) w5"
    using q [OF assms(2) outside_quiet [OF 1]] quiet_trans [OF time_now_quiet [OF 2] time_now_quiet [OF 3]] outside_quiet [OF 4]
      time_now_quiet [OF 5] q quiet_trans by metis+
  have "der = Ok c \<Longrightarrow> set (N (PemEncodeCertificate P c)) = insert s (set as)" for c
    using assms(1) 4 unfolding names_issued_def outside_def by (fastforce split: prod.splits)
  then show ?thesis
    using assms(3) 1 2 3 4 5 h heap_all_new [of _ w5 _ _ "named N"]
    by (cases key; cases der) (auto simp: SelfSigned_GetCertificate_def named_def split: prod.splits)
qed

lemma lego_named:
  assumes "names_issued N P" "heap_all (named N) w" "Lego_GetCertificate P l s as b w = (res, w')"
  shows "heap_all (named N) w'"
proof -
  note q = heap_all_quiet [OF named_cert]
  obtain e1 w1 where 1: "outside (LimiterWait P) w = (e1, w1)" by fastforce
  obtain r w2 where 2: "outside (Obtain P \<lparr>or_Domains = s # as, Bundle = True, MustStaple = b,
      or_Profile = ls_profile l, KeyType = ls_keyType l\<rparr>) w1 = (r, w2)" by fastforce
  have h: "heap_all (named N) w1" "heap_all (named N) w2"
    using q [OF assms(2) outside_quiet [OF 1]] q [OF q [OF assms(2) outside_quiet [OF 1]] outside_quiet [OF 2]] by simp_all
  have n: "set (N (res_Certificate re)) = insert s (set as)" if "r = Ok re" for re
    using assms(1) 2 that unfolding names_issued_def outside_def by (fastforce split: prod.splits)
  show ?thesis
  proof (cases "\<exists>re t. e1 = None \<and> r = Inr re \<and> ParsePEMCertificate P (res_Certificate re) = Inr t")
    case True
    then obtain re t where ok: "e1 = None" "r = Inr re" "ParsePEMCertificate P (res_Certificate re) = Inr t" by blast
    let ?d = "empty_details\<lparr>Issuer := IssuerCertificate re, PrivateKey := res_PrivateKey re, det_Certificate := res_Certificate re,
      det_Subject := s, AltNames := as, NotAfter := t\<rparr>"
    obtain ref w3 where 3: "new_details ?d w2 = (ref, w3)" by fastforce
    have h3: "heap_all (named N) w3" by (rule heap_all_new [OF 3 _ h(2)]) (simp add: named_def n [OF ok(2)])
    obtain e4 w4 where 4: "Lego_UpdateStaple P ref w3 = (e4, w4)" by fastforce
    have "heap_all (named N) w4" by (rule q [OF h3 Lego_UpdateStaple_quiet [OF 4]])
    with assms(3) 1 2 ok 3 4 h3 show ?thesis by (auto simp: Lego_GetCertificate_def split: option.splits if_splits)
  qed (use assms(3) 1 2 h in \<open>auto simp: Lego_GetCertificate_def split: option.splits sum.splits\<close>)
qed

text \<open>With wildcard names in place of names, the names asked for are still covered.\<close>

lemma made_covers:
  assumes "made_from (named N) (applyWildcard (wildcard_domains ws) s) (applyWildcards (wildcard_domains ws) as) c"
  shows "covers_names N s as c"
  unfolding covers_names_def
proof (intro ballI impI)
  fix d
  assume d: "d \<in> set (s # as)" "d \<noteq> [] \<and> hd d \<noteq> CHR ''.''"
  obtain x where x: "named N x" "IsFor (applyWildcard (wildcard_domains ws) s) (applyWildcards (wildcard_domains ws) as) x"
    "tls_chain c = det_Certificate x" using assms by (auto simp: made_from_def)
  then have "mset (AltNames x) = mset (map (applyWildcard (wildcard_domains ws)) as)"
    and s: "det_Subject x = applyWildcard (wildcard_domains ws) s" by (simp_all add: IsFor_iff applyWildcards_map)
  then have "set (AltNames x) = applyWildcard (wildcard_domains ws) ` set as" by (metis mset_eq_setD list.set_map)
  then have "applyWildcard (wildcard_domains ws) d \<in> set (N (tls_chain c))" using x s d(1) by (auto simp: named_def)
  moreover have "name_covers (applyWildcard (wildcard_domains ws) d) d" using applyWildcard_covers d(2) by blast
  ultimately show "\<exists>n \<in> set (N (tls_chain c)). name_covers n d" by blast
qed

text \<open>So a domain that is served has a certificate for it.\<close>

definition domains_covered :: "(string \<Rightarrow> string list) \<Rightarrow> Route \<Rightarrow> TLSCertificate \<Rightarrow> bool" where
  "domains_covered N r c \<longleftrightarrow> (\<forall>d \<in> set (Domains r). \<exists>n \<in> set (N (tls_chain c)). name_covers n d)"

lemma served_covers:
  assumes "naming_provider prov pinv (covers_names N)" "mgr_reachable pinv (Some prov) m" "RouteForDomain m domain = Some ref"
  shows "\<exists>c. CertificateForClient m domain = Ok (Some c) \<and> (Subject (m_heap m ref) = [] \<longrightarrow> domains_covered N (m_heap m ref) c)"
proof -
  have cp: "certificate_provider prov pinv" using assms(1) by (simp add: naming_provider_def)
  obtain c where c: "CertificateForClient m domain = Ok (Some c)"
    using certificate_provider.served_has_certificate [OF cp assms(2,3)] by blast
  have t: "tables_ok m" by (rule mgr_reachable_tables_ok [OF assms(2)])
  have ref: "routeFor m domain = Some ref" using assms(3) by (auto simp: RouteForDomain_def split: option.splits if_splits)
  have ok: "list_all isDomainName (Domains (m_heap m ref))" "Domains (m_heap m ref) \<noteq> []"
    using routeFor_in_Routes [OF t ref] t by (auto simp: tables_ok_def)
  have "domains_covered N (m_heap m ref) c" if "Subject (m_heap m ref) = []"
  proof -
    obtain d ds where ds: "Domains (m_heap m ref) = d # ds" using ok(2) by (cases "Domains (m_heap m ref)") auto
    with that have "CertificateNames (m_heap m ref) = Some (d, ds)" by (simp add: CertificateNames_def)
    with naming_provider.client_certificate_names [OF assms(1,2) ref c] have "covers_names N d ds c" by blast
    moreover have "x \<noteq> [] \<and> hd x \<noteq> CHR ''.''" if "isDomainName x" for x using isDomainName_hd [OF that] that by (cases x) simp_all
    ultimately show ?thesis using ok(1) unfolding domains_covered_def covers_names_def ds list_all_iff by blast
  qed
  with c show ?thesis by blast
qed

subsection \<open>The program's providers\<close>

abbreviation naming_env :: "(string \<Rightarrow> string list) \<Rightarrow> 'e Pki \<Rightarrow> 'e \<Rightarrow> bool" where
  "naming_env N P \<equiv> \<lambda>_. pki_ok P \<and> names_issued N P"

lemma supplier_stronger: "certificate_supplier sp pe (\<lambda>_. A) \<Longrightarrow> certificate_supplier sp pe (\<lambda>_. A \<and> B)"
  unfolding certificate_supplier_def by auto

lemma naming_manager:
  assumes "keeping_store st P sinv locked (named N) within"
  shows "keeping_manager (provider_manager P (config\<lparr>pc_Store := st\<rparr>)) P sinv locked (naming_env N P) (named N) within"
proof (intro keeping_manager.intro cert_manager.intro)
  have st: "cm_store (provider_manager P (config\<lparr>pc_Store := st\<rparr>)) = st"
    by (simp add: provider_manager_def NewCertManager_def)
  have sup: "suppliers (provider_manager P (config\<lparr>pc_Store := st\<rparr>)) = provider_suppliers P (pc_Lego config)"
    by (simp add: provider_manager_def NewCertManager_def)
  show "certificate_store (cm_store (provider_manager P (config\<lparr>pc_Store := st\<rparr>))) (parsePEM P) sinv locked"
    using assms by (simp add: st keeping_store_def)
  show "keeping_store (cm_store (provider_manager P (config\<lparr>pc_Store := st\<rparr>))) P sinv locked (named N) within"
    using assms by (simp add: st)
  show "cert_manager_axioms (provider_manager P (config\<lparr>pc_Store := st\<rparr>)) P (naming_env N P)"
    by (rule cert_manager_axioms.intro) (auto simp: sup intro: supplier_stronger provider_suppliers_ok)
  show "keeping_manager_axioms (provider_manager P (config\<lparr>pc_Store := st\<rparr>)) (naming_env N P) (named N)"
  proof (rule keeping_manager_axioms.intro, unfold sup)
    fix n w w' s as b res and sp :: "('a, 'b) Supplier"
    assume "provider_suppliers P (pc_Lego config) n = Some sp" "pki_ok P \<and> names_issued N P" "heap_all (named N) w"
      "SupplierGetCertificate sp s as b w = (res, w')"
    then show "heap_all (named N) w'"
      using self_signed_named [of N P w s as b res w'] lego_named [of N P w _ s as b res w']
      by (auto simp: provider_suppliers_def Let_def NewSelfSignedSupplier_def lego_supplier_def split: option.splits if_splits)
  qed
qed

lemma naming_provider_of:
  assumes "keeping_manager m P sinv locked env_ok (named N) within"
    and "\<And>w. pinv w \<longleftrightarrow> cert_manager.winv P sinv locked env_ok None w \<and> keeping_store.kept (named N) within w"
  shows "naming_provider (wildcard_provider (NewWildcardResolver (manager_provider P m) ws)) pinv (covers_names N)"
proof (intro naming_provider.intro naming_provider_axioms.intro)
  have pinv: "pinv = (\<lambda>w. cert_manager.winv P sinv locked env_ok None w \<and> keeping_store.kept (named N) within w)"
    using assms(2) by (simp add: fun_eq_iff)
  show "certificate_provider (wildcard_provider (NewWildcardResolver (manager_provider P m) ws)) pinv"
    unfolding pinv by (rule certificate_provider.wildcard_provider_ok [OF keeping_manager.keeping_provider_ok [OF assms(1)]])
  note defs = wildcard_provider_def WildcardResolver_GetCertificate_def WildcardResolver_GetExistingCertificate_def
    NewWildcardResolver_def manager_provider_def
  fix ps p s as c err ps' b
  assume ps: "pinv ps"
  show "GetCertificate (wildcard_provider (NewWildcardResolver (manager_provider P m) ws)) p s as ps = Some ((Some c, err), ps') \<Longrightarrow>
      covers_names N s as c"
    using keeping_manager.GetCertificate_made [OF assms(1), of ps] ps made_covers [of N ws s as c] unfolding pinv by (auto simp: defs)
  show "GetExistingCertificate (wildcard_provider (NewWildcardResolver (manager_provider P m) ws)) p s as ps = Some ((Some c, b, err), ps') \<Longrightarrow>
      covers_names N s as c"
    using keeping_manager.GetExistingCertificate_made [OF assms(1), of None ps] ps made_covers [of N ws s as c]
    unfolding pinv by (auto simp: defs)
qed

text \<open>What is kept: the invariant of the provider, and that the names of the certificates in memory, and in the hash, are those in them.\<close>

definition json_named_inv :: "(string \<Rightarrow> string list) \<Rightarrow> 'e Pki \<Rightarrow> 'e json_world \<Rightarrow> bool" where
  "json_named_inv N P w \<longleftrightarrow> provider_inv P w \<and> names_issued N P \<and> heap_all (named N) w"

definition redis_named_inv :: "(string \<Rightarrow> string list) \<Rightarrow> 'e Pki \<Rightarrow> 'e redis_world \<Rightarrow> bool" where
  "redis_named_inv N P w \<longleftrightarrow> redis_provider_inv P w \<and> names_issued N P \<and> heap_all (named N) w \<and> redis_holds (named N) (w_store w)"

interpretation json_named: naming_provider "json_provider P config" "json_named_inv N P" "covers_names N" for P config N
  unfolding json_provider_def NewProvider_def
  using naming_manager [OF json_keeping [OF named_cert], of P config N]
  by (rule naming_provider_of)
    (auto simp: json_named_inv_def provider_inv_def cert_manager.winv_def [OF keeping_manager.axioms(1) [OF naming_manager [OF json_keeping [OF named_cert]]]]
      keeping_store.kept_def [OF json_keeping [OF named_cert]])

interpretation redis_named: naming_provider "redis_provider P config" "redis_named_inv N P" "covers_names N" for P config N
  unfolding redis_provider_def NewProvider_def
  using naming_manager [OF redis_keeping [OF named_cert], of P config N]
  by (rule naming_provider_of)
    (auto simp: redis_named_inv_def redis_provider_inv_def cert_manager.winv_def [OF keeping_manager.axioms(1) [OF naming_manager [OF redis_keeping [OF named_cert]]]]
      keeping_store.kept_def [OF redis_keeping [OF named_cert]])

end
