(* ===== verification/Buffer_Pool.thy ===== *)
theory Buffer_Pool
  imports Prelude
begin

text \<open>
  \<^verbatim>\<open>frontend/frontend.go\<close>, the pool of buffers with which the reverse proxy copies the bodies of responses.

  A buffer is a slice: the array it refers to, and its length. \<^verbatim>\<open>sync.Pool\<close> may hand out any item that was put into it or make a
  new one, and may drop items at any time. The reverse proxy gets a buffer for each response that it copies and puts the same slice back
  when it is done; a response whose goroutine ends otherwise does not put it back.
\<close>

record slice =
  sl_array :: nat
  sl_len :: nat

record bufferPool =
  bp_items :: "slice list"
  bp_next :: nat   \<comment> \<open>the first array that was not allocated yet\<close>

definition newBufferPool :: "nat \<Rightarrow> bufferPool" where
  "newBufferPool next = \<lparr>bp_items = [], bp_next = next\<rparr>"

text \<open>\<^verbatim>\<open>New\<close> of the pool.\<close>

definition pool_New :: "bufferPool \<Rightarrow> slice \<times> bufferPool" where
  "pool_New p = (\<lparr>sl_array = bp_next p, sl_len = 32 * 1024\<rparr>, p\<lparr>bp_next := Suc (bp_next p)\<rparr>)"

text \<open>\<open>choice\<close> is the item that the pool hands out, or \<^const>\<open>None\<close> if it makes a new one.\<close>

definition pool_Get :: "nat option \<Rightarrow> bufferPool \<Rightarrow> slice \<times> bufferPool" where
  "pool_Get choice p =
     (case choice of
        Some i \<Rightarrow>
          if i < length (bp_items p)
          then (bp_items p ! i, p\<lparr>bp_items := take i (bp_items p) @ drop (Suc i) (bp_items p)\<rparr>) else pool_New p
      | None \<Rightarrow> pool_New p)"

definition pool_Put :: "slice \<Rightarrow> bufferPool \<Rightarrow> bufferPool" where
  "pool_Put b p = p\<lparr>bp_items := b # bp_items p\<rparr>"

text \<open>Goroutines that copy responses, with the buffer each holds.\<close>

record copying =
  cp_pool :: bufferPool
  cp_held :: "nat \<Rightarrow> slice option"

inductive copy_step :: "copying \<Rightarrow> copying \<Rightarrow> bool" where
  get: "cp_held s g = None \<Longrightarrow> pool_Get choice (cp_pool s) = (b, p) \<Longrightarrow>
    copy_step s (s\<lparr>cp_pool := p, cp_held := (cp_held s)(g \<mapsto> b)\<rparr>)"
| put: "cp_held s g = Some b \<Longrightarrow> copy_step s (s\<lparr>cp_pool := pool_Put b (cp_pool s), cp_held := (cp_held s)(g := None)\<rparr>)"
| abandon: "copy_step s (s\<lparr>cp_held := (cp_held s)(g := None)\<rparr>)"
| drops: "bp_items (cp_pool s) = xs @ ys @ zs \<Longrightarrow> copy_step s (s\<lparr>cp_pool := (cp_pool s)\<lparr>bp_items := xs @ zs\<rparr>\<rparr>)"

inductive copy_reachable :: "copying \<Rightarrow> bool" where
  start: "copy_reachable \<lparr>cp_pool = newBufferPool next, cp_held = (\<lambda>_. None)\<rparr>"
| step: "copy_reachable s \<Longrightarrow> copy_step s s' \<Longrightarrow> copy_reachable s'"

inductive_cases copy_stepE: "copy_step s s'"

text \<open>Every buffer has the length of a new one, and no array is used twice, in the pool or outside.\<close>

definition slice_ok :: "nat \<Rightarrow> slice \<Rightarrow> bool" where
  "slice_ok next b \<longleftrightarrow> sl_len b = 32 * 1024 \<and> sl_array b < next"

definition pool_ok :: "copying \<Rightarrow> bool" where
  "pool_ok s \<longleftrightarrow>
     list_all (slice_ok (bp_next (cp_pool s))) (bp_items (cp_pool s)) \<and> distinct (map sl_array (bp_items (cp_pool s))) \<and>
     (\<forall>g b. cp_held s g = Some b \<longrightarrow>
        slice_ok (bp_next (cp_pool s)) b \<and> (\<forall>x \<in> set (bp_items (cp_pool s)). sl_array x \<noteq> sl_array b)) \<and>
     (\<forall>g g' b b'. cp_held s g = Some b \<longrightarrow> cp_held s g' = Some b' \<longrightarrow> sl_array b = sl_array b' \<longrightarrow> g = g')"

lemma slice_ok_Suc: "slice_ok n b \<Longrightarrow> slice_ok (Suc n) b"
  by (auto simp: slice_ok_def)

text \<open>The item that is handed out leaves the pool.\<close>

lemma pool_Get_cases:
  assumes "pool_Get choice p = (b, p')"
  obtains (reused) xs zs where "bp_items p = xs @ b # zs" "p' = p\<lparr>bp_items := xs @ zs\<rparr>"
  | (made) "b = \<lparr>sl_array = bp_next p, sl_len = 32 * 1024\<rparr>" "p' = p\<lparr>bp_next := Suc (bp_next p)\<rparr>"
  using assms id_take_nth_drop [of _ "bp_items p"]
  by (auto simp: pool_Get_def pool_New_def split: option.splits if_splits)

lemma get_pool_ok:
  assumes "pool_ok s" "cp_held s g = None" "pool_Get choice (cp_pool s) = (b, p)"
  shows "pool_ok (s\<lparr>cp_pool := p, cp_held := (cp_held s)(g \<mapsto> b)\<rparr>)"
  using assms(3)
proof (cases rule: pool_Get_cases)
  case (reused xs zs)
  have other: "sl_array b' \<noteq> sl_array b" if "cp_held s g' = Some b'" for g' b'
    using that assms(1) reused(1) unfolding pool_ok_def by (metis in_set_conv_decomp)
  have "distinct (map sl_array (xs @ b # zs))" using assms(1) reused(1) unfolding pool_ok_def by metis
  then have "\<forall>x \<in> set (xs @ zs). sl_array x \<noteq> sl_array b" by (auto simp: image_iff)
  then show ?thesis
    using assms(1) reused other unfolding pool_ok_def by (auto split: if_splits)
next
  case made
  have fresh: "sl_array b' < bp_next (cp_pool s)" if "cp_held s g' = Some b' \<or> b' \<in> set (bp_items (cp_pool s))" for g' b'
    using that assms(1) by (auto simp: pool_ok_def slice_ok_def list_all_iff)
  have "list_all (slice_ok (Suc (bp_next (cp_pool s)))) (bp_items (cp_pool s))"
    using assms(1) slice_ok_Suc by (auto simp: pool_ok_def list_all_iff)
  moreover have "slice_ok (Suc (bp_next (cp_pool s))) b" using made by (simp add: slice_ok_def)
  ultimately show ?thesis
    using assms(1) made fresh slice_ok_Suc unfolding pool_ok_def by (fastforce split: if_splits)
qed

lemma copy_step_ok: "copy_step s s' \<Longrightarrow> pool_ok s \<Longrightarrow> pool_ok s'"
proof (induction rule: copy_step.induct)
  case (get s g choice b p)
  then show ?case using get_pool_ok by blast
next
  case (put s g b)
  then have "\<forall>x \<in> set (bp_items (cp_pool s)). sl_array b \<noteq> sl_array x" unfolding pool_ok_def by metis
  with put show ?case unfolding pool_ok_def pool_Put_def by (auto split: if_splits)
next
  case (abandon s g)
  then show ?case unfolding pool_ok_def by (auto split: if_splits)
next
  case (drops s xs ys zs)
  then show ?case unfolding pool_ok_def by auto
qed

lemma copy_reachable_ok: "copy_reachable s \<Longrightarrow> pool_ok s"
proof (induction rule: copy_reachable.induct)
  case (start "next")
  show ?case by (simp add: pool_ok_def newBufferPool_def)
next
  case (step s s')
  then show ?case using copy_step_ok by blast
qed

text \<open>The buffers with which responses are copied are not shared: whatever the pool hands out, makes or drops, a buffer that a
  goroutine holds has 32 KiB, no other goroutine holds its array, and the pool does not have it.\<close>

lemma buffers_are_exclusive:
  assumes "copy_reachable s" "cp_held s g = Some b"
  shows "sl_len b = 32 * 1024 \<and> (\<forall>g' b'. g' \<noteq> g \<and> cp_held s g' = Some b' \<longrightarrow> sl_array b' \<noteq> sl_array b) \<and>
    (\<forall>x \<in> set (bp_items (cp_pool s)). sl_array x \<noteq> sl_array b)"
  using copy_reachable_ok [OF assms(1)] assms(2) unfolding pool_ok_def slice_ok_def by metis

end
