(* ===== verification/Serving.thy ===== *)
theory Serving
  imports Command Availability Named_Certificates Buffer_Pool
begin

text \<open>
  The running program as clients see it: requests that are handled while configurations are installed and certificates are
  checked, and what the text of a configuration means for them.
\<close>

subsection \<open>Lookups in the course of a run\<close>

text \<open>What a handler finds when it looks up a route while the goroutines of the manager go on: the domain map, the fallback and the
  status of the route are loaded one after the other.\<close>

definition micro_lookup :: "'p micro \<Rightarrow> 'p micro \<Rightarrow> 'p micro \<Rightarrow> lookup" where
  "micro_lookup s1 s2 s3 domain =
     map_option (m_heap (mi_manager s3)) (RouteForDomain_loads (mi_manager s1) (mi_manager s2) (mi_manager s3) domain)"

inductive lookup_during :: "('p \<Rightarrow> bool) \<Rightarrow> 'p CertificateProvider option \<Rightarrow> lookup \<Rightarrow> bool" for pinv prov where
  loads: "micro_reachable False pinv prov s1 \<Longrightarrow> (micro_step False pinv)\<^sup>*\<^sup>* s1 s2 \<Longrightarrow> (micro_step False pinv)\<^sup>*\<^sup>* s2 s3 \<Longrightarrow>
    lookup_during pinv prov (micro_lookup s1 s2 s3)"

lemma lookup_during_domains: "lookup_during pinv prov lk \<Longrightarrow> lk d = Some route \<Longrightarrow> Domains route \<noteq> []"
proof (induction rule: lookup_during.induct)
  case (loads s1 s2 s3)
  then obtain ref where "RouteForDomain_loads (mi_manager s1) (mi_manager s2) (mi_manager s3) d = Some ref"
    "route = m_heap (mi_manager s3) ref" by (auto simp: micro_lookup_def)
  with loads_find_a_route [OF loads.hyps] show ?case by simp
qed

lemma route_for_during: "mgr_reachable pinv prov m \<Longrightarrow> lookup_during pinv prov (route_for m)"
  using lookup_during.loads [OF mgr_reachable_at_rest [of pinv prov m False], of "at_rest m" "at_rest m"]
  by (simp add: micro_lookup_def [abs_def] RouteForDomain_one_moment route_for_def [abs_def])

subsection \<open>Handlers do not panic\<close>

text \<open>The rewriters of a program that has started: the decorators keep the URL and the host of a request.\<close>

definition keeps_url :: "RewriterState \<Rightarrow> bool" where
  "keeps_url rw \<longleftrightarrow> (\<forall>inr out. req_URL (apply_decorators (decorators rw) inr out) = req_URL out)"

lemma NewRewriter_keeps_url: "keeps_url (NewRewriter parseIP contains nets client)"
  by (simp add: keeps_url_def default_decorators userAgentDecorator_def NewBannedHeaderDecorator_def bannedHeaderDecorator_def
      xForwardedFor_eq Let_def)

lemma tailscale_keeps_url: "keeps_url rw \<Longrightarrow> keeps_url (AddDecorator (tailscaleHeaderDecorator whoIs) rw)"
  by (simp add: keeps_url_def AddDecorator_def apply_decorators_append tailscaleHeaderDecorator_def set_header_def split: option.split)

lemma started_keeps_url:
  assumes "run_start auth_ok parseIP contains client fl i = Started r"
  shows "keeps_url (ru_rewriter r)"
proof -
  obtain src f nets provider where f: "createFrontend (in_tags i) fl (fl_frontend fl) = Ok f"
    and s: "Serve i \<lparr>ctx_Manager = provider, ctx_Rewriter = NewRewriter parseIP contains nets client, ctx_Recorder = NewRecorder\<rparr> f =
       (None, ru_context r, ru_frontend r)"
    by (rule run_start_cases [OF assms])
  let ?ctx = "\<lparr>ctx_Manager = provider, ctx_Rewriter = NewRewriter parseIP contains nets client, ctx_Recorder = NewRecorder\<rparr>"
  from f show ?thesis
  proof (cases rule: createFrontend_cases)
    case (tcp t)
    with s have "ru_context r = ?ctx" by (auto split: prod.splits)
    then show ?thesis by (simp add: NewRewriter_keeps_url)
  next
    case (tailscale t)
    with s obtain t' where "tailscale_Serve (in_localClient i) (in_listen i) ?ctx t = (None, ru_context r, t')"
      by (auto split: prod.splits)
    from tailscale_Serve_ok [OF this tailscale(2)] show ?thesis
      by (auto intro!: tailscale_keeps_url NewRewriter_keeps_url)
  qed
qed

lemma DomainRedirector_returns:
  assumes "\<And>d route. lk d = Some route \<Longrightarrow> Domains route \<noteq> []" "req_URL req \<noteq> None"
  shows "DomainRedirector_ServeHTTP lk req = CallNext req \<or>
    (\<exists>status target. DomainRedirector_ServeHTTP lk req = Redirect status target)"
  using assms by (auto simp: DomainRedirector_ServeHTTP_def Let_def split: option.splits list.splits)

lemma RewriteRequest_returns:
  assumes "keeps_url rw" "req_URL out \<noteq> None"
  shows "\<exists>out'. RewriteRequest lk intN rw inr out = Some out'"
  using assms by (auto simp: RewriteRequest_def keeps_url_def Let_def split: option.splits)

lemma count_response_returns:
  assumes "\<And>d route. lk d = Some route \<Longrightarrow> Domains route \<noteq> []"
  shows "\<exists>rc'. count_response lk host status rc = Some rc'"
  using assms by (auto simp: count_response_def split: option.splits list.splits)

lemma RewriteResponse_returns:
  assumes "resp_Request resp \<noteq> None"
  shows "\<exists>resp'. RewriteResponse l1 l2 newURL rw resp = Some resp'"
proof -
  obtain b resp' c where r: "replaceWithUpstreamErrorPage l1 newURL rw resp = (b, resp', c)" by (metis prod.exhaust)
  with replaceWithUpstreamErrorPage_keeps [OF r] assms show ?thesis
    by (auto simp: RewriteResponse_def Let_def split: option.splits)
qed

lemma TrackResponse_returns:
  assumes "\<And>d route. lk d = Some route \<Longrightarrow> Domains route \<noteq> []" "resp_Request resp \<noteq> None"
  shows "\<exists>res. TrackResponse lk (RewriteResponse l1 l2 newURL rw) resp rc = Some res"
  using RewriteResponse_returns [OF assms(2)] count_response_returns [OF assms(1)] assms(2)
  by (fastforce simp: TrackResponse_def split: option.splits)

lemma TrackBadGateway_returns:
  assumes "\<And>d route. lk d = Some route \<Longrightarrow> Domains route \<noteq> []"
  shows "\<exists>res. TrackBadGateway lk fn writer req rc = Some res"
  using count_response_returns [OF assms] by (fastforce simp: TrackBadGateway_def split: option.splits)

lemma ReverseProxy_returns:
  assumes "Rewrite req (outgoing cq req) \<noteq> None" "\<And>w r. ErrorHandler w r s \<noteq> None"
    and "\<And>resp. resp_Request resp \<noteq> None \<Longrightarrow> ModifyResponse resp s \<noteq> None"
  shows "ReverseProxy_ServeHTTP cq order transport Rewrite ModifyResponse ErrorHandler writer req s \<noteq> None"
proof -
  obtain out where out: "Rewrite req (outgoing cq req) = Some out" using assms(1) by blast
  have err: "ErrorHandler writer req s \<noteq> None" "ErrorHandler writer (default_user_agent out) s \<noteq> None" by (rule assms(2))+
  show ?thesis
  proof (cases "transport (default_user_agent out)")
    case (Inl e)
    then show ?thesis using out err by (auto simp: ReverseProxy_ServeHTTP_def)
  next
    case (Inr res)
    let ?r1 = "res\<lparr>resp_Request := Some (default_user_agent out)\<rparr>"
    have "ModifyResponse ?r1 s \<noteq> None" "ModifyResponse (?r1\<lparr>resp_Header := remove_hop_headers (resp_Header ?r1)\<rparr>) s \<noteq> None"
      by (rule assms(3), simp)+
    with Inr out err show ?thesis by (auto simp: ReverseProxy_ServeHTTP_def Let_def split: option.splits)
  qed
qed

lemma createProxy_returns:
  assumes "\<And>k d route. lks k d = Some route \<Longrightarrow> Domains route \<noteq> []" "keeps_url rw" "req_URL req \<noteq> None"
  shows "createProxy env rw lks writer req rc \<noteq> None"
proof -
  have dom: "lks k d = Some route \<Longrightarrow> Domains route \<noteq> []" for k d route by (rule assms(1))
  let ?mod = "TrackResponse (lks 2) (RewriteResponse (lks 3) (lks 4) (pe_newURL env) rw)"
  let ?err = "TrackBadGateway (lks 2) (RewriteError (lks 3) (lks 4) (lks 5) (pe_newURL env) (pe_order env) rw handleError)"
  have rp: "ReverseProxy_ServeHTTP (pe_cleanQuery env) (pe_order env) (pe_transport env proxyTransport)
      (RewriteRequest (lks 1) (pe_intN env) rw) ?mod ?err writer req rc \<noteq> None"
  proof (rule ReverseProxy_returns)
    have "req_URL (outgoing (pe_cleanQuery env) req) \<noteq> None" using assms(3) by (simp add: outgoing_def Let_def)
    then show "RewriteRequest (lks 1) (pe_intN env) rw req (outgoing (pe_cleanQuery env) req) \<noteq> None"
      using RewriteRequest_returns [OF assms(2)] by blast
    show "?err w r rc \<noteq> None" for w r using TrackBadGateway_returns [of "lks 2"] dom by blast
    show "?mod resp rc \<noteq> None" if "resp_Request resp \<noteq> None" for resp
      using TrackResponse_returns [of "lks 2"] dom that by blast
  qed
  have "DomainRedirector_ServeHTTP (lks 0) req = CallNext req \<or>
      (\<exists>status target. DomainRedirector_ServeHTTP (lks 0) req = Redirect status target)"
    by (rule DomainRedirector_returns [OF dom assms(3)])
  then show ?thesis
  proof (elim disjE exE)
    assume "DomainRedirector_ServeHTTP (lks 0) req = CallNext req"
    with rp show ?thesis by (simp add: createProxy_def NewDomainRedirector_def)
  qed (simp add: createProxy_def NewDomainRedirector_def)
qed

lemma createRedirector_returns: "req_URL req \<noteq> None \<Longrightarrow> createRedirector req rc \<noteq> None"
  by (auto simp: createRedirector_def HttpRedirector_ServeHTTP_def Let_def split: option.splits)

subsection \<open>What a configuration means\<close>

text \<open>The route that a configuration gives for a host: the last one that lists it, or the fallback.\<close>

definition route_of_config :: "Route list \<Rightarrow> nat option \<Rightarrow> string \<Rightarrow> Route option" where
  "route_of_config rs fb host =
     (case find (\<lambda>r. \<exists>d \<in> set (Domains r). to_lower d = to_lower host) (rev rs) of
        Some r \<Rightarrow> Some r
      | None \<Rightarrow> map_option (\<lambda>i. rs ! i) fb)"

text \<open>The steps between two configurations: checks of certificates, and changes in the world of the provider.\<close>

inductive calm_step :: "('p \<Rightarrow> bool) \<Rightarrow> 'p Manager \<Rightarrow> 'p Manager \<Rightarrow> bool" for pinv where
  check: "ref < m_next m \<Longrightarrow> check_route ref m = Some m' \<Longrightarrow> calm_step pinv m m'"
| world: "pinv ps \<Longrightarrow> calm_step pinv m (m\<lparr>m_pstate := ps\<rparr>)"

lemma calm_steps_frame: "(calm_step pinv)\<^sup>*\<^sup>* m m' \<Longrightarrow> cert_frame m m'"
proof (induction rule: rtranclp_induct)
  case (step m1 m2)
  from step.hyps(2) have "cert_frame m1 m2"
  proof cases
    case (check ref)
    then show ?thesis using check_route_frame by blast
  qed (simp add: cert_frame_def same_config_def)
  with step.IH show ?case by (rule cert_frame_trans)
qed simp

lemma find_rev_refs:
  assumes "\<And>i. i < length rs \<Longrightarrow> h (n + i) = rs ! i"
  shows "map_option h (find (\<lambda>ref. P (h ref)) (rev [n..<n + length rs])) = find P (rev rs)"
proof -
  have "rs = map h [n..<n + length rs]" using assms by (auto intro: nth_equalityI)
  then have "rev rs = map h (rev [n..<n + length rs])" by (metis rev_map)
  moreover have "find P (map h xs) = map_option h (find (\<lambda>ref. P (h ref)) xs)" for xs by (induction xs) auto
  ultimately show ?thesis by simp
qed

lemma installed_config:
  assumes "install_routes rs fb m = Some (None, m1)" "(calm_step pinv)\<^sup>*\<^sup>* m1 m2" "\<And>i. fb = Some i \<Longrightarrow> i < length rs"
  shows "rel_option (\<lambda>ref route. same_config route (m_heap m2 ref)) (routeFor m2 host) (route_of_config rs fb host)"
proof -
  let ?ma = "alloc_routes rs m" and ?refs = "[m_next m..<m_next m + length rs]"
  let ?P = "\<lambda>r. \<exists>d \<in> set (Domains r). to_lower d = to_lower host"
  have f2: "cert_frame m1 m2" by (rule calm_steps_frame [OF assms(2)])
  obtain m' where m': "cert_frame ?ma m'" "m1 = m'\<lparr>m_domains := Some (owner (m_heap ?ma) ?refs), m_routes := Some ?refs,
      m_fallback := map_option (\<lambda>i. m_next m + i) fb\<rparr>"
    using assms(1) unfolding install_routes_def by (cases rule: SetRoutes_cases) auto
  have same: "same_config (m_heap ?ma ref) (m_heap m2 ref)" for ref
    using f2 m' by (simp add: cert_frame_def same_config_def)
  have new: "m_heap ?ma (m_next m + i) = rs ! i" if "i < length rs" for i using that by (rule alloc_routes_new)
  have "routeFor m2 host = (case find (\<lambda>ref. ?P (m_heap ?ma ref)) (rev ?refs) of
      Some ref \<Rightarrow> Some ref | None \<Rightarrow> map_option (\<lambda>i. m_next m + i) fb)"
    using f2 unfolding m'(2) by (simp add: cert_frame_def routeFor_def Get_def owner_def lists_domain_def [abs_def] split: option.split)
  moreover have "map_option (m_heap ?ma) (find (\<lambda>ref. ?P (m_heap ?ma ref)) (rev ?refs)) = find ?P (rev rs)"
    by (rule find_rev_refs) (rule new)
  ultimately show ?thesis
    using same new assms(3) unfolding route_of_config_def
    by (cases "find (\<lambda>ref. ?P (m_heap ?ma ref)) (rev ?refs)"; cases fb) (auto simp: option_rel_Some1 dest: sym, (metis option.rel_inject(2))+)
qed

text \<open>Where a proxied request is sent.\<close>

lemma proxied_url:
  assumes "keeps_url rw" "lk (hostForRequest req) = Some route" "Upstreams route \<noteq> []" "\<And>n. 0 < n \<Longrightarrow> intN n < n"
    and "RewriteRequest lk intN rw req (outgoing cq req) = Some out"
  obtains u0 u where "req_URL req = Some u0" "req_URL out = Some u" "url_Scheme u = ''http''"
    "url_Host u \<in> Host ` set (Upstreams route)" "url_Path u = url_Path u0" "url_RawPath u = url_RawPath u0"
    "url_RawQuery u = cq (url_RawQuery u0)"
proof -
  have up: "selectUpstream intN route \<in> Host ` set (Upstreams route)" using assms(3,4) by (auto simp: selectUpstream_def)
  obtain u1 where u1: "req_URL (outgoing cq req) = Some u1"
    and out: "req_URL out = Some (u1\<lparr>url_Scheme := ''http'', url_Host := selectUpstream intN route\<rparr>)"
    by (rule RewriteRequest_routed [OF assms(2,3,5)]) (use assms(1) in \<open>simp add: keeps_url_def\<close>)
  from u1 obtain u0 where "req_URL req = Some u0" "u1 = u0\<lparr>url_RawQuery := cq (url_RawQuery u0)\<rparr>"
    by (auto simp: outgoing_def Let_def)
  with up out that show thesis by fastforce
qed

text \<open>An answer that is not an error reaches the client with its body unchanged.\<close>

lemma RewriteResponse_body:
  "RewriteResponse l1 l2 newURL rw resp = Some resp' \<Longrightarrow> resp_StatusCode resp < 400 \<Longrightarrow> resp_Body resp' = resp_Body resp"
  by (auto simp: RewriteResponse_def Let_def split: option.splits)

lemma served_body:
  assumes "createProxy env rw lks writer req rc = Some (Served w, rc')" "ascii_print (upgradeType (req_Header req))"
    and "RewriteRequest (lks 1) (pe_intN env) rw req (outgoing (pe_cleanQuery env) req) = Some out"
    and "pe_transport env proxyTransport (default_user_agent out) = Ok res" "resp_StatusCode res < 400"
  shows "w_Body w = w_Body writer @ (case resp_Body res of None \<Rightarrow> [] | Some b \<Rightarrow> b)"
proof -
  let ?mod = "TrackResponse (lks 2) (RewriteResponse (lks 3) (lks 4) (pe_newURL env) rw)"
  have body: "resp_Body r' = resp_Body r" if "?mod r rc = Some (r', rc')" "resp_StatusCode r < 400" for r r' rc'
    using that RewriteResponse_body by (auto simp: TrackResponse_def split: option.splits)
  have "DomainRedirector_ServeHTTP (lks 0) req = CallNext req"
    using assms(1) by (auto simp: createProxy_def NewDomainRedirector_def DomainRedirector_ServeHTTP_def Let_def
        split: option.splits if_splits list.splits)
  with assms(1-4) obtain res' where
    "?mod (res\<lparr>resp_Request := Some (default_user_agent out), resp_Header := remove_hop_headers (resp_Header res)\<rparr>) rc = Some (res', rc')"
    "w = Write (case resp_Body res' of None \<Rightarrow> [] | Some b \<Rightarrow> b) (WriteHeader (resp_StatusCode res')
        (writer\<lparr>w_Header := copyHeaders (pe_order env (resp_Header res')) (w_Header writer) (resp_Header res')\<rparr>))"
    by (auto simp: createProxy_def NewDomainRedirector_def ReverseProxy_ServeHTTP_def Let_def split: if_splits option.splits)
  with body [of _ res' rc'] assms(5) show ?thesis by (auto simp: Write_def WriteHeader_def split: option.splits)
qed

text \<open>From the text of a configuration to the answer of an upstream.\<close>

lemma configured_upstream:
  assumes "FileSource_update auth_ok install_routes (Ok rd) m = Some (None, m1)" "(calm_step pinv)\<^sup>*\<^sup>* m1 m2"
    and "createProxy env rw (\<lambda>_. route_for m2) writer req rc = Some (Served w, rc')" "w_Status writer = None"
    and "ascii_print (upgradeType (req_Header req))" "keeps_url rw" "\<And>n. 0 < n \<Longrightarrow> pe_intN env n < n"
    and "route_for m2 (hostForRequest req) \<noteq> None"
  obtains rs fb route out u0 u where "Parse auth_ok rd = Ok (rs, fb)" "route_of_config rs fb (hostForRequest req) = Some route"
    "RewriteRequest (route_for m2) (pe_intN env) rw req (outgoing (pe_cleanQuery env) req) = Some out"
    "req_URL req = Some u0" "req_URL (default_user_agent out) = Some u" "url_Scheme u = ''http''" "url_Host u \<in> Host ` set (Upstreams route)"
    "url_Path u = url_Path u0"
    "w_Status w = Some (case pe_transport env proxyTransport (default_user_agent out) of Inl _ \<Rightarrow> 502 | Inr res \<Rightarrow> resp_StatusCode res)"
proof -
  let ?h = "hostForRequest req"
  obtain rs fb where p: "Parse auth_ok rd = Ok (rs, fb)" and i: "install_routes rs fb m = Some (None, m1)"
    using assms(1) by (auto simp: FileSource_update_def split: sum.splits option.splits prod.splits)
  have ok: "list_all route_ok rs" "\<And>i. fb = Some i \<Longrightarrow> i < length rs" using Parse_ok [OF p] by auto
  obtain ref where ref: "RouteForDomain m2 ?h = Some ref" using assms(8) by (auto simp: route_for_def)
  then have "routeFor m2 ?h = Some ref" by (auto simp: RouteForDomain_def split: option.splits if_splits)
  with installed_config [OF i assms(2) ok(2), of ?h] obtain route where
    route: "route_of_config rs fb ?h = Some route" "same_config route (m_heap m2 ref)"
    by (auto simp: option_rel_Some1)
  have "route \<in> set rs"
    using route(1) ok(2) by (auto simp: route_of_config_def find_Some_iff split: option.splits) (metis length_rev nth_mem set_rev)
  then have "Upstreams route \<noteq> []" using ok(1) by (auto simp: list_all_iff route_ok_def)
  then have up: "Upstreams (m_heap m2 ref) \<noteq> []" "Upstreams (m_heap m2 ref) = Upstreams route"
    using route(2) by (simp_all add: same_config_def)
  obtain out status where out: "RewriteRequest (route_for m2) (pe_intN env) rw req (outgoing (pe_cleanQuery env) req) = Some out"
    and st: "status = (case pe_transport env proxyTransport (default_user_agent out) of Inl _ \<Rightarrow> 502 | Inr res \<Rightarrow> resp_StatusCode res)"
      "w_Status w = Some status"
    by (rule createProxy_served [OF assms(3-5)])
  have lk: "route_for m2 ?h = Some (m_heap m2 ref)" using ref by (simp add: route_for_def)
  obtain u0 u where "req_URL req = Some u0" "req_URL out = Some u" "url_Scheme u = ''http''" "url_Host u \<in> Host ` set (Upstreams route)"
    "url_Path u = url_Path u0"
    using proxied_url [OF assms(6) lk up(1) assms(7) out] up(2) by metis
  moreover have "req_URL (default_user_agent out) = req_URL out" by (simp add: default_user_agent_def)
  ultimately show thesis using that [OF p route(1) out, of u0 u] st by simp
qed

subsection \<open>Configured domains are served\<close>

lemma checks_calm:
  assumes "each_route check_route refs m = Some m'" "\<forall>ref \<in> set refs. ref < m_next m"
  shows "(calm_step pinv)\<^sup>*\<^sup>* m m'"
  using assms
proof (induction refs arbitrary: m)
  case (Cons r refs)
  then obtain m1 where m1: "check_route r m = Some m1" "each_route check_route refs m1 = Some m'" by (auto split: option.splits)
  have "m_next m1 = m_next m" using check_route_frame [OF m1(1)] by (simp add: cert_frame_def)
  then have "(calm_step pinv)\<^sup>*\<^sup>* m1 m'" using Cons.IH [OF m1(2)] Cons.prems(2) by simp
  moreover have "calm_step pinv m m1" using m1(1) Cons.prems(2) by (auto intro: calm_step.check)
  ultimately show ?case by (rule converse_rtranclp_into_rtranclp [rotated])
qed simp

text \<open>The routes of a manager after a configuration has been installed are those of the configuration.\<close>

lemma installed_routes:
  assumes "install_routes rs fb m = Some (None, m1)" "ref \<in> set (Routes m1)"
  shows "\<exists>r \<in> set rs. same_config r (m_heap m1 ref)"
proof -
  let ?ma = "alloc_routes rs m" and ?refs = "[m_next m..<m_next m + length rs]"
  obtain m' where m': "cert_frame ?ma m'" "m_heap m1 = m_heap m'" "Routes m1 = ?refs"
    using assms(1) unfolding install_routes_def by (cases rule: SetRoutes_cases) (auto simp: Routes_def)
  with assms(2) have "m_next m \<le> ref" "ref < m_next m + length rs" by simp_all
  then have "m_heap ?ma ref \<in> set rs" by (simp add: alloc_routes_new')
  with m' show ?thesis by (auto simp: cert_frame_def)
qed

context available_provider
begin

text \<open>Whichever store the provider has.\<close>

lemma configured_served:
  assumes "mgr_reachable pinv (Some prov) m" "avail (m_pstate m)"
    and "FileSource_update auth_ok install_routes (Ok rd) m = Some (None, m1)" "Parse auth_ok rd = Ok (rs, fb)"
    and "\<And>r. r \<in> set rs \<Longrightarrow> known (Provider r)"
  shows "\<exists>m2. CheckCertificates m1 = Some m2 \<and>
    (\<forall>host. rel_option same_config (route_of_config rs fb host) (route_for m2 host) \<and>
      (route_of_config rs fb host \<noteq> None \<longrightarrow> (\<exists>c. CertificateForClient m2 host = Ok (Some c))))"
proof -
  have i: "install_routes rs fb m = Some (None, m1)"
    using assms(3,4) by (auto simp: FileSource_update_def split: sum.splits option.splits prod.splits)
  have fb: "i < length rs" if "fb = Some i" for i using Parse_ok [OF assms(4)] that by blast
  have r1: "mgr_reachable pinv (Some prov) m1"
    using FileSource_update_step [OF assms(3), of pinv] assms(1) mgr_reachable.step by metis
  have "list_all route_ok rs" using Parse_ok [OF assms(4)] by blast
  then have g1: "avail (m_pstate m1)" using install_avail [OF mgr_reachable_tls_ok [OF assms(1)] assms(2) _ i] by blast
  have known: "known (Provider (m_heap m1 ref))" if "ref \<in> set (Routes m1)" for ref
    using installed_routes [OF i that] assms(5) by (auto simp: same_config_def)
  obtain m2 where m2: "CheckCertificates m1 = Some m2"
    and served: "\<And>d. RouteForDomain m2 d = routeFor m1 d \<and> (routeFor m1 d \<noteq> None \<longrightarrow> (\<exists>c. CertificateForClient m2 d = Ok (Some c)))"
    and fr: "cert_frame m1 m2"
    using CheckCertificates_serves [OF r1 g1 known] by blast
  have "\<forall>ref \<in> set (Routes m1). ref < m_next m1" using mgr_reachable_tables_ok [OF r1] by (simp add: tables_ok_def)
  then have calm: "(calm_step pinv)\<^sup>*\<^sup>* m1 m2"
    using checks_calm [of "Routes m1" m1 m2] m2 by (simp add: CheckCertificates_def)
  have same: "routeFor m2 d = routeFor m1 d" for d
    unfolding routeFor_def Get_def using fr by (simp add: cert_frame_def split: option.split)
  have "rel_option same_config (route_of_config rs fb host) (route_for m2 host) \<and>
      (route_of_config rs fb host \<noteq> None \<longrightarrow> (\<exists>c. CertificateForClient m2 host = Ok (Some c)))" for host
    using installed_config [OF i calm fb, of host] served [of host] same [of host]
    by (cases "routeFor m1 host"; cases "route_of_config rs fb host") (auto simp: route_for_def)
  with m2 show ?thesis by blast
qed

end

lemma redis_system_served:
  assumes "system_reachable auth_ok (redis_provider_inv P) (Some (setup_provider P p)) w src s" "redis_provider_inv P w"
    and "redis_good P (ps_lego p) (m_pstate (sy_manager s))"
    and "FileSource_update auth_ok install_routes (Ok rd) (sy_manager s) = Some (None, m1)" "Parse auth_ok rd = Ok (rs, fb)"
    and "\<And>r. r \<in> set rs \<Longrightarrow> \<exists>sp. supplier (provider_manager P (redis_setup_config p)) (Provider r) = Ok sp"
  shows "\<exists>m2. CheckCertificates m1 = Some m2 \<and>
    (\<forall>host. rel_option same_config (route_of_config rs fb host) (route_for m2 host) \<and>
      (route_of_config rs fb host \<noteq> None \<longrightarrow> (\<exists>c. CertificateForClient m2 host = Ok (Some c))))"
proof -
  have reach: "mgr_reachable (redis_provider_inv P) (Some (redis_provider P (redis_setup_config p))) (sy_manager s)"
    using system_manager_reachable [OF assms(1,2)] by (simp add: setup_provider_redis)
  have cfg: "redis_config (redis_setup_config p) = redis_setup_config p" "pc_Lego (redis_setup_config p) = ps_lego p"
    by (simp_all add: redis_setup_config_def)
  show ?thesis
    using redis_served.configured_served [OF reach _ assms(4,5), unfolded cfg, OF assms(3,6)] by blast
qed

subsection \<open>The program with the JSON store\<close>

text \<open>Reading the details of a file into an empty memory leaves nothing else there.\<close>

lemma alloc_details_whole:
  "alloc_details ds w = (refs, w') \<Longrightarrow> \<forall>ref < w_next w. w_heap w ref \<in> S \<Longrightarrow>
   w_store w' = w_store w \<and> w_next w' = w_next w + length ds \<and> (\<forall>ref < w_next w'. w_heap w' ref \<in> S \<union> set ds)"
proof (induction ds arbitrary: w refs S)
  case (Cons d ds)
  obtain refs' where a: "alloc_details ds (snd (new_details d w)) = (refs', w')"
    using Cons.prems(1) by (auto split: prod.splits)
  have n: "w_store (snd (new_details d w)) = w_store w" "w_next (snd (new_details d w)) = Suc (w_next w)"
    "\<forall>ref < w_next (snd (new_details d w)). w_heap (snd (new_details d w)) ref \<in> insert d S"
    using Cons.prems(2) by (auto simp: new_details_def less_Suc_eq)
  from Cons.IH [OF a n(3)] n(1,2) show ?case by auto
qed auto

definition json_setup_config :: "'e provider_setup \<Rightarrow> (JsonStore, 'e) ProviderConfig" where
  "json_setup_config p = \<lparr>pc_Store = json_store, pc_Lego = ps_lego p, PreferredSuppliers = ps_preferred p,
     WildcardDomains = ps_wildcards p, UseStaples = ps_staples p\<rparr>"

definition json_setup_provider :: "'e Pki \<Rightarrow> 'e provider_setup \<Rightarrow> 'e json_world CertificateProvider" where
  "json_setup_provider P p = wildcard_provider (NewProvider P (json_setup_config p))"

lemma json_setup_provider_eq: "json_setup_provider P p = json_provider P (json_setup_config p)"
  by (simp add: json_setup_provider_def json_provider_def json_setup_config_def)

text \<open>What the program finds when it starts: nothing in memory, and a file that it wrote itself, if any: one certificate for each key, in PEM.\<close>

fun json_file_ok :: "(string \<Rightarrow> pem_result) \<Rightarrow> disk_file \<Rightarrow> bool" where
  "json_file_ok parse (Saved ds) = (distinct (map cert_key ds) \<and> list_all (decodes parse) ds)"
| "json_file_ok parse _ = True"

definition json_inputs_ok :: "'e Pki \<Rightarrow> ('e, 'net) inputs \<Rightarrow> bool" where
  "json_inputs_ok P i \<longleftrightarrow> pki_ok P \<and> w_next (in_world i) = 0 \<and> json_file_ok (parsePEM P) (js_file (w_store (in_world i)))"

lemma NewStore_provider_inv:
  assumes "NewStore w = Ok w'" "w_next w = 0" "json_file_ok (parsePEM P) (js_file (w_store w))" "pki_ok P"
  shows "provider_inv P w'"
proof (cases "js_file (w_store w)")
  case (Saved ds)
  let ?w1 = "set_store (\<lambda>j. j\<lparr>js_certificates := [], js_locks := Map.empty\<rparr>) w"
  obtain refs w2 where al: "alloc_details ds ?w1 = (refs, w2)" by (metis prod.exhaust)
  then have w': "w' = set_store (\<lambda>j. j\<lparr>js_certificates := refs\<rparr>) w2"
    using assms(1) Saved by (simp add: NewStore_def load_def set_store_def)
  have all: "world_frame ?w1 w2" "list_all2 (\<lambda>d ref. w_heap w2 ref = d \<and> ref < w_next w2) ds refs"
    using alloc_details_all [OF al] by (auto elim!: list_all2_mono)
  have st: "w_store w2 = w_store ?w1" "w_next w2 = length ds" "\<forall>ref < w_next w2. w_heap w2 ref \<in> set ds"
    using alloc_details_whole [OF al, of "{}"] assms(2) by (auto simp: set_store_def)
  have "map (\<lambda>ref. cert_key (w_heap w2 ref)) refs = map cert_key ds"
    using all(2) by (induction rule: list_all2_induct) auto
  moreover have "\<forall>ref \<in> set refs. ref < w_next w2" using all(2) by (auto simp: list_all2_conv_all_nth in_set_conv_nth)
  ultimately show ?thesis
    using assms(3,4) Saved st
    by (auto simp: provider_inv_def json_inv_def json_locked_def heap_decodes_def w' set_store_def list_all_iff)
next
  case NoFile
  with assms show ?thesis
    by (auto simp: NewStore_def load_def set_store_def provider_inv_def json_inv_def json_locked_def heap_decodes_def)
qed (use assms(1) in \<open>simp_all add: NewStore_def load_def set_store_def\<close>)

lemma started_json_store:
  assumes "run_start auth_ok parseIP contains client fl i = Started r" "ru_provider r = Some p" "ps_store p = JsonOpened w"
  shows "NewStore (in_world i) = Ok w"
proof -
  have "certProvider fl i = Ok p" using started_provider [OF assms(1)] assms(2) by simp
  then have "createCertificateStore fl i (fl_certificate_store_type fl) = Ok (JsonOpened w)"
    using assms(3) by (auto simp: certProvider_def split: sum.splits)
  then show ?thesis by (auto simp: createCertificateStore_def map_sum_Inr_conv Let_def split: if_splits)
qed

lemma started_json_inv:
  assumes "run_start auth_ok parseIP contains client fl i = Started r" "ru_provider r = Some p"
    and "ps_store p = JsonOpened w" "json_inputs_ok P i"
  shows "provider_inv P w"
  using NewStore_provider_inv [OF started_json_store [OF assms(1-3)]] assms(4) unfolding json_inputs_ok_def by blast

text \<open>The program with names that are in the certificates.\<close>

fun json_file_named :: "(string \<Rightarrow> string list) \<Rightarrow> disk_file \<Rightarrow> bool" where
  "json_file_named N (Saved ds) = list_all (named N) ds"
| "json_file_named N _ = True"

lemma NewStore_named:
  assumes "NewStore w = Ok w'" "w_next w = 0" "json_file_named N (js_file (w_store w))"
  shows "heap_all (named N) w'"
proof (cases "js_file (w_store w)")
  case (Saved ds)
  let ?w1 = "set_store (\<lambda>j. j\<lparr>js_certificates := [], js_locks := Map.empty\<rparr>) w"
  obtain refs w2 where al: "alloc_details ds ?w1 = (refs, w2)" by (metis prod.exhaust)
  then have w': "w' = set_store (\<lambda>j. j\<lparr>js_certificates := refs\<rparr>) w2"
    using assms(1) Saved by (simp add: NewStore_def load_def set_store_def)
  have "heap_all (named N) w2"
    using heap_all_alloc [OF al, of "named N"] assms(2,3) Saved by (simp add: list_all_iff heap_all_def set_store_def)
  then show ?thesis using heap_all_cong [of w' w2] by (simp add: w' set_store_def)
qed (use assms in \<open>auto simp: NewStore_def load_def set_store_def heap_all_def\<close>)

lemma started_json_named:
  assumes "run_start auth_ok parseIP contains client fl i = Started r" "ru_provider r = Some p"
    and "ps_store p = JsonOpened w" "json_inputs_ok P i" "names_issued N P" "json_file_named N (js_file (w_store (in_world i)))"
  shows "json_named_inv N P w"
  using started_json_inv [OF assms(1-4)] NewStore_named [OF started_json_store [OF assms(1-3)]] assms(4-6)
  by (simp add: json_named_inv_def json_inputs_ok_def)

lemma json_system_serves:
  assumes "system_reachable auth_ok (json_named_inv N P) (Some (json_setup_provider P p)) w src s" "json_named_inv N P w"
    and "RouteForDomain (sy_manager s) domain = Some ref"
  shows "\<exists>c. CertificateForClient (sy_manager s) domain = Ok (Some c) \<and>
    (Subject (m_heap (sy_manager s) ref) = [] \<longrightarrow> domains_covered N (m_heap (sy_manager s) ref) c)"
  using served_covers [OF json_named.naming_provider_axioms] system_manager_reachable [OF assms(1,2)] assms(3)
  unfolding json_setup_provider_eq by blast

lemma redis_system_serves:
  assumes "system_reachable auth_ok (redis_named_inv N P) (Some (setup_provider P p)) w src s" "redis_named_inv N P w"
    and "RouteForDomain (sy_manager s) domain = Some ref"
  shows "\<exists>c. CertificateForClient (sy_manager s) domain = Ok (Some c) \<and>
    (Subject (m_heap (sy_manager s) ref) = [] \<longrightarrow> domains_covered N (m_heap (sy_manager s) ref) c)"
  using served_covers [OF redis_named.naming_provider_axioms] system_manager_reachable [OF assms(1,2)] assms(3)
  unfolding setup_provider_redis by blast

text \<open>A response for a host with a port is not counted, although its route is found and it is proxied: the
  recorder looks up the forwarded host with its port, which is never the name of a route.\<close>

lemma responses_on_ports_are_not_counted:
  assumes "mgr_reachable pinv prov m" "m_fallback m = None" "CHR '':'' \<in> set (req_Host req)"
    and "createProxy env (NewRewriter parseIP contains nets client) (\<lambda>_. route_for m) writer req rc = Some (Served w, rc')"
    and "w_Status writer = None" "ascii_print (upgradeType (req_Header req))" "\<not> trusted parseIP contains nets (remote_ip req)"
    and "route_for m (hostForRequest req) = Some route" "Upstreams route \<noteq> []"
  shows "rc' = rc"
proof -
  obtain out status where out: "RewriteRequest (route_for m) (pe_intN env) (NewRewriter parseIP contains nets client) req
      (outgoing (pe_cleanQuery env) req) = Some out"
    and count: "count_response (route_for m) (header_get (req_Header out) ''X-Forwarded-Host'') (format_d status) rc = Some rc'"
    by (rule createProxy_served [OF assms(4-6)])
  have "header_get (req_Header out) ''X-Forwarded-Host'' = req_Host req"
    by (rule forwarded_host_out [OF assms(8,9) out assms(7)])
  moreover have "route_for m (req_Host req) = None"
    using colon_not_routed [OF mgr_reachable_tables_ok [OF assms(1)] assms(3)] assms(2)
    by (simp add: route_for_def RouteForDomain_def routeFor_def)
  ultimately show ?thesis using count by (simp add: count_response_Some)
qed

end
