(* ===== verification/System_Examples.thy ===== *)
theory System_Examples
  imports Examples Serving Redis_Lease
begin

text \<open>
  Concrete connections, hashes, requests and start-ups on which the properties of the sources, the Redis store, the
  frontends and the command are evaluated.
\<close>

subsection \<open>Configurations from the network\<close>

definition demo_frames :: "string list" where
  "demo_frames = [demo_text, demo_text]"

text \<open>A connection on which a byte arrives every nanosecond, until the server closes it, and one on which nothing ever happens.\<close>

definition conn_with :: "string \<Rightarrow> connection" where
  "conn_with bytes = \<lparr>incoming = bytes, arrival = int, received = 0, conn_end = Some (60 * second), conn_error = ''EOF'',
     conn_closed = False, conn_deadline = None\<rparr>"

definition silent_conn :: connection where
  "silent_conn = (conn_with [])\<lparr>conn_end := None\<rparr>"

definition demo_conn :: connection where
  "demo_conn = conn_with (concat (map frame demo_frames) @ ''CENT'')"

definition demo_net :: NetworkSource where
  "demo_net = (NewNetworkSource ''config:7000'')\<lparr>ns_conn := Some demo_conn\<rparr>"

definition demo_round :: net_inputs where
  "demo_round = \<lparr>set_deadline = None, clear_deadline = None, redial = Error ''refused'', redial_took = second\<rparr>"

definition again_round :: net_inputs where
  "again_round = demo_round\<lparr>redial := Ok (conn_with ''HELLO WORLD'')\<rparr>"

definition silent_round :: net_inputs where
  "silent_round = demo_round\<lparr>redial := Ok silent_conn\<rparr>"

definition bad_net :: NetworkSource where
  "bad_net = (NewNetworkSource ''config:7000'')\<lparr>ns_conn := Some (conn_with ''HELLO WORLD'')\<rparr>"

definition silent_net :: NetworkSource where
  "silent_net = (NewNetworkSource ''config:7000'')\<lparr>ns_conn := Some silent_conn\<rparr>"

text \<open>An updater that counts the configurations.\<close>

definition count_updates :: "nat RouteUpdater" where
  "count_updates routes fallback n = Some (None, Suc n)"

lemma demo_apply: "apply_payloads auth_ok count_updates demo_frames n = Some (n + 2)"
  by (simp add: demo_frames_def apply_payload_def demo_Parse count_updates_def)

lemma demo_text_short: "length demo_text < 1000"
  by code_simp

subsection \<open>A hash on a Redis server\<close>

definition expired_cert :: Details where
  "expired_cert = demo_cert\<lparr>det_Certificate := encode_names [''old.example.com''], det_Subject := ''old.example.com'', AltNames := [],
     NotAfter := 1\<rparr>"

definition demo_hash :: redis_hash where
  "demo_hash = [(''selfsigned;example.com;www.example.com'', Marshalled demo_cert),
     (''selfsigned;old.example.com'', Marshalled expired_cert), (''junk'', OtherText ''{'' None)]"

definition demo_redis_env :: redis_env where
  "demo_redis_env = \<lparr>re_outcome = (\<lambda>_. Answered), re_order = (\<lambda>_. rev), re_others = (\<lambda>_ h. h), re_setnx = (\<lambda>_. Ok True),
     re_token = (\<lambda>_. ''token''), re_marshal = (\<lambda>_. None)\<rparr>"

definition demo_redis :: "unit redis_world" where
  "demo_redis = \<lparr>w_clock = (\<lambda>_. 5), w_tick = 0, w_heap = (\<lambda>_. demo_cert\<lparr>NotAfter := 200\<rparr>), w_next = 1,
     w_store = \<lparr>rs_keyPrefix = ''centauri'', rs_locks = Map.empty, rs_hash = demo_hash, rs_env = demo_redis_env, rs_requests = 0\<rparr>,
     w_env = ()\<rparr>"

lemma demo_hash_ok: "hash_ok (\<lambda>_. CertExtensions []) demo_hash"
  by (simp add: hash_ok_def demo_hash_def entry_ok_def decodes_def forget_staple_def demo_cert_def expired_cert_def
      empty_details_def certificateKey_def sortedCopy_def)

lemma demo_redis_inv: "redis_provider_inv demo_pki demo_redis"
proof -
  have "parsePEM demo_pki = (\<lambda>_. CertExtensions [])" by (simp add: demo_pki_def)
  moreover have "\<exists>k \<ge> n. re_setnx demo_redis_env k = Ok True" for n by (auto simp: demo_redis_env_def)
  ultimately show ?thesis
    using demo_hash_ok demo_pki_ok
    by (auto simp: redis_provider_inv_def redis_inv_def redis_locked_def lock_env_ok_def locks_ok_def has_token_def held_name_def
        demo_redis_def redis_env_ok_def heap_decodes_def decodes_def) (simp_all add: demo_redis_env_def)
qed

definition redis_saved :: "unit redis_world" where
  "redis_saved = snd (RedisStore_SaveCertificate 0 demo_redis)"

lemma demo_redis_save: "RedisStore_SaveCertificate 0 demo_redis = (None, redis_saved)"
proof -
  have "fst (RedisStore_SaveCertificate 0 demo_redis) = None" by code_simp
  then show ?thesis unfolding redis_saved_def by (metis prod.collapse)
qed

subsection \<open>A run of the file source\<close>

definition file_read_state :: "nat file_run" where
  "file_read_state = (file_started (Ok \<lparr>content = demo_text, read_error = None\<rparr>) 0)
     \<lparr>fr_source := NewFileSource, fr_manager := 1, fr_seen := 1, fr_last := Ok \<lparr>content = demo_text, read_error = None\<rparr>\<rparr>"

lemma file_read_reachable:
  "file_reachable auth_ok count_updates (Ok \<lparr>content = demo_text, read_error = None\<rparr>) 0 file_read_state"
proof -
  let ?c = "Ok \<lparr>content = demo_text, read_error = None\<rparr>"
  let ?s0 = "file_started ?c 0 :: nat file_run"
  let ?s1 = "?s0\<lparr>fr_source := (fr_source ?s0)\<lparr>fs_updateChan := fs_updateChan (fr_source ?s0) - 1\<rparr>, fr_reading := True\<rparr>"
  let ?s2 = "?s1\<lparr>fr_reading := False, fr_manager := 1, fr_errors := fr_errors ?s1 @ (case None of None \<Rightarrow> [] | Some e \<Rightarrow> [e]),
    fr_seen := fr_version ?s1, fr_last := fr_disk ?s1\<rparr>"
  have "FileSource_run auth_ok count_updates ?s0 ?s1"
    by (rule FileSource_run.take_update)
      (simp_all add: file_started_def FileSource_Start_def FileSource_Reload_def NewFileSource_def)
  moreover have "FileSource_run auth_ok count_updates ?s1 ?s2"
    by (rule FileSource_run.update) (simp_all add: file_started_def FileSource_update_def demo_Parse count_updates_def)
  moreover have "?s2 = file_read_state"
    by (simp add: file_read_state_def file_started_def FileSource_Start_def FileSource_Reload_def NewFileSource_def)
  ultimately show ?thesis by (metis file_reachable.intros)
qed

subsection \<open>A lock that is held\<close>

definition held_lock :: lock_world where
  "held_lock = (lock_start 0)
     \<lparr>lw_server := \<lparr>sv_keys = [''lock'' \<mapsto> (''a'', 10)], sv_now = 0\<rparr>, lw_pc := (\<lambda>_. Outside)(1 := Inside ''a''),
      lw_locks := (\<lambda>_. new_redisLock)(0 := \<lparr>lk_token = ''a'', lk_stopChan = Some 0\<rparr>), lw_refreshers := {(''a'', 0)},
      lw_tokens := [''a'' \<mapsto> 0], lw_chans := 1\<rparr>"

lemma held_lock_reachable: "lock_reachable True ''lock'' 10 demo_procs 0 held_lock"
proof -
  define w1 where "w1 = (lock_start 0)\<lparr>lw_server := \<lparr>sv_keys = [''lock'' \<mapsto> (''a'', 10)], sv_now = 0\<rparr>,
    lw_pc := (\<lambda>_. Outside)(1 := Acquired ''a''), lw_tokens := [''a'' \<mapsto> 0]\<rparr>"
  have "lock_step True ''lock'' 10 demo_procs (lock_start 0) ((lock_start 0)\<lparr>lw_server := \<lparr>sv_keys = [''lock'' \<mapsto> (''a'', 10)], sv_now = 0\<rparr>,
    lw_pc := (lw_pc (lock_start 0))(1 := Acquired ''a''), lw_tokens := (lw_tokens (lock_start 0))(''a'' \<mapsto> demo_procs 1)\<rparr>)"
    by (rule lock_step.acquire) (simp_all add: lock_eval)
  then have 1: "lock_step True ''lock'' 10 demo_procs (lock_start 0) w1"
    by (simp add: w1_def lock_start_def demo_procs_def)
  have "lock_step True ''lock'' 10 demo_procs w1
    (w1\<lparr>lw_locks := (lw_locks w1)(demo_procs 1 := lock_fields ''a'' (lw_chans w1) (lw_locks w1 (demo_procs 1))),
       lw_refreshers := insert (''a'', lw_chans w1) (lw_refreshers w1), lw_chans := Suc (lw_chans w1),
       lw_pc := (lw_pc w1)(1 := Inside ''a'')\<rparr>)"
    by (rule lock_step.locked) (simp add: w1_def)
  then have "lock_step True ''lock'' 10 demo_procs w1 held_lock"
    by (simp add: w1_def held_lock_def lock_start_def demo_procs_def lock_fields_def new_redisLock_def)
  with 1 show ?thesis by (meson lock_reachable.intros)
qed

subsection \<open>Requests through a frontend\<close>

definition upstream_answer :: "Request \<Rightarrow> (string, Response) result" where
  "upstream_answer req = Ok \<lparr>resp_Status = ''200 OK'', resp_StatusCode = 200, resp_Header = Map.empty,
     resp_Body = Some ''hello'', resp_Request = Some req\<rparr>"

definition demo_proxy_env :: proxy_env where
  "demo_proxy_env = \<lparr>pe_cleanQuery = (\<lambda>q. q), pe_order = (\<lambda>_. []), pe_transport = (\<lambda>_. upstream_answer), pe_intN = (\<lambda>_. 0),
     pe_newURL = Some\<rparr>"

definition empty_writer :: ResponseWriter where
  "empty_writer = \<lparr>w_Header = Map.empty, w_Status = None, w_Body = []\<rparr>"

definition primary_request :: Request where
  "primary_request = demo_request\<lparr>req_Host := ''example.com''\<rparr>"

text \<open>A manager that serves the example routes without a fallback.\<close>

definition no_fallback :: "unit Manager" where
  "no_fallback = snd (the (install_routes [demo_route\<lparr>RedirectToPrimary := False\<rparr>] None (NewManager None ())))"

lemma no_fallback_reachable: "mgr_reachable (\<lambda>_. True) None no_fallback"
proof -
  have "fst (the (install_routes [demo_route\<lparr>RedirectToPrimary := False\<rparr>] None (NewManager None ()))) = None"
    "install_routes [demo_route\<lparr>RedirectToPrimary := False\<rparr>] None (NewManager None ()) \<noteq> None" by code_simp+
  then have "install_routes [demo_route\<lparr>RedirectToPrimary := False\<rparr>] None (NewManager None ()) = Some (None, no_fallback)"
    unfolding no_fallback_def by (metis option.collapse prod.collapse)
  moreover have "list_all route_ok [demo_route\<lparr>RedirectToPrimary := False\<rparr>]"
    by (simp add: demo_defs route_ok_def building_ok_def mapping_ok_def)
  ultimately have "mgr_step (\<lambda>_. True) (NewManager None ()) no_fallback" by (intro mgr_step.install) auto
  moreover have "mgr_reachable (\<lambda>_. True) None (NewManager None ())" by (rule mgr_reachable.start) simp
  ultimately show ?thesis by (rule mgr_reachable.step [rotated])
qed

definition demo_routes :: lookup where
  "demo_routes d = (if d = ''example.com'' then Some demo_route else None)"

definition demo_served :: "(handled \<times> Recorder) option" where
  "demo_served = createProxy demo_proxy_env (NewRewriter (\<lambda>s. Some s) (=) [''198.51.100.1''] (\<lambda>_ _. None)) (\<lambda>_. demo_routes)
     empty_writer primary_request NewRecorder"

lemma served_case:
  assumes "case x of Some (Served w, rc) \<Rightarrow> w_Status w = Some 200 | _ \<Rightarrow> False"
  shows "\<exists>w rc. x = Some (Served w, rc) \<and> w_Status w = Some 200"
proof -
  obtain h rc where x: "x = Some (h, rc)" using assms by (cases x) auto
  then obtain w where "h = Served w" "w_Status w = Some 200" using assms by (cases h) auto
  with x show ?thesis by blast
qed

lemma demo_served_200: "\<exists>w rc. demo_served = Some (Served w, rc) \<and> w_Status w = Some 200"
proof -
  have "(case demo_served of Some (Served w, rc) \<Rightarrow> w_Status w = Some 200 | _ \<Rightarrow> False)" by code_simp
  then show ?thesis by (rule served_case)
qed

subsection \<open>An ACME account\<close>

definition demo_account_env :: account_env where
  "demo_account_env = \<lparr>ae_registrar = \<lparr>RegisterWithExternalAccountBinding = (\<lambda>_ _. Error ''no''),
       Register = Ok \<lparr>acc_Body = ''valid'', acc_Location = ''https://acme/1''\<rparr>\<rparr>,
     ae_parseKey = Ok, ae_encodeKey = (\<lambda>k. k), ae_newKey = Ok ''key'', ae_marshal = None, ae_write = UserWritten,
     ae_client = (\<lambda>_. None), ae_challenge = (\<lambda>_. None), ae_access = \<lparr>stat_not_exist = True, access_path = Some ''ENOENT'', access_dir = None\<rparr>\<rparr>"

definition demo_lego_config :: LegoSupplierConfig where
  "demo_lego_config = \<lparr>lc_Path = ''user.pem'', lc_Email = ''a@example.com'', lc_DirUrl = [], lc_Profile = [], lc_KeyType = EC384,
     lc_DisablePropagationCheck = False, lc_PropagationDelay = 0, lc_ExternalAccountKid = [], lc_ExternalAccountHmac = [],
     lc_OverallRequestLimit = 18, lc_ObtainInterval = 0, lc_Resolvers = [], lc_Timeout = hour\<rparr>"

subsection \<open>A start of the program\<close>

definition demo_flags :: flags where
  "demo_flags = \<lparr>fl_frontend = ''TCP'', fl_config_source = ''file'', fl_trusted_downstreams = [], fl_metrics_port = 0,
     fl_debug_cpu_profile = [], fl_validate = False, fl_config_network_address = [], fl_certificate_store_type = ''redis'',
     fl_certificate_providers = ''lego selfsigned'', fl_wildcard_domains = [], fl_ocsp_stapling = False,
     fl_http_port = 8080, fl_https_port = 8443, fl_tailscale_hostname = ''centauri'', fl_tailscale_key = [],
     fl_tailscale_mode = ''http'', fl_tailscale_dir = [], fl_redis_address = ''redis:6379'', fl_redis_username = [], fl_redis_password = [],
     fl_redis_db = 0, fl_redis_key_prefix = ''centauri'', fl_redis_tls = True, fl_dns_provider = [], fl_acme_email = [],
     fl_acme_profile = [], fl_acme_external_kid = [], fl_acme_external_hmac = [], fl_user_data = ''user.pem'',
     fl_acme_directory = [], fl_acme_disable_propagation_check = False, fl_acme_propagation_delay = 0, fl_acme_resolvers = [],
     fl_acme_overall_request_limit = 18, fl_acme_obtain_interval = 0, fl_acme_overall_timeout = hour\<rparr>"

definition demo_inputs :: "(unit, string) inputs" where
  "demo_inputs = \<lparr>in_tags = \<lparr>notcp = False, notailscale = False, noredis = False\<rparr>, in_create_profile = None, in_start_profile = None,
     in_file = Ok \<lparr>content = demo_text, read_error = None\<rparr>, in_dial = Error ''unused'',
     in_world = demo_world, in_ping = (\<lambda>_. Answered), in_hash = demo_hash, in_redis = demo_redis_env, in_dns = Error ''unused'',
     in_account = demo_account_env, in_user_file = NoUserFile, in_parseCIDR = Some, in_localClient = Error ''unused'',
     in_listen = (\<lambda>_ _. Ok ()), in_listen_metrics = Ok ()\<rparr>"

definition demo_setup :: "unit provider_setup" where
  "demo_setup = \<lparr>ps_store = RedisOpened (w_store demo_redis), ps_lego = None, ps_preferred = [''lego'', ''selfsigned''],
     ps_wildcards = [[]], ps_staples = False\<rparr>"

definition demo_running :: "unit running" where
  "demo_running = \<lparr>ru_source = FileSrc (FileSource_Start NewFileSource),
     ru_frontend = TcpFront \<lparr>tcp_httpPort = 8080, tcp_httpsPort = 8443,
       tcp_tlsServer = Some (serving ProxyHandler \<lparr>ln_Addr = port_addr 8443, ln_TLS = True\<rparr>),
       tcp_plainServer = Some (serving RedirectHandler \<lparr>ln_Addr = port_addr 8080, ln_TLS = False\<rparr>)\<rparr>,
     ru_context = \<lparr>ctx_Manager = Some demo_setup, ctx_Rewriter = NewRewriter (\<lambda>s. Some s) (=) [] (\<lambda>_ _. None),
       ctx_Recorder = NewRecorder\<rparr>,
     ru_monitoring = Some certCheckInterval, ru_metrics = None, ru_metricsChan = 0\<rparr>"

lemma demo_names:
  "to_lower ''TCP'' = ''tcp''" "to_lower ''file'' = ''file''" "to_lower ''redis'' = ''redis''"
  "split_on CHR '' '' ''lego selfsigned'' = [''lego'', ''selfsigned'']" "split_on CHR '' '' [] = [[]]"
  "ParseCIDRList Some [] = Ok []"
  by code_simp+

lemma demo_start: "run_start auth_ok (\<lambda>s. Some s) (=) (\<lambda>_ _. None) demo_flags demo_inputs = Started demo_running"
  by (simp add: run_start_def demo_flags_def demo_inputs_def createConfigSource_def createFrontend_def certProvider_def
      createCertificateStore_def NewRedisStoreFromOptions_def NewRedisStore_def tcp_Serve_def serving_def NewTCP_def tcp_UsesCertificates_def
      start_profile_def
      demo_names demo_running_def demo_setup_def demo_redis_def legoConfig_def lego_or_none_def)

text \<open>The system after it has read its first configuration.\<close>

definition demo_fresh :: "unit redis_world" where
  "demo_fresh = demo_redis\<lparr>w_next := 0\<rparr>"

lemma demo_inputs_ok: "redis_inputs_ok demo_pki demo_inputs"
  using demo_redis_inv
  by (simp add: redis_inputs_ok_def redis_provider_inv_def redis_inv_def redis_locked_def demo_inputs_def demo_redis_def)

lemma demo_fresh_inv: "redis_provider_inv demo_pki demo_fresh"
  by (rule started_redis_inv [OF demo_start _ _ _ demo_inputs_ok, of demo_setup])
    (simp_all add: demo_running_def demo_setup_def demo_fresh_def)

text \<open>The names of the examples' certificates are in them.\<close>

lemma demo_names_issued: "names_issued (decode_names []) demo_pki"
  by (simp add: names_issued_def demo_pki_def decode_encode)

lemma demo_certs_named: "named (decode_names []) demo_cert" "named (decode_names []) expired_cert"
  by (simp_all add: named_def demo_cert_def expired_cert_def empty_details_def decode_encode)

lemma demo_fresh_named: "redis_holds (named (decode_names [])) (w_store demo_fresh)"
  using demo_certs_named
  by (simp add: redis_holds_def hash_all_def demo_fresh_def demo_redis_def demo_hash_def demo_redis_env_def named_def forget_staple_def)

lemma demo_fresh_named_inv: "redis_named_inv (decode_names []) demo_pki demo_fresh"
  using demo_fresh_inv demo_names_issued demo_fresh_named by (simp add: redis_named_inv_def heap_all_def demo_fresh_def)

definition demo_sys_manager :: "unit redis_world Manager" where
  "demo_sys_manager = snd (the (install_routes [demo_route, demo_fallback] (Some 1)
     (NewManager (Some (setup_provider demo_pki demo_setup)) demo_fresh)))"

definition demo_system :: "unit redis_world system" where
  "demo_system = \<lparr>sy_source = FileSrc NewFileSource, sy_manager = demo_sys_manager\<rparr>"

text \<open>The first configuration, which the file source reads right after it has started.\<close>

lemma first_config_reachable:
  assumes "install_routes [demo_route, demo_fallback] (Some 1) (NewManager prov ps) = Some (err, m)"
  shows "system_reachable auth_ok pinv prov ps (FileSrc (FileSource_Start NewFileSource)) \<lparr>sy_source = FileSrc NewFileSource, sy_manager = m\<rparr>"
proof -
  let ?f = "FileSource_Start NewFileSource"
  let ?s = "\<lparr>sy_source = FileSrc ?f, sy_manager = NewManager prov ps\<rparr>"
  have "FileSource_update auth_ok install_routes (Ok \<lparr>content = demo_text, read_error = None\<rparr>) (NewManager prov ps) =
      Some (map_option RouteManagerError err, m)"
    using assms by (simp add: FileSource_update_def demo_Parse split: option.splits)
  then have "system_step auth_ok pinv ?s (?s\<lparr>sy_source := FileSrc (?f\<lparr>fs_updateChan := fs_updateChan ?f - 1\<rparr>), sy_manager := m\<rparr>)"
    by (intro system_step.file_update) (simp_all add: FileSource_Start_def FileSource_Reload_def NewFileSource_def)
  then have "system_step auth_ok pinv ?s \<lparr>sy_source = FileSrc NewFileSource, sy_manager = m\<rparr>"
    by (simp add: FileSource_Start_def FileSource_Reload_def NewFileSource_def)
  with system_reachable.start show ?thesis by (rule system_reachable.step)
qed

lemma demo_system_reachable:
  "system_reachable auth_ok pinv (Some (setup_provider demo_pki demo_setup)) demo_fresh (ru_source demo_running) demo_system"
proof -
  let ?prov = "setup_provider demo_pki demo_setup"
  let ?m = "NewManager (Some ?prov) demo_fresh"
  have start: "mgr_reachable (redis_provider_inv demo_pki) (Some (redis_provider demo_pki (redis_setup_config demo_setup)))
      (NewManager (Some (redis_provider demo_pki (redis_setup_config demo_setup))) demo_fresh)"
    by (intro mgr_reachable.start demo_fresh_inv)
  obtain res where res: "install_routes [demo_route, demo_fallback] (Some 1) ?m = Some res"
    using redis_prov.install_returns [OF start demo_route_ok] unfolding setup_provider_redis by blast
  then have "install_routes [demo_route, demo_fallback] (Some 1) ?m = Some (fst res, demo_sys_manager)"
    by (simp add: demo_sys_manager_def)
  from first_config_reachable [OF this] show ?thesis by (simp add: demo_system_def demo_running_def)
qed

lemma demo_system_served: "RouteForDomain demo_sys_manager ''www.example.com'' = Some 0"
  by code_simp

subsection \<open>A start with the JSON store\<close>

definition json_start :: "unit json_world" where
  "json_start = demo_world\<lparr>w_next := 0, w_store := (w_store demo_world)\<lparr>js_certificates := [], js_file := Saved [demo_cert]\<rparr>\<rparr>"

definition json_opened :: "unit json_world" where
  "json_opened = projr (NewStore json_start)"

definition json_inputs :: "(unit, string) inputs" where
  "json_inputs = demo_inputs\<lparr>in_world := json_start\<rparr>"

definition json_setup :: "unit provider_setup" where
  "json_setup = demo_setup\<lparr>ps_store := JsonOpened json_opened\<rparr>"

definition json_running :: "unit running" where
  "json_running = demo_running\<lparr>ru_context := (ru_context demo_running)\<lparr>ctx_Manager := Some json_setup\<rparr>\<rparr>"

lemma json_NewStore: "NewStore json_start = Ok json_opened"
proof -
  have "\<not> isl (NewStore json_start)"
    by (simp add: NewStore_def load_def json_start_def set_store_def new_details_def demo_world_def)
  then show ?thesis unfolding json_opened_def by (simp add: sum.collapse)
qed

lemma json_name: "to_lower ''json'' = ''json''" by code_simp

lemma json_started:
  "run_start auth_ok (\<lambda>s. Some s) (=) (\<lambda>_ _. None) (demo_flags\<lparr>fl_certificate_store_type := ''json''\<rparr>) json_inputs = Started json_running"
  by (simp add: run_start_def demo_flags_def json_inputs_def demo_inputs_def createConfigSource_def createFrontend_def certProvider_def
      createCertificateStore_def tcp_Serve_def serving_def NewTCP_def tcp_UsesCertificates_def start_profile_def
      demo_names json_name json_NewStore json_running_def json_setup_def demo_running_def demo_setup_def legoConfig_def lego_or_none_def)

lemma json_demo_inputs_ok: "json_inputs_ok demo_pki json_inputs"
  using demo_pki_ok by (simp add: json_inputs_ok_def json_inputs_def json_start_def demo_world_def decodes_def) (simp add: demo_pki_def)

definition json_manager :: "unit json_world Manager" where
  "json_manager = snd (the (install_routes [demo_route, demo_fallback] (Some 1)
     (NewManager (Some (json_setup_provider demo_pki json_setup)) json_opened)))"

lemma json_system_reachable:
  "system_reachable auth_ok pinv (Some (json_setup_provider demo_pki json_setup)) json_opened (ru_source json_running)
     \<lparr>sy_source = FileSrc NewFileSource, sy_manager = json_manager\<rparr>"
proof -
  have "provider_inv demo_pki json_opened"
    by (rule started_json_inv [OF json_started _ _ json_demo_inputs_ok, of json_setup]) (simp_all add: json_running_def json_setup_def)
  then have "mgr_reachable (provider_inv demo_pki) (Some (json_provider demo_pki (json_setup_config json_setup)))
      (NewManager (Some (json_provider demo_pki (json_setup_config json_setup))) json_opened)" by (rule mgr_reachable.start)
  from json_prov.install_returns [OF this demo_route_ok] obtain res where
    "install_routes [demo_route, demo_fallback] (Some 1) (NewManager (Some (json_setup_provider demo_pki json_setup)) json_opened) = Some res"
    unfolding json_setup_provider_eq by blast
  then have "install_routes [demo_route, demo_fallback] (Some 1) (NewManager (Some (json_setup_provider demo_pki json_setup)) json_opened) =
      Some (fst res, json_manager)" by (simp add: json_manager_def)
  from first_config_reachable [OF this] show ?thesis by (simp add: json_running_def demo_running_def)
qed

lemma json_system_served: "RouteForDomain json_manager ''www.example.com'' = Some 0"
  by code_simp

subsection \<open>A configuration and a request for it\<close>

definition plain_manager :: "unit Manager" where
  "plain_manager = snd (the (install_routes [demo_route, demo_fallback] (Some 1) (NewManager None ())))"

lemma plain_update:
  "FileSource_update auth_ok install_routes (Ok \<lparr>content = demo_text, read_error = None\<rparr>) (NewManager None ()) = Some (None, plain_manager)"
proof -
  have "install_routes [demo_route, demo_fallback] (Some 1) (NewManager None ()) \<noteq> None"
    "fst (the (install_routes [demo_route, demo_fallback] (Some 1) (NewManager None ()))) = None" by code_simp+
  then have "install_routes [demo_route, demo_fallback] (Some 1) (NewManager None ()) = Some (None, plain_manager)"
    unfolding plain_manager_def by (metis option.collapse prod.collapse)
  then show ?thesis by (simp add: FileSource_update_def demo_Parse)
qed

definition plain_served :: "(handled \<times> Recorder) option" where
  "plain_served = createProxy demo_proxy_env (NewRewriter (\<lambda>s. Some s) (=) [] (\<lambda>_ _. None)) (\<lambda>_. route_for plain_manager)
     empty_writer primary_request NewRecorder"

lemma plain_served_200: "\<exists>w rc. plain_served = Some (Served w, rc) \<and> w_Status w = Some 200"
proof -
  have "(case plain_served of Some (Served w, rc) \<Rightarrow> w_Status w = Some 200 | _ \<Rightarrow> False)" by code_simp
  then show ?thesis by (rule served_case)
qed

subsection \<open>A lease that is refreshed\<close>

definition free_server :: redis_server where
  "free_server = \<lparr>sv_keys = Map.empty, sv_now = 0\<rparr>"

definition demo_ticks :: "refresh_tick list" where
  "demo_ticks = [lost_tick\<lparr>rt_others := [(10 * second, OtherSetNX ''b''), (20 * second, OtherRelease ''b'')]\<rparr>,
     lost_tick\<lparr>rt_delay := 5 * second, rt_lost := False\<rparr>]"

subsection \<open>A working world\<close>

lemma demo_good: "json_good demo_pki None demo_world"
  by (simp add: json_good_def world_good_def json_up_def self_signed_works_def heap_all_def fits_def demo_world_def demo_pki_def)

lemma demo_fresh_good: "redis_good demo_pki None demo_fresh"
proof -
  have "fits demo_pki d" for d by (simp add: fits_def demo_pki_def)
  then show ?thesis
    by (simp add: redis_good_def world_good_def redis_up_def redis_holds_def self_signed_works_def heap_all_def hash_all_def demo_fresh_def
        demo_redis_def demo_redis_env_def) (simp add: demo_pki_def)
qed

lemma demo_update:
  assumes "m' = snd (the (install_routes [demo_route, demo_fallback] (Some 1) m))"
    and "install_routes [demo_route, demo_fallback] (Some 1) m \<noteq> None" "fst (the (install_routes [demo_route, demo_fallback] (Some 1) m)) = None"
  shows "FileSource_update auth_ok install_routes (Ok \<lparr>content = demo_text, read_error = None\<rparr>) m = Some (None, m')"
proof -
  have "install_routes [demo_route, demo_fallback] (Some 1) m = Some (None, m')" using assms by (metis option.collapse prod.collapse)
  then show ?thesis by (simp add: FileSource_update_def demo_Parse)
qed

lemma demo_tls_update:
  "FileSource_update auth_ok install_routes (Ok \<lparr>content = demo_text, read_error = None\<rparr>)
     (NewManager (Some (json_provider demo_pki demo_config)) demo_world) = Some (None, demo_tls)"
  by (rule demo_update [OF demo_tls_def]) code_simp+

lemma demo_sys_update:
  "FileSource_update auth_ok install_routes (Ok \<lparr>content = demo_text, read_error = None\<rparr>)
     (NewManager (Some (setup_provider demo_pki demo_setup)) demo_fresh) = Some (None, demo_sys_manager)"
  by (rule demo_update [OF demo_sys_manager_def]) code_simp+

end
