(* ===== verification/Spec2Isabelle.thy ===== *)
theory Spec2Isabelle
  imports System_Examples
begin

text \<open>
  Centauri is a reverse proxy that terminates TLS with certificates it obtains by itself. This is a model of it, made from the
  sources under \<^verbatim>\<open>src/\<close>, and the theorems that make it correct.

  \<^bold>\<open>The parts and how they interact.\<close> A configuration source (\<^verbatim>\<open>config/\<close>) reads the text of a configuration from a file or
  from a server, parses it and hands the routes to the manager (\<^verbatim>\<open>proxy/manager.go\<close>). The manager maps domains to routes and keeps
  the certificate of each up to date with the help of a certificate provider (\<^verbatim>\<open>certificate/\<close>): a manager of certificates over a
  store and several suppliers, behind a resolver for wildcards. A frontend (\<^verbatim>\<open>frontend/\<close>) runs the servers. Their handlers redirect
  (\<^verbatim>\<open>proxy/redirector.go\<close>) or proxy: the request is rewritten (\<^verbatim>\<open>proxy/rewriter.go\<close>, \<^verbatim>\<open>proxy/decorator.go\<close>), sent to an upstream,
  and the response is rewritten, perhaps replaced by an error page (\<^verbatim>\<open>proxy/errors.go\<close>), and counted (\<^verbatim>\<open>metrics/\<close>). The command
  (\<^verbatim>\<open>cmd/centauri/main.go\<close>) puts the parts together and waits for signals and errors.

  \<^bold>\<open>Theories.\<close> Each opens with what it models.

  \<^item> \<open>Prelude\<close>: results, time, lists. \<open>Go_Text\<close>: what is used of Go's strings, \<^verbatim>\<open>strconv\<close>, \<^verbatim>\<open>bufio\<close> and \<^verbatim>\<open>net\<close>, on bytes.
    \<open>Url_Refs\<close>: what is used of \<^verbatim>\<open>net/url\<close>. \<open>Http\<close>: headers, URLs, requests, responses.
  \<^item> \<open>Domain_Names\<close> (\<^verbatim>\<open>proxy/domains.go\<close>), \<open>Routes\<close> (\<^verbatim>\<open>proxy/route.go\<close>), \<open>Route_Parser\<close> (\<^verbatim>\<open>config/parser.go\<close>); \<open>Route_Printer\<close> is
    the inverse of the parser, which the program does not have.
  \<^item> \<open>Proxy_Manager\<close> (\<^verbatim>\<open>proxy/manager.go\<close>): routes in a heap, shared by the tables and the goroutines. The locale
    \<open>certificate_provider\<close> is the interface the manager relies on; \<open>mgr_step\<close> are the steps of its goroutines.
    \<open>Manager_Atomics\<close> has the same operations as sequences of their atomic stores and loads, \<open>micro_step\<close>, and shows that \<open>mgr_step\<close>
    are runs of them.
  \<^item> \<open>Redirectors\<close>, \<open>Decorators\<close>, \<open>Rewriter\<close> (\<^verbatim>\<open>proxy/\<close>); \<open>Metrics\<close> (\<^verbatim>\<open>metrics/recorder.go\<close>); \<open>Reverse_Proxy\<close>
    (\<^verbatim>\<open>frontend/frontend.go\<close>: the handlers, together with what is used of \<^verbatim>\<open>httputil.ReverseProxy\<close>), \<open>Buffer_Pool\<close> (its pool of buffers),
    \<open>Frontends\<close> (\<^verbatim>\<open>frontend/\<close>: servers with their time-outs, both frontends, and what a build without one has instead).
  \<^item> \<open>Cert_Details\<close> (\<^verbatim>\<open>certificate/details.go\<close>), \<open>Cert_World\<close> (the state of the certificate code, and the interfaces \<^verbatim>\<open>Store\<close> and
    \<^verbatim>\<open>Supplier\<close> as the locales \<open>certificate_store\<close> and \<open>certificate_supplier\<close>), \<open>Json_Store\<close> (\<^verbatim>\<open>store.go\<close>),
    \<open>Redis_Lock\<close>, \<open>Redis_Lease\<close> and \<open>Redis_Store\<close> (\<^verbatim>\<open>store_redis.go\<close> and its factory), \<open>Suppliers\<close> and \<open>Acme_Account\<close>
    (\<^verbatim>\<open>supplier_selfsigned.go\<close>, \<^verbatim>\<open>supplier_lego.go\<close>), \<open>Wildcards\<close> (\<^verbatim>\<open>wildcards.go\<close>), \<open>Cert_Manager\<close> (\<^verbatim>\<open>manager.go\<close>,
    \<^verbatim>\<open>provider.go\<close>). Both stores interpret \<open>certificate_store\<close> and both suppliers \<open>certificate_supplier\<close>; the locale
    \<open>cert_manager\<close> proves once that a manager over them is a \<open>certificate_provider\<close>, and is interpreted for both stores.
    \<open>Kept_Details\<close> extends these locales (\<open>keeping_store\<close>, \<open>keeping_manager\<close>) by a property of certificates that stores and suppliers keep, so that
    it holds of what the manager hands out. \<open>Named_Certificates\<close> uses this for the names in certificates (\<open>naming_provider\<close>), \<open>Availability\<close> for
    key pairs that fit, and for what happens while everything outside works (\<open>available_store\<close>, \<open>available_manager\<close>, \<open>available_provider\<close>); all are
    interpreted for both stores.
  \<^item> \<open>Config_Sources\<close> (\<^verbatim>\<open>config/source.go\<close>, \<^verbatim>\<open>config/source_file.go\<close>), \<open>Network_Source\<close> (\<^verbatim>\<open>config/source_network.go\<close>, with the time that its rounds
    take) and \<open>Command\<close> (\<^verbatim>\<open>cmd/centauri/main.go\<close>), with the running program as the relation \<open>system_step\<close>. The locale \<open>route_updater\<close> is what the
    sources ask of the manager. \<open>Serving\<close>: what clients of the running program see.
  \<^item> \<open>Examples\<close> and \<open>System_Examples\<close>: concrete values for the witnesses. This theory: the properties.

  \<^bold>\<open>How the code is rendered.\<close> Structures are records with the fields of the source, errors are values, a panic or a call that does not return is
  \<^const>\<open>None\<close>. Pointers that are shared and changed (routes, certificate details) are references into a heap that is part of the state.
  Every call of \<^verbatim>\<open>time.Now\<close> reads the next value of a clock that is any function. Orders that Go leaves open (the order of a map)
  are arguments. Lookups of routes in one handler may see different routes. Goroutines are step relations whose steps may be interleaved in any
  way. Libraries that are not part of the sources (cryptography, lego's client, the Redis server's answers, the
  local Tailscale client, the network, the registry of metrics) are parameters; what is relied on is named: \<^const>\<open>pki_ok\<close>, \<^const>\<open>redis_env_ok\<close>,
  \<^const>\<open>lock_env_ok\<close>, \<^const>\<open>keys_ok\<close>, \<^const>\<open>names_issued\<close> (certificates have the names they were requested for), and \<^const>\<open>json_good\<close> and
  \<^const>\<open>redis_good\<close> where it matters that nothing fails. Integers are unbounded where the code cannot overflow; the length prefix of the network
  protocol is a 32-bit word. There is no fuel: recursion is structural or has a termination proof, the retry loop of the Redis lock is
  a partial function that is proved to return, and the rounds of the network source consume a list of inputs.

  \<^bold>\<open>What the theorems show.\<close> What the parser accepts is well formed, and it reads back what is printed; domain names are recognised as their
  grammar says. Routing follows the last route that lists a name, fails without effect, and never panics, nor does any request. From the text of a
  configuration on: its domains come to be served while the suppliers work, and requests reach the upstreams it names. Whatever is interleaved, a
  domain that is served has a certificate whose names cover it, for the started program with either store; at the granularity of single stores, this is so while
  no two goroutines check one route. The stores are maps up to the order of names, survive a restart and remove only what is
  expired; the Redis store leaves alone what other instances changed. The distributed lock excludes as long as leases are
  refreshed in time, and a lease survives a refresh that is lost. Clients cannot forge the headers that upstreams trust, redirects end and lead to domain
  names only, error pages leak nothing and keep the status, responses are counted for their route. No reload and no frame is lost, the network source
  forgives one failure and settles its first configuration in bounded time, and the program can always be stopped, within the time-outs of its servers and with the right exit status. Three theorems show
  what goes wrong: primary domains with a capital letter, overlapping checks of a certificate, and the unlocking of a lease that has run out; two lemmas
  add comments without a space and hosts with a port in the metrics.

  \<^bold>\<open>Not modelled.\<close> Log lines and the set-up of the logger; the parsing of the command line, whose result are the options; the text that the
  metrics handler writes (Prometheus); the time-outs of ACME requests, which only decide what these return; getters, and
  the helper for test data; the scripts under \<^verbatim>\<open>contrib/\<close>. JSON is represented by what reading it back yields, and the bodies of messages are
  whole strings.
\<close>

section \<open>Domain names\<close>

text \<open>\<^bold>\<open>C14.\<close> The byte scanner of \<^verbatim>\<open>isDomainName\<close> accepts exactly the names that the rules describe: at
  most 253 bytes without a final dot, dot-separated labels of 1 to 63 letters, digits,
  underscores and hyphens that neither start nor end with a hyphen, and not digits only.\<close>

theorem isDomainName_correct: "isDomainName s \<longleftrightarrow> domain_name s"
  by (rule isDomainName_iff)

section \<open>The route configuration\<close>

text \<open>\<^bold>\<open>C22.\<close> Whatever the input, a configuration that \<^verbatim>\<open>Parse\<close> accepts is well formed: every route has a
  domain and an upstream, a redirecting route has at least two domains, the status of an error
  mapping is between 400 and 599 and its upstream is not empty, no certificate has been
  checked yet, and the fallback is one of the routes returned.\<close>

theorem Parse_well_formed:
  assumes "Parse auth_ok rd = Ok (rs, fb)"
  shows "list_all route_ok rs \<and> (\<forall>i. fb = Some i \<longrightarrow> i < length rs)"
  using assms by (rule Parse_ok)

theorem Parse_well_formed_witness:
  "Parse (\<lambda>_. True) \<lparr>content = demo_text, read_error = None\<rparr> = Ok ([demo_route, demo_fallback], Some 1) \<and>
   route_ok demo_route \<and> route_ok demo_fallback"
  using Parse_well_formed [OF demo_Parse] demo_Parse by simp

text \<open>\<^bold>\<open>C6.\<close> Printing a configuration and parsing the text gives the configuration back: every route
  with its domains, upstreams, subjects, header rules, error mappings, provider and redirect flag, in
  order, and the fallback. (\<open>printable_config\<close> asks that names and values can be written in the
  line format.)\<close>

theorem print_then_Parse:
  assumes "printable_config rs fb"
  shows "Parse auth_ok \<lparr>content = unlines (print_config rs fb), read_error = None\<rparr> = Ok (rs, fb)"
  using assms by (rule Parse_print_config)

theorem print_then_Parse_witness:
  "printable_config [demo_route, demo_fallback] (Some 1) \<and>
   Parse (\<lambda>_. True) \<lparr>content = unlines (print_config [demo_route, demo_fallback] (Some 1)), read_error = None\<rparr> =
     Ok ([demo_route, demo_fallback], Some 1)"
  using demo_printable print_then_Parse [OF demo_printable] by simp

text \<open>Before the first route, every directive but \<^verbatim>\<open>route\<close> is an error: a line that is accepted there
  is ignored or starts a route.\<close>

lemma first_directive_is_route:
  assumes "parse_line auth_ok st l = Ok st'" "p_route st = None"
  shows "(st' = st \<and> ignored_line l) \<or>
    (\<exists>a. st' = st\<lparr>p_route := Some (new_route (split_on CHR '' '' a))\<rparr> \<and> a \<noteq> [])"
proof -
  let ?l = "trim_space l"
  let ?w = "to_lower (takeWhile (\<lambda>c. c \<noteq> CHR '' '') ?l)"
  have d: "parse_directive auth_ok st ?l ?w (tl (dropWhile (\<lambda>c. c \<noteq> CHR '' '') ?l)) = Ok st'"
    using assms(1) by (auto simp: parse_line_def Let_def cut_eq drop_Suc split: if_splits)
  have "st' = st \<and> (?w = ''#'' \<or> ?l = []) \<or>
      (\<exists>a. st' = st\<lparr>p_route := Some (new_route (split_on CHR '' '' a))\<rparr> \<and> a \<noteq> [])"
    using d assms(2) unfolding parse_directive_def with_route_def set_route_def
    by (auto split: if_splits)
  moreover have "takeWhile (\<lambda>c. c \<noteq> CHR '' '') ?l = ''#''" if "?w = ''#''"
    using that by (simp add: to_lower_eq_hash)
  ultimately show ?thesis by (auto simp: ignored_line_def)
qed

section \<open>The route manager\<close>

text \<open>\<^bold>\<open>C17.\<close> \<^verbatim>\<open>SetRoutes\<close> installs all routes or none. It fails exactly if one of the routes has a domain that is not a
  domain name, and then the manager keeps routing as before. Otherwise a request for a domain goes to the last of the new routes that lists
  the domain, without regard to case, and to the fallback if none does.\<close>

theorem SetRoutes_installs_all_or_nothing:
  assumes "SetRoutes refs fb m = Some (err, m')"
  shows "if \<exists>ref \<in> set refs. \<exists>d \<in> set (Domains (m_heap m ref)). \<not> isDomainName d
    then err \<noteq> None \<and> Routes m' = Routes m \<and> routeFor m' domain = routeFor m domain
    else err = None \<and> Routes m' = refs \<and> routeFor m' domain =
      (case rev (filter (\<lambda>ref. \<exists>d \<in> set (Domains (m_heap m ref)). to_lower d = to_lower domain) refs) of
         ref # _ \<Rightarrow> Some ref
       | [] \<Rightarrow> fb)"
  using assms
proof (cases rule: SetRoutes_cases)
  case (failed e m1)
  then show ?thesis by (auto simp: list_all_iff cert_frame_def routeFor_def Get_def Routes_def split: option.splits)
next
  case (installed m1)
  have "find P xs = (case filter P xs of [] \<Rightarrow> None | x # _ \<Rightarrow> Some x)" for P and xs :: "route_ref list"
    by (induction xs) auto
  with installed show ?thesis
    by (auto simp: list_all_iff Routes_def routeFor_def Get_def owner_def lists_domain_def [abs_def] rev_filter split: list.split)
qed

theorem SetRoutes_installs_all_or_nothing_witness:
  "routeFor demo_installed ''WWW.example.com'' = Some 0 \<and> routeFor demo_installed ''unknown.example'' = Some 1 \<and>
   (\<exists>e m'. SetRoutes [0, 2] None bad_manager = Some (Some e, m') \<and> routeFor m' ''www.example.com'' = Some 0)"
proof -
  have "rev (filter (\<lambda>ref. \<exists>d \<in> set (Domains (m_heap demo_manager ref)). to_lower d = to_lower ''WWW.example.com'') [0, 1]) = [0]"
    "rev (filter (\<lambda>ref. \<exists>d \<in> set (Domains (m_heap demo_manager ref)). to_lower d = to_lower ''unknown.example'') [0, 1]) = []"
    by code_simp+
  then have good: "routeFor demo_installed ''WWW.example.com'' = Some 0" "routeFor demo_installed ''unknown.example'' = Some 1"
    using SetRoutes_installs_all_or_nothing [OF demo_SetRoutes, of "''WWW.example.com''"]
      SetRoutes_installs_all_or_nothing [OF demo_SetRoutes, of "''unknown.example''"] by (simp_all split: if_splits)
  have "SetRoutes [0, 2] None bad_manager \<noteq> None" "fst (the (SetRoutes [0, 2] None bad_manager)) \<noteq> None" by code_simp+
  then obtain e m' where ok: "SetRoutes [0, 2] None bad_manager = Some (Some e, m')" by auto
  have "routeFor bad_manager ''www.example.com'' = Some 0" by code_simp
  with SetRoutes_installs_all_or_nothing [OF ok, of "''www.example.com''"] ok good show ?thesis by (simp split: if_splits)
qed



text \<open>\<^bold>\<open>C12.\<close> The certificate and the status of a route are two stores, and installing a configuration is three; whatever is interleaved
  between them, a domain that is served has a certificate or is about to be withdrawn: its certificate could not be loaded again, and the
  store of the status is the next thing that a goroutine does. This is so as long as no two goroutines check the same route at a time.\<close>

theorem served_or_being_withdrawn:
  assumes "micro_reachable True (provider_inv P) (Some (json_provider P config)) s" "RouteForDomain (mi_manager s) domain = Some ref"
  shows "(\<exists>c. CertificateForClient (mi_manager s) domain = Ok (Some c)) \<or> being_withdrawn s ref"
  using assms by (rule json_prov.micro_served_has_certificate)

theorem served_or_being_withdrawn_witness:
  "\<exists>c. CertificateForClient demo_tls ''www.example.com'' = Ok (Some c)"
proof -
  have served: "RouteForDomain (mi_manager (at_rest demo_tls)) ''www.example.com'' = Some 0" by simp code_simp
  from served_or_being_withdrawn [OF mgr_reachable_at_rest [OF demo_tls_reachable] this] show ?thesis
    by (simp add: being_withdrawn_def)
qed

text \<open>\<^bold>\<open>C38.\<close> Two goroutines that check the same route at a time, the one started with a configuration and the one that checks
  every twelve hours, can leave it without a certificate for good: one that gets no certificate stores its nothing between the certificate and the
  status of one that does. All goroutines are done, requests for the domain are proxied, and TLS clients are given no certificate.\<close>

theorem interleaved_checks_lose_a_certificate:
  "\<exists>s. micro_reachable False (provider_inv race_pki) (Some (json_provider race_pki race_config)) s \<and> mi_install s = [] \<and> (\<forall>g. mi_checks s g = []) \<and>
     RouteForDomain (mi_manager s) ''other.example.net'' = Some 0 \<and> CertificateForClient (mi_manager s) ''other.example.net'' = Ok None"
  using raced_reachable raced_facts(1,4,5) raced_at_rest by blast

text \<open>Without a certificate provider no certificate is needed: right after a configuration is installed,
  every domain that has a route (or a fallback among the routes) is served.\<close>

lemma plain_manager_serves_all:
  assumes "SetRoutes refs fb m = Some (None, m')" "m_provider m = None"
    and "\<And>ref. fb = Some ref \<Longrightarrow> ref \<in> set refs"
  shows "RouteForDomain m' domain = routeFor m' domain"
  using assms(1)
proof (cases rule: SetRoutes_cases)
  case (installed m1)
  have "ref \<in> set refs" if "routeFor m' domain = Some ref" for ref
    using that installed assms(3) owner_Some [of "m_heap m" refs "to_lower domain"]
    by (auto simp: routeFor_def Get_def split: option.splits)
  moreover have "certificateStatus (m_heap m' ref) = CertificateNotRequired" if "ref \<in> set refs" for ref
    using plain_loaded [OF assms(2) installed(3)] that installed by simp
  ultimately show ?thesis
    by (auto simp: RouteForDomain_def less_eq_CertificateStatus_def split: option.splits)
qed simp

section \<open>Redirects\<close>



text \<open>\<^bold>\<open>C39.\<close> The proviso of the previous property is needed: with a primary domain that is written with a capital
  letter, a client that sends host names in lower case is redirected for ever, because the
  comparison with the host is exact while the lookup of the route is not.\<close>

theorem capital_primary_redirects_for_ever:
  "redirect_target (route_for capital_manager) (follow to_lower (route_for capital_manager) n ''example.com'') =
     Some ''Example.com''"
proof -
  have r: "redirect_target (route_for capital_manager) ''example.com'' = Some ''Example.com''"
    "to_lower ''Example.com'' = ''example.com''" by code_simp+
  then have "follow to_lower (route_for capital_manager) n ''example.com'' = ''example.com''"
    by (induction n) simp_all
  with r show ?thesis by simp
qed



section \<open>Proxied requests\<close>

text \<open>\<^bold>\<open>C11.\<close> A client cannot deceive an upstream about itself. Whoever sends a request that is proxied, the headers by which others
  identify clients are removed; and if the client is not a trusted downstream, the upstream is told the address the connection came from, the
  host of the request and whether TLS was used, whatever headers the client sent.\<close>

theorem clients_cannot_forge_headers:
  assumes "rf (hostForRequest inr) = Some route" "Upstreams route \<noteq> []"
    and "RewriteRequest rf intN (NewRewriter parseIP contains nets client) inr out = Some out'"
  shows "list_all (\<lambda>k. header_get (req_Header out') k = []) [''X-Real-IP'', ''True-Client-IP'', ''Forwarded'', ''Tailscale-User-Login'',
      ''Tailscale-User-Name'', ''Tailscale-User-Profile-Pic''] \<and>
    (\<not> trusted parseIP contains nets (remote_ip out) \<longrightarrow>
      req_Header out' ''X-Forwarded-For'' = Some [remote_ip out] \<and> req_Header out' ''X-Forwarded-Host'' = Some [req_Host out] \<and>
      req_Header out' ''X-Forwarded-Proto'' = Some [if req_TLS out then ''https'' else ''http''])"
proof (rule RewriteRequest_routed [OF assms])
  fix u
  assume out': "out' = (apply_decorators (decorators (NewRewriter parseIP contains nets client)) inr out)
      \<lparr>req_URL := Some (u\<lparr>url_Scheme := ''http'', url_Host := selectUpstream intN route\<rparr>)\<rparr>"
  have "header_get (req_Header out') k = []" if "k \<in> set banned_headers" for k
    using that by (simp add: out' default_header Let_def header_get_None)
  then have "list_all (\<lambda>k. header_get (req_Header out') k = []) banned_headers" by (simp add: list_all_iff)
  moreover have "\<not> trusted parseIP contains nets (remote_ip out) \<longrightarrow>
      req_Header out' ''X-Forwarded-For'' = Some [remote_ip out] \<and> req_Header out' ''X-Forwarded-Host'' = Some [req_Host out] \<and>
      req_Header out' ''X-Forwarded-Proto'' = Some [if req_TLS out then ''https'' else ''http'']"
    using forwarded_headers_out [of parseIP contains nets inr out]
    by (simp add: out' default_header Let_def forwarded_not_banned forwarded_for_def forwarded_host_def forwarded_proto_def)
  ultimately show ?thesis by (simp only: banned_headers_def)
qed

theorem clients_cannot_forge_headers_witness:
  "req_Header forged_request ''X-Forwarded-For'' = Some [''1.2.3.4''] \<and> req_Header demo_rewritten ''X-Forwarded-For'' = Some [''192.0.2.7''] \<and>
   req_Header forged_request ''X-Real-Ip'' \<noteq> None \<and> header_get (req_Header demo_rewritten) ''X-Real-IP'' = []"
proof -
  have "\<not> trusted (\<lambda>s. Some s) (=) [''198.51.100.1''] (remote_ip forged_request)"
    "remote_ip forged_request = ''192.0.2.7''" by code_simp+
  with clients_cannot_forge_headers [OF demo_rewrite] show ?thesis by (simp add: forged_request_def)
qed

text \<open>\<^bold>\<open>C33.\<close> On a Tailscale frontend, the Tailscale headers of a proxied request say who the local Tailscale
  client knows to be at the other end of the connection; they are absent if it knows nobody,
  whatever the client sent.\<close>

theorem tailscale_headers_are_authentic:
  assumes "rf (hostForRequest inr) = Some route" "Upstreams route \<noteq> []"
    and "RewriteRequest rf intN (AddDecorator (tailscaleHeaderDecorator whoIs)
      (NewRewriter parseIP contains nets client)) inr out = Some out'"
  shows "req_Header out' ''Tailscale-User-Login'' = map_option (\<lambda>u. [LoginName u]) (whoIs (req_RemoteAddr out)) \<and>
    req_Header out' ''Tailscale-User-Name'' = map_option (\<lambda>u. [DisplayName u]) (whoIs (req_RemoteAddr out)) \<and>
    req_Header out' ''Tailscale-User-Profile-Pic'' = map_option (\<lambda>u. [ProfilePicURL u]) (whoIs (req_RemoteAddr out))"
proof -
  let ?o = "apply_decorators (decorators (NewRewriter parseIP contains nets client)) inr out"
  have addr: "req_RemoteAddr ?o = req_RemoteAddr out"
    by (simp add: default_decorators userAgentDecorator_def NewBannedHeaderDecorator_def bannedHeaderDecorator_def
        xForwardedFor_eq Let_def)
  have "''Tailscale-User-Login'' \<in> canonical ` set banned_headers" "''Tailscale-User-Name'' \<in> canonical ` set banned_headers"
    "''Tailscale-User-Profile-Pic'' \<in> canonical ` set banned_headers"
    by (simp_all add: banned_headers_def canonical_names)
  then have none: "req_Header ?o ''Tailscale-User-Login'' = None" "req_Header ?o ''Tailscale-User-Name'' = None"
    "req_Header ?o ''Tailscale-User-Profile-Pic'' = None"
    by (simp_all add: default_header Let_def)
  obtain u where "out' = (tailscaleHeaderDecorator whoIs inr ?o)
      \<lparr>req_URL := Some (u\<lparr>url_Scheme := ''http'', url_Host := selectUpstream intN route\<rparr>)\<rparr>"
    using RewriteRequest_routed [OF assms] by (auto simp: AddDecorator_def apply_decorators_append)
  with addr none show ?thesis
    by (cases "whoIs (req_RemoteAddr out)") (simp_all add: tailscaleHeaderDecorator_def hdr_simps canonical_names)
qed

theorem tailscale_headers_are_authentic_witness:
  "\<exists>out'. RewriteRequest demo_lookup (\<lambda>_. 0) (AddDecorator (tailscaleHeaderDecorator (\<lambda>_. None)) demo_rewriter)
       forged_request forged_request = Some out' \<and>
     req_Header forged_request ''Tailscale-User-Login'' = Some [''root''] \<and>
     req_Header out' ''Tailscale-User-Login'' = None"
proof -
  have "RewriteRequest demo_lookup (\<lambda>_. 0) (AddDecorator (tailscaleHeaderDecorator (\<lambda>_. None)) demo_rewriter)
       forged_request forged_request \<noteq> None" by code_simp
  then obtain out' where out': "RewriteRequest demo_lookup (\<lambda>_. 0)
      (AddDecorator (tailscaleHeaderDecorator (\<lambda>_. None)) demo_rewriter) forged_request forged_request = Some out'" by blast
  from tailscale_headers_are_authentic [OF demo_rewrite(1,2) this [unfolded demo_rewriter_def]] out'
  show ?thesis by (simp add: forged_request_def)
qed

section \<open>Responses\<close>

text \<open>\<^bold>\<open>C34.\<close> An error page is fetched from the upstream of the first error mapping of the route with the status, with
  a \<^verbatim>\<open>GET\<close> request that carries no header of the client's request but the three forwarding headers: no
  cookies and no credentials.\<close>

theorem error_page_request_leaks_nothing:
  assumes "fetchErrorPage rf newURL rw status original = Some page"
  shows "\<exists>route mapping client u target req. rf (hostForRequest original) = Some route \<and>
    find (\<lambda>m. Status m = status) (ErrorMappings route) = Some mapping \<and> req_URL original = Some u \<and>
    newURL (error_target mapping u) = Some target \<and> url_Host (error_target mapping u) = em_Upstream mapping \<and>
    errorClient rw = Some client \<and> client req = Some page \<and>
    req_Method req = ''GET'' \<and> req_URL req = Some target \<and> req_Host req = url_Host target \<and>
    dom (req_Header req) \<subseteq> {''X-Forwarded-For'', ''X-Forwarded-Host'', ''X-Forwarded-Proto''} \<and>
    (\<forall>k v. req_Header req k = Some v \<longrightarrow> v = [header_get (req_Header original) k])"
proof -
  obtain route mapping client u target where 1: "rf (hostForRequest original) = Some route" "errorClient rw = Some client"
    "ErrorMappingForStatus route status = Some mapping" "req_URL original = Some u"
    "newURL (error_target mapping u) = Some target"
    "client \<lparr>req_Method = ''GET'', req_URL = Some target, req_Host = url_Host target,
       req_Header = forward_headers (req_Header original) Map.empty, req_RemoteAddr = [], req_TLS = False\<rparr> = Some page"
    using assms by (auto simp: fetchErrorPage_def split: option.splits)
  have "url_Host (error_target mapping u) = em_Upstream mapping" by (simp add: error_target_def Let_def)
  moreover have "dom (forward_headers (req_Header original) Map.empty) \<subseteq> set forwardedHeaders"
    using forward_headers_only by blast
  moreover have "find (\<lambda>m. Status m = status) (ErrorMappings route) = Some mapping"
    using 1(3) by (simp add: ErrorMappingForStatus_def find_mapping_eq_find)
  ultimately show ?thesis
    using 1 forward_headers_only [of "req_Header original"]
    by (intro exI [of _ route] exI [of _ mapping] exI [of _ client] exI [of _ u] exI [of _ target]
        exI [of _ "\<lparr>req_Method = ''GET'', req_URL = Some target, req_Host = url_Host target,
       req_Header = forward_headers (req_Header original) Map.empty, req_RemoteAddr = [], req_TLS = False\<rparr>"])
      (simp add: forwardedHeaders_def)
qed

theorem error_page_request_leaks_nothing_witness:
  "\<exists>page. fetchErrorPage demo_lookup Some error_rewriter 502 demo_request = Some page \<and>
     (\<exists>mapping. find (\<lambda>m. Status m = 502) (ErrorMappings demo_route) = Some mapping)"
proof -
  have "fetchErrorPage demo_lookup Some error_rewriter 502 demo_request \<noteq> None" by code_simp
  then obtain page where page: "fetchErrorPage demo_lookup Some error_rewriter 502 demo_request = Some page" by blast
  have "demo_lookup (hostForRequest demo_request) = Some demo_route" by code_simp
  with error_page_request_leaks_nothing [OF page] page show ?thesis by auto
qed

section \<open>Certificates\<close>

text \<open>\<^bold>\<open>C30.\<close> A lookup in the JSON store is a lookup in the map from (supplier, subject, alternative names up to
  order) to certificates, with the certificate that names no supplier as the fallback.\<close>

theorem store_lookup_refines_map:
  assumes "json_inv w"
  shows "JsonStore_GetCertificate p s as w =
    (case json_abs w (p, s, mset as) of Some c \<Rightarrow> Some c | None \<Rightarrow> json_abs w ([], s, mset as), w)"
  using assms by (rule JsonStore_GetCertificate_map)

theorem store_lookup_refines_map_witness:
  "json_inv demo_world \<and>
   fst (JsonStore_GetCertificate ''selfsigned'' ''example.com'' [''www.example.com''] demo_world) = Some 0"
proof -
  have "json_abs demo_world (''selfsigned'', ''example.com'', mset [''www.example.com'']) = Some 0"
    by (simp add: json_abs_def cert_map_def demo_world_def cert_key_def demo_cert_def)
  then show ?thesis
    using demo_json_inv store_lookup_refines_map [OF demo_json_inv] by simp
qed

text \<open>\<^bold>\<open>C13.\<close> Saving a certificate updates that map at the key of the certificate and then removes exactly the
  certificates that have expired when their expiry is checked; the invariant that there is one
  certificate per key is kept, and no lock changes.\<close>

theorem store_save_refines_map_update:
  assumes "json_inv w" "ref < w_next w" "JsonStore_SaveCertificate ref w = (err, w')"
  shows "json_inv w' \<and> js_locks (w_store w') = js_locks (w_store w) \<and> w_heap w' = w_heap w \<and>
    (\<forall>k. \<exists>now. now \<in> w_clock w ` {w_tick w..<w_tick w'} \<and> json_abs w' k =
      (case ((json_abs w)(cert_key (w_heap w ref) \<mapsto> ref)) k of
         None \<Rightarrow> None
       | Some c \<Rightarrow> if now < NotAfter (w_heap w c) then Some c else None))"
proof -
  note eff = SaveCertificate_effect [OF assms(1,3)]
  have ex: "\<exists>now. now \<in> w_clock w ` {w_tick w..<w_tick w'} \<and> json_abs w' k =
      (case ((json_abs w)(cert_key (w_heap w ref) \<mapsto> ref)) k of
         None \<Rightarrow> None
       | Some c \<Rightarrow> if now < NotAfter (w_heap w c) then Some c else None)" for k
  proof (cases "((json_abs w)(cert_key (w_heap w ref) \<mapsto> ref)) k")
    case None
    then show ?thesis
      using SaveCertificate_map_None [OF assms None] by (auto simp: eff saved_certificates_def)
  next
    case (Some c)
    show ?thesis by (rule SaveCertificate_map [OF assms Some]) (use Some in auto)
  qed
  show ?thesis
    using SaveCertificate_inv [OF assms] ex by (auto simp: eff(2,6))
qed

theorem store_save_refines_map_update_witness:
  "json_inv saved_world \<and> json_abs saved_world (cert_key demo_cert) = Some 1"
proof -
  have clock: "now = 5" if "now \<in> w_clock renewed_world ` {w_tick renewed_world..<w_tick saved_world}" for now
    using that by (auto simp: renewed_world_def demo_world_def)
  have key: "cert_key (w_heap renewed_world 1) = cert_key demo_cert" "NotAfter (w_heap renewed_world 1) = 200"
    by (simp_all add: renewed_world_def cert_key_def)
  note upd = store_save_refines_map_update [OF renewed_world_facts]
  obtain now where now: "now \<in> w_clock renewed_world ` {w_tick renewed_world..<w_tick saved_world}"
    "json_abs saved_world (cert_key demo_cert) =
      (case ((json_abs renewed_world)(cert_key (w_heap renewed_world 1) \<mapsto> 1)) (cert_key demo_cert) of
         None \<Rightarrow> None | Some c \<Rightarrow> if now < NotAfter (w_heap renewed_world c) then Some c else None)"
    using upd by blast
  with clock [OF now(1)] key upd show ?thesis by simp
qed

text \<open>\<^bold>\<open>C31.\<close> A store opened on the file that a successful save has written answers every lookup as the store that
  saved it would, with the same details; only the remembered answer about stapling is gone.\<close>

theorem reopened_store_answers_alike:
  assumes "JsonStore_SaveCertificate ref w = (None, w1)"
  shows "\<exists>w2. NewStore w1 = Ok w2 \<and>
    (\<forall>p s as. map_option (w_heap w2) (fst (JsonStore_GetCertificate p s as w2)) =
       map_option (\<lambda>c. (w_heap w1 c)\<lparr>requiresStaple := None\<rparr>) (fst (JsonStore_GetCertificate p s as w1)))"
  by (rule reopen_lookup [OF assms]) (auto simp: forget_staple_def)

theorem reopened_store_answers_alike_witness:
  "\<exists>w2. NewStore saved_world = Ok w2 \<and>
     map_option (w_heap w2) (fst (JsonStore_GetCertificate ''selfsigned'' ''example.com'' [''www.example.com''] w2)) =
       Some (demo_cert\<lparr>NotAfter := 200\<rparr>)"
proof -
  have "map_option (\<lambda>c. (w_heap saved_world c)\<lparr>requiresStaple := None\<rparr>)
      (fst (JsonStore_GetCertificate ''selfsigned'' ''example.com'' [''www.example.com''] saved_world)) =
      Some (demo_cert\<lparr>NotAfter := 200\<rparr>)" by code_simp
  with reopened_store_answers_alike [OF renewed_world_facts(3)] show ?thesis by metis
qed



text \<open>Which supplier is used: the one a route asks for, or an error if it does not exist; and without a
  preference the first in the order of preference that exists.\<close>

lemma supplier_selection:
  "supplier m preferred =
     (if preferred \<noteq> [] then
        (if preferred \<in> dom (suppliers m) then Ok (the (suppliers m preferred), preferred)
         else Error (''requested supplier not found: '' @ preferred))
      else
        (case filter (\<lambda>n. n \<in> dom (suppliers m)) (supplierPreference m) of
           n # _ \<Rightarrow> Ok (the (suppliers m n), n)
         | [] \<Rightarrow> Error (''no suppliers found for preference: ['' @ join '' '' (supplierPreference m) @ '']'')))"
proof -
  have "first_supplier sups ns = (case filter (\<lambda>n. n \<in> dom sups) ns of n # _ \<Rightarrow> Some (the (sups n), n) | [] \<Rightarrow> None)"
    for sups :: "string \<rightharpoonup> ('a, 'b) Supplier" and ns
    by (induction ns) (auto split: option.splits)
  then show ?thesis by (auto simp: supplier_def split: option.splits list.splits)
qed

text \<open>A self-signed certificate is issued for 30 days and is not renewed before 23 of them have passed.\<close>

lemma self_signed_lifetime:
  assumes "SelfSigned_GetCertificate P subject altNames b w = (Ok ref, w')"
    and "now < w_clock w (Suc (w_tick w)) + hours (24 * 23)"
  shows "NotAfter (w_heap w' ref) = w_clock w (Suc (w_tick w)) + hours (24 * 30) \<and>
    \<not> ShouldRenew now (MinCertificateValidity (NewSelfSignedSupplier P)) (w_heap w' ref)"
proof -
  have "NotAfter (w_heap w' ref) = w_clock w (Suc (w_tick w)) + hours (24 * 30)" "AriRenewalTime (w_heap w' ref) = 0"
    using assms(1)
    by (auto simp: SelfSigned_GetCertificate_def outside_def time_now_def new_details_def empty_details_def Let_def
        split: prod.splits sum.splits)
  with assms(2) show ?thesis
    by (simp add: ShouldRenew_def ValidFor_def NewSelfSignedSupplier_def hours_def hour_def second_def)
qed

text \<open>\<^bold>\<open>C37.\<close> With renewal information from the ACME server, the renewal time that is remembered lies in the window the
  server suggests, also when the window is longer than a 64-bit duration can express.\<close>

theorem renewal_time_in_window:
  assumes "Lego_UpdateRenewalInfo P ref w = (None, w')"
    and "fst (GetRenewalInfo P (det_Certificate (w_heap w ref)) (w_env w)) = Ok info"
    and "win_Start info \<le> win_End info"
    and "\<And>n e. 0 < n \<Longrightarrow> 0 \<le> fst (Int64N P n e) \<and> fst (Int64N P n e) < n"
  shows "win_Start info \<le> AriRenewalTime (w_heap w' ref) \<and> AriRenewalTime (w_heap w' ref) \<le> win_End info"
proof -
  let ?d = "time_Sub (win_End info) (win_Start info)"
  have d: "0 \<le> ?d" "?d \<le> win_End info - win_Start info" using assms(3) by (auto simp: time_Sub_def)
  obtain e where e: "GetRenewalInfo P (det_Certificate (w_heap w ref)) (w_env w) = (Ok info, e)"
    using assms(2) by (metis prod.collapse)
  have "AriRenewalTime (w_heap w' ref) = win_Start info + (if second \<le> ?d then fst (Int64N P ?d e) else 0)"
    using assms(1) e
    by (auto simp: Lego_UpdateRenewalInfo_def outside_def time_now_def Let_def split: sum.splits prod.splits if_splits)
  moreover have "second \<le> ?d \<Longrightarrow> 0 \<le> fst (Int64N P ?d e) \<and> fst (Int64N P ?d e) < ?d"
    using assms(4) [of ?d e] by (simp add: second_def)
  ultimately show ?thesis using d assms(3) by auto
qed

theorem renewal_time_in_window_witness:
  "\<exists>w'. Lego_UpdateRenewalInfo ari_pki 0 demo_world = (None, w') \<and>
     10 * second \<le> AriRenewalTime (w_heap w' 0) \<and> AriRenewalTime (w_heap w' 0) \<le> 30 * second"
proof -
  have "\<exists>w'. Lego_UpdateRenewalInfo ari_pki 0 demo_world = (None, w')"
    by (simp add: Lego_UpdateRenewalInfo_def ari_pki_def demo_pki_def outside_def time_now_def Let_def)
  then obtain w' where ok: "Lego_UpdateRenewalInfo ari_pki 0 demo_world = (None, w')" by blast
  show ?thesis
    using ok renewal_time_in_window [OF ok, of "\<lparr>win_Start = 10 * second, win_End = 30 * second,
     RetryAfter = hour, ExplanationURL = []\<rparr>"]
    by (simp add: ari_pki_def demo_pki_def second_def)
qed

text \<open>\<^bold>\<open>C35.\<close> A certificate that \<^verbatim>\<open>GetExistingCertificate\<close> returns is one the store holds for the requested names, from
  the requested supplier or from before suppliers were recorded; it has not expired when the
  call looks at it, and if it must be stapled its staple has not expired either.\<close>

theorem existing_certificate_is_valid:
  assumes "json_inv w"
    and "Manager_GetExistingCertificate P (provider_manager P (json_config config)) preferred s as w =
      Some ((Some c, needRenewal, None), w')"
  shows "\<exists>sp name ref. supplier (provider_manager P (json_config config)) preferred = Ok (sp, name) \<and>
    ref \<in> set (js_certificates (w_store w)) \<and> IsFor s as (w_heap w ref) \<and>
    det_Provider (w_heap w ref) \<in> {name, []} \<and> w_clock w (w_tick w) < NotAfter (w_heap w ref) \<and>
    (\<exists>must d. RequiresStaple (parsePEM P) (w_heap w ref) = Some (must, d) \<and>
       (must \<longrightarrow> w_clock w (Suc (w_tick w)) < NextOcspUpdate (w_heap w ref))) \<and>
    c = \<lparr>tls_chain = det_Certificate (w_heap w ref), tls_key = PrivateKey (w_heap w ref),
         OCSPStaple = OcspResponse (w_heap w ref)\<rparr>"
proof -
  let ?m = "provider_manager P (json_config config)"
  obtain sp name where sp: "supplier ?m preferred = Ok (sp, name)"
    using assms(2) by (auto simp: Manager_GetExistingCertificate_def split: sum.splits)
  have st: "StoreGetCertificate (cm_store ?m) = JsonStore_GetCertificate"
    by (simp add: provider_manager_def NewCertManager_def json_store_def)
  obtain ref where get: "JsonStore_GetCertificate name s as w = (Some ref, w)"
    using assms(2) sp st
    by (auto simp: Manager_GetExistingCertificate_def JsonStore_GetCertificate_def split: option.splits)
  let ?w2 = "w\<lparr>w_tick := Suc (w_tick w)\<rparr>"
  have valid: "w_clock w (w_tick w) < NotAfter (w_heap w ref)"
    using assms(2) sp st get
    by (auto simp: Manager_GetExistingCertificate_def cert_ValidFor_def time_now_def ValidFor_def Let_def
        split: if_splits)
  with assms(2) sp st get obtain w3 where w3: "needs_staple P 0 ref ?w2 = Some (False, w3)"
    and key: "cert_keyPair (x509KeyPair P) ref w3 = (Some c, None)"
    by (auto simp: Manager_GetExistingCertificate_def cert_ValidFor_def time_now_def ValidFor_def Let_def
        bind_eq_Some_conv split: if_splits prod.splits)
  obtain must d where d: "RequiresStaple (parsePEM P) (w_heap w ref) = Some (must, d)" "w_heap w3 ref = d"
    "must \<longrightarrow> w_clock w (Suc (w_tick w)) < NextOcspUpdate (w_heap w ref)"
    using needs_staple_False [OF w3] by auto
  have "c = \<lparr>tls_chain = det_Certificate d, tls_key = PrivateKey d, OCSPStaple = OcspResponse d\<rparr>"
    using key d(2) by (auto simp: cert_keyPair_def keyPair_def split: sum.splits option.splits)
  moreover obtain b where "d = (w_heap w ref)\<lparr>requiresStaple := b\<rparr>" using RequiresStaple_frame [OF d(1)] by blast
  ultimately show ?thesis using sp lookup_found [OF assms(1) get] valid d by auto
qed

theorem existing_certificate_is_valid_witness:
  "\<exists>c w'. Manager_GetExistingCertificate demo_pki (provider_manager demo_pki (json_config demo_config)) []
      ''example.com'' [''www.example.com''] demo_world = Some ((Some c, True, None), w') \<and>
     decode_names [] (tls_chain c) = [''example.com'', ''www.example.com'']"
proof -
  let ?r = "Manager_GetExistingCertificate demo_pki (provider_manager demo_pki (json_config demo_config)) []
      ''example.com'' [''www.example.com''] demo_world"
  have "?r \<noteq> None" "fst (snd (fst (the ?r))) = True" "snd (snd (fst (the ?r))) = None" "fst (fst (the ?r)) \<noteq> None"
    by code_simp+
  then obtain c w' where r: "?r = Some ((Some c, True, None), w')" by (cases ?r) auto
  have "decode_names [] (det_Certificate (w_heap demo_world ref)) = [''example.com'', ''www.example.com'']" for ref
    by (simp add: demo_world_def demo_cert_def decode_encode)
  with existing_certificate_is_valid [OF demo_json_inv r] r show ?thesis by auto
qed

text \<open>\<^bold>\<open>C36.\<close> A certificate that has been obtained is in the store: it is for the requested names, is marked with the
  supplier it came from, and the next lookup for the same names and supplier finds it, unless it
  had expired already while it was being saved.\<close>

theorem obtained_certificate_is_stored:
  assumes "json_inv w" "pki_ok P" "suppliers (provider_manager P (json_config config)) name = Some sp"
    and "obtain_cert P (provider_manager P (json_config config)) sp name s as w = ((Some c, None), w')"
  shows "\<exists>ref. keyPair (x509KeyPair P) (w_heap w' ref) = Ok c \<and> det_Provider (w_heap w' ref) = name \<and>
    IsFor s as (w_heap w' ref) \<and>
    ((\<forall>i < w_tick w'. w_clock w i < NotAfter (w_heap w' ref)) \<longrightarrow>
       fst (JsonStore_GetCertificate name s as w') = Some ref)"
proof (rule obtain_cert_saves [OF assms])
  fix ref w3
  assume inv: "json_inv w3" and ref: "ref < w_next w3" and sv: "JsonStore_SaveCertificate ref w3 = (None, w')"
    and kp: "keyPair (x509KeyPair P) (w_heap w' ref) = Ok c" and d: "det_Provider (w_heap w3 ref) = name"
      "IsFor s as (w_heap w3 ref)" and clk: "w_clock w3 = w_clock w"
  note eff = SaveCertificate_effect [OF inv sv]
  have key: "cert_key (w_heap w3 ref) = (name, s, mset as)" using d key_match by blast
  obtain now where now: "now \<in> w_clock w3 ` {w_tick w3..<w_tick w'}"
    "json_abs w' (name, s, mset as) = (if now < NotAfter (w_heap w3 ref) then Some ref else None)"
    by (rule SaveCertificate_map [OF inv ref sv, of "(name, s, mset as)" ref]) (auto simp: key)
  have "fst (JsonStore_GetCertificate name s as w') = Some ref"
    if "\<forall>i < w_tick w'. w_clock w i < NotAfter (w_heap w' ref)"
    using that now JsonStore_GetCertificate_map [OF SaveCertificate_inv [OF inv ref sv]] by (auto simp: eff clk)
  with kp d show ?thesis by (auto simp: eff)
qed

theorem obtained_certificate_is_stored_witness:
  "\<exists>c w' ref. obtain_cert demo_pki (provider_manager demo_pki (json_config demo_config))
      (NewSelfSignedSupplier demo_pki) ''selfsigned'' ''new.example'' [] demo_world = ((Some c, None), w') \<and>
     det_Provider (w_heap w' ref) = ''selfsigned'' \<and> IsFor ''new.example'' [] (w_heap w' ref)"
proof -
  let ?r = "obtain_cert demo_pki (provider_manager demo_pki (json_config demo_config))
      (NewSelfSignedSupplier demo_pki) ''selfsigned'' ''new.example'' [] demo_world"
  have "fst (fst ?r) \<noteq> None" "snd (fst ?r) = None" by code_simp+
  then obtain c w' where r: "?r = ((Some c, None), w')" by (cases ?r) auto
  have "suppliers (provider_manager demo_pki (json_config demo_config)) ''selfsigned'' = Some (NewSelfSignedSupplier demo_pki)"
    by (simp add: provider_manager_def NewCertManager_def provider_suppliers_def demo_config_def)
  from obtained_certificate_is_stored [OF demo_json_inv demo_pki_ok this r] r show ?thesis by blast
qed

section \<open>Where configurations come from\<close>

text \<open>\<^bold>\<open>C15.\<close> Frames that a configuration server sends one after the other, the first of them in time, are applied in that order, one per
  round, whatever follows them on the connection: the length prefix is read back exactly for every payload below 4 GiB, no byte of a frame is
  lost or read twice, and the source is back in its initial mood, with a second chance to spare and without a deadline.\<close>

theorem network_frames_in_order:
  assumes "listening n c" "incoming c = concat (map frame payloads) @ rest" "payloads \<noteq> []"
    and "list_all (\<lambda>p. length p < 2 ^ 32) payloads" "first_in_time (length (frame (hd payloads))) now n c"
    and "list_all deadlines_ok rounds" "length rounds = length payloads"
    and "apply_payloads auth_ok updateRoutes payloads m = Some m'"
  shows "\<exists>now'. NetworkSource_run auth_ok updateRoutes rounds now n m =
    NetLooped now' (n\<lparr>ns_conn := Some (c\<lparr>incoming := rest, received := received c + length (concat (map frame payloads)),
      conn_deadline := None\<rparr>), initialConfigRead := True, secondChance := False\<rparr>) m'"
  using run_frames [OF assms(1,2,6,7,4,3,5,8)] by (simp add: after_config_def)

theorem network_frames_in_order_witness:
  "\<exists>now' n'. NetworkSource_run (\<lambda>_. True) count_updates [demo_round, demo_round] 0 demo_net 5 = NetLooped now' n' 7 \<and>
     map_option incoming (ns_conn n') = Some ''CENT'' \<and> initialConfigRead n'"
proof -
  have "int j \<le> 10 * second" if "j < length (frame demo_text)" for j
    using that demo_text_short by (simp add: length_frame second_def)
  then have first: "first_in_time (length (frame (hd demo_frames))) 0 demo_net demo_conn"
    by (simp add: first_in_time_def in_time_def with_deadline_def SetDeadline_def demo_net_def demo_conn_def conn_with_def
        NewNetworkSource_def defaultInitialConfigTimeout_def demo_frames_def) (simp add: second_def)
  have "\<exists>now'. NetworkSource_run (\<lambda>_. True) count_updates [demo_round, demo_round] 0 demo_net 5 =
     NetLooped now' (demo_net\<lparr>ns_conn := Some (demo_conn\<lparr>incoming := ''CENT'', received := received demo_conn + length (concat (map frame demo_frames)),
      conn_deadline := None\<rparr>), initialConfigRead := True, secondChance := False\<rparr>) (5 + 2)"
    by (rule network_frames_in_order [where payloads = demo_frames, OF _ _ _ _ first _ _ demo_apply])
      (use demo_text_short in \<open>simp_all add: listening_def demo_net_def demo_conn_def conn_with_def NewNetworkSource_def demo_frames_def
        deadlines_ok_def demo_round_def\<close>)
  then show ?thesis by fastforce
qed

text \<open>\<^bold>\<open>C24.\<close> A network source that has a second chance only gives up on reading after two failures in a row: one round in
  which reading failed and a new connection was made, and the very next one in which reading failed again, with the error
  that is reported.\<close>

theorem network_gives_up_after_two_failures:
  assumes "NetworkSource_run auth_ok updateRoutes rounds now n m = NetReturned (Some (SecondReadFailed err)) now' n' m'" "\<not> secondChance n"
  shows "\<exists>before i j after now1 n1 m1 err1 now2 n2 m2. rounds = before @ [i, j] @ after \<and>
    NetworkSource_run auth_ok updateRoutes before now n m = NetLooped now1 n1 m1 \<and>
    read_fails auth_ok updateRoutes now1 n1 m1 err1 m2 \<and> NetworkSource_round auth_ok updateRoutes i now1 n1 m1 = NetLooped now2 n2 m2 \<and>
    read_fails auth_ok updateRoutes now2 n2 m2 err m'"
  using run_gives_up [OF assms(1)] assms(2) by (simp add: fails_twice_def)

theorem network_gives_up_after_two_failures_witness:
  "\<exists>before i j after now1 n1 m1 err1 now2 n2 m2. [again_round, again_round] = before @ [i, j] @ after \<and>
    NetworkSource_run (\<lambda>_. True) count_updates before 0 bad_net 5 = NetLooped now1 n1 m1 \<and>
    read_fails (\<lambda>_. True) count_updates now1 n1 m1 err1 m2 \<and>
    NetworkSource_round (\<lambda>_. True) count_updates i now1 n1 m1 = NetLooped now2 n2 m2 \<and>
    read_fails (\<lambda>_. True) count_updates now2 n2 m2 (InvalidMagic ''HELLO WO'') 5"
proof (rule network_gives_up_after_two_failures)
  show "NetworkSource_run (\<lambda>_. True) count_updates [again_round, again_round] 0 bad_net 5 =
    NetReturned (Some (SecondReadFailed (InvalidMagic ''HELLO WO''))) 1100000007
      (bad_net\<lparr>ns_conn := Some ((conn_with ''RLD'')\<lparr>received := 8, conn_closed := True, conn_deadline := Some 11100000007\<rparr>),
         secondChance := True\<rparr>) 5"
    by (simp add: NetworkSource_round_def bad_net_def NewNetworkSource_def again_round_def demo_round_def readAndApplyConfig_def ReadFull_def
        magicBytes_def Close_def reconnect_def conn_with_def with_deadline_def SetDeadline_def times_out_def answer_def
        defaultInitialConfigTimeout_def defaultReconnectInterval_def second_def)
qed (simp add: bad_net_def NewNetworkSource_def)



text \<open>\<^bold>\<open>C23.\<close> No reload is lost: whenever the file source has nothing left to do, the version of the file it has read last is at
  least as new as the one that was on disk at the last \<^verbatim>\<open>Reload\<close>, although reloads that arrive while one is scheduled are
  dropped; and it is the content on disk if the file has not been edited since.\<close>

theorem file_reload_is_not_lost:
  assumes "file_reachable auth_ok updateRoutes configFile m s"
    and "fs_updateChan (fr_source s) = 0" "\<not> fr_reading s"
  shows "fr_wanted s \<le> fr_seen s \<and> (fr_seen s = fr_version s \<longrightarrow> fr_last s = fr_disk s)"
  using file_inv_reachable [OF assms(1)] assms(2,3) by (auto simp: file_inv_def)

theorem file_reload_is_not_lost_witness:
  "fr_wanted file_read_state = 1 \<and> fr_wanted file_read_state \<le> fr_seen file_read_state"
  using file_reload_is_not_lost [OF file_read_reachable]
  by (simp add: file_read_state_def file_started_def NewFileSource_def)

section \<open>Certificates on a Redis server\<close>



text \<open>\<^bold>\<open>C10.\<close> The keys of the Redis store identify certificates: as long as no name contains a semicolon, two certificates share a field
  of the hash exactly if supplier, subject and alternative names up to order agree, and two sets of names share a lock exactly if subject and
  alternative names up to order do.\<close>

theorem redis_keys_identify_certificates:
  assumes "\<forall>n \<in> {p, s} \<union> set as \<union> {p', s'} \<union> set as'. CHR '';'' \<notin> set n"
  shows "(certificateKey p s as = certificateKey p' s' as' \<longleftrightarrow> p = p' \<and> s = s' \<and> mset as = mset as') \<and>
    (lock_name keyPrefix s as = lock_name keyPrefix s' as' \<longleftrightarrow> s = s' \<and> mset as = mset as')"
  using certificateKey_inject [of p s as p' s' as'] namesKey_inject [of s as s' as'] assms by (simp add: lock_name_def)

theorem redis_keys_identify_certificates_witness:
  "lock_name ''centauri'' ''a.example'' [''b.example'', ''c.example''] = lock_name ''centauri'' ''a.example'' [''c.example'', ''b.example''] \<and>
   certificateKey ''lego'' ''a.example'' [''b.example''] \<noteq> certificateKey ''selfsigned'' ''a.example'' [''b.example'']"
  using redis_keys_identify_certificates [of "''lego''" "''a.example''" "[''b.example'', ''c.example'']"
      "''lego''" "''a.example''" "[''c.example'', ''b.example'']" "''centauri''"]
    redis_keys_identify_certificates [of "''lego''" "''a.example''" "[''b.example'']"
      "''selfsigned''" "''a.example''" "[''b.example'']" "''centauri''"]
  by simp

text \<open>\<^bold>\<open>C7.\<close> The distributed lock excludes: at most one goroutine of all instances has a lease; no \<^verbatim>\<open>Unlock\<close> panics; and in runs
  in which no lease runs out in the hands of its holder, at most one goroutine is between \<^verbatim>\<open>Lock\<close> and \<^verbatim>\<open>Unlock\<close>.\<close>

theorem redis_lock_excludes:
  assumes "lock_reachable timely key ttl proc_of now w" "0 < ttl"
  shows "(lease key w g \<and> lease key w g' \<longrightarrow> g = g') \<and> lw_pc w g \<noteq> Panicked \<and>
    (timely \<and> lw_pc w g = Inside t \<and> lw_pc w g' = Inside t' \<longrightarrow> g = g')"
proof -
  note inv = lock_reachable_inv [OF assms(1)]
  have "g = g'" if "timely" "lw_pc w g = Inside t" "lw_pc w g' = Inside t'"
  proof -
    have "timely_inv key proc_of w" using timely_reachable_inv assms that(1) by simp
    then show ?thesis
      using timely_only_holder [of key proc_of w g t g' t'] inv that(2,3) by (simp add: holds_def)
  qed
  with inv lease_unique show ?thesis by (auto simp: chan_inv_def)
qed

theorem redis_lock_excludes_witness:
  "lease ''lock'' held_lock 1 \<and> \<not> lease ''lock'' held_lock 2 \<and> lw_pc held_lock 1 \<noteq> Panicked"
proof -
  have "lease ''lock'' held_lock 1" by (simp add: lease_def holds_def held_lock_def redis_get_def)
  with redis_lock_excludes [OF held_lock_reachable, of 1 2] show ?thesis by auto
qed

text \<open>\<^bold>\<open>C8.\<close> A lease survives a refresh that is lost: with the times the program uses, a lock that was acquired is still held when the
  refreshes end, whatever the other instances do to it without knowing the token, if every request takes at most the time-out of an operation and
  no two requests in a row are lost. \<open>start\<close> is when the answer to the acquiring request arrived and the ticker was started.\<close>

theorem lease_survives_a_lost_refresh:
  assumes "SetNX key token redisLockTTL sv = (True, sv')" "start \<le> operationContext (sv_now sv)"
    and "ticks_ok token (start + redisLockRenewInterval) tks" "no_two_lost False tks"
  shows "redis_get key (refresh_ticks key token redisLockTTL (start + redisLockRenewInterval) tks sv') = Some token"
proof (rule refresh_keeps_lease [where expiry = "sv_now sv + redisLockTTL" and last_lost = False])
  show "sv_keys sv' key = Some (token, sv_now sv + redisLockTTL)" "sv_now sv' < sv_now sv + redisLockTTL"
    using assms(1) by (auto simp: SetNX_def lease_times split: if_splits)
  show "start + redisLockRenewInterval + (if False then 15 * second else 35 * second) \<le> sv_now sv + redisLockTTL"
    using assms(2) by (simp add: lease_times)
qed (rule assms(3,4))+

theorem lease_survives_a_lost_refresh_witness:
  "redis_get ''lock'' (refresh_ticks ''lock'' ''a'' redisLockTTL (second + redisLockRenewInterval) demo_ticks
     (snd (SetNX ''lock'' ''a'' redisLockTTL free_server))) = Some ''a''"
proof (rule lease_survives_a_lost_refresh)
  show "SetNX ''lock'' ''a'' redisLockTTL free_server = (True, snd (SetNX ''lock'' ''a'' redisLockTTL free_server))"
    by (simp add: SetNX_def free_server_def redis_get_def)
qed (simp_all add: demo_ticks_def lost_tick_def free_server_def lease_times)

text \<open>\<^bold>\<open>C40.\<close> Outside these runs the exclusion can be lost to the lock's own bookkeeping. The token is kept in the object that all goroutines
  of a process share: if the lease of goroutine 1 has run out and goroutine 2 of the same process has acquired the lock since, the
  \<^verbatim>\<open>Unlock\<close> of goroutine 1 releases the lease of goroutine 2, and goroutine 3 of another instance enters while goroutine 2
  is still inside and no time has passed.\<close>

theorem late_Unlock_releases_the_next_lease:
  "\<exists>w w'. lock_reachable False ''lock'' 10 demo_procs 0 w \<and> (lock_step False ''lock'' 10 demo_procs)\<^sup>*\<^sup>* w w' \<and>
     sv_now (lw_server w') = sv_now (lw_server w) \<and> demo_procs 1 = demo_procs 2 \<and>
     lease ''lock'' w 2 \<and> lw_pc w' 2 = lw_pc w 2 \<and> \<not> lease ''lock'' w' 2 \<and> lease ''lock'' w' 3"
proof (intro exI conjI)
  show "lock_reachable False ''lock'' 10 demo_procs 0 stolen_before" by (rule stolen_before_reachable)
  show "(lock_step False ''lock'' 10 demo_procs)\<^sup>*\<^sup>* stolen_before stolen_after" by (rule stolen_run)
qed (simp_all add: stolen_before_def stolen_after_def lease_def holds_def redis_get_def demo_procs_def)

section \<open>The ACME account\<close>

text \<open>\<^bold>\<open>C29.\<close> An account is registered once: after the ACME supplier has been created, starting again with the file that it left
  sends no registration and uses the same account, key and address, whatever the options say by then.\<close>

theorem restart_keeps_the_account:
  assumes "NewLegoSupplier env config contents = (Ok (s, user), n, contents')" "keys_ok env"
    and "ae_parseKey env' = ae_parseKey env" "canWriteTo (ae_access env') = None" "ae_client env' config' = None" "ae_challenge env' config' = None"
  shows "n \<le> 1 \<and> (\<exists>s' user'. NewLegoSupplier env' config' contents' = (Ok (s', user'), 0, contents') \<and>
    au_account user' = au_account user \<and> au_key user' = au_key user \<and> au_email user' = au_email user)"
proof
  show "n \<le> 1" using assms(1) by (auto simp: NewLegoSupplier_def Let_def split: option.splits sum.splits if_splits prod.splits)
qed (rule restart_keeps_account [OF assms])

theorem restart_keeps_the_account_witness:
  "fst (snd (NewLegoSupplier demo_account_env demo_lego_config NoUserFile)) = 1 \<and>
   fst (snd (NewLegoSupplier demo_account_env demo_lego_config (snd (snd (NewLegoSupplier demo_account_env demo_lego_config NoUserFile))))) = 0"
proof -
  obtain s user where first: "NewLegoSupplier demo_account_env demo_lego_config NoUserFile = (Ok (s, user), 1,
      SavedUser \<lparr>su_Email = ''a@example.com'', su_Registration = \<lparr>acc_Body = ''valid'', acc_Location = ''https://acme/1''\<rparr>, su_Key = ''key''\<rparr>)"
    by (simp add: NewLegoSupplier_def demo_account_env_def demo_lego_config_def canWriteTo_def user_load_def registerAndSave_def register_user_def)
  from restart_keeps_the_account [OF this, of demo_account_env demo_lego_config] show ?thesis
    unfolding first by (auto simp: keys_ok_def demo_account_env_def canWriteTo_def)
qed

section \<open>Frontends\<close>






section \<open>The program\<close>



text \<open>\<^bold>\<open>C28.\<close> The manager has a certificate provider exactly if there is a server behind TLS, which proxies; then the plain server only
  redirects, and otherwise it proxies.\<close>

theorem plain_server_redirects_with_certificates:
  assumes "run_start auth_ok parseIP contains client fl i = Started r"
  shows "(ru_provider r \<noteq> None \<longleftrightarrow> tls_server (ru_frontend r) \<noteq> None) \<and>
    (\<forall>s. tls_server (ru_frontend r) = Some s \<longrightarrow> (\<exists>l. srv_listener s = Some l \<and> ln_TLS l) \<and> srv_handler s = ProxyHandler) \<and>
    (\<exists>s l. plain_server (ru_frontend r) = Some s \<and> srv_listener s = Some l \<and> \<not> ln_TLS l \<and>
      srv_handler s = (if ru_provider r = None then ProxyHandler else RedirectHandler))"
proof -
  obtain src f nets provider where f: "createFrontend (in_tags i) fl (fl_frontend fl) = Ok f"
      "Serve i \<lparr>ctx_Manager = provider, ctx_Rewriter = NewRewriter parseIP contains nets client, ctx_Recorder = NewRecorder\<rparr> f =
        (None, ru_context r, ru_frontend r)"
    and p: "(if UsesCertificates f then map_sum id Some (certProvider fl i) else Ok None) = Ok provider"
    by (rule run_start_cases [OF assms])
  have "provider \<noteq> None \<longleftrightarrow> UsesCertificates f"
    using p by (cases "certProvider fl i") (auto split: if_splits dest: sym)
  with serve_servers [OF f] show ?thesis by (auto split: if_splits)
qed

theorem plain_server_redirects_with_certificates_witness:
  "\<exists>s. plain_server (ru_frontend demo_running) = Some s \<and> srv_handler s = RedirectHandler"
  using plain_server_redirects_with_certificates [OF demo_start] by (auto simp: demo_running_def)

text \<open>\<^bold>\<open>C3.\<close> Every configured domain comes to be served: as long as the suppliers, the disk and the key pairs work, once the file source
  has installed a configuration whose routes name suppliers that exist, and the check of the certificates that this starts is done, requests for
  a host go to the last route in the text that lists it, or to the fallback, and its TLS clients are given a certificate; hosts that the configuration
  does not cover are not served.\<close>

theorem configured_domains_are_served:
  assumes "mgr_reachable (provider_inv P) (Some (json_provider P config)) m" "json_good P (pc_Lego config) (m_pstate m)"
    and "FileSource_update auth_ok install_routes (Ok rd) m = Some (None, m1)" "Parse auth_ok rd = Ok (rs, fb)"
    and "\<And>r. r \<in> set rs \<Longrightarrow> \<exists>sp. supplier (provider_manager P (json_config config)) (Provider r) = Ok sp"
  shows "\<exists>m2. CheckCertificates m1 = Some m2 \<and>
    (\<forall>host. rel_option same_config (route_of_config rs fb host) (route_for m2 host) \<and>
      (route_of_config rs fb host \<noteq> None \<longrightarrow> (\<exists>c. CertificateForClient m2 host = Ok (Some c))))"
  by (rule json_served.configured_served [OF assms])

theorem configured_domains_are_served_witness:
  "\<exists>m2 c. CheckCertificates demo_tls = Some m2 \<and> CertificateForClient m2 ''other.example.net'' = Ok (Some c) \<and>
     route_for demo_tls ''other.example.net'' = None"
proof -
  let ?m = "NewManager (Some (json_provider demo_pki demo_config)) demo_world"
  have start: "mgr_reachable (provider_inv demo_pki) (Some (json_provider demo_pki demo_config)) ?m"
    by (intro mgr_reachable.start demo_provider_inv)
  have good: "json_good demo_pki (pc_Lego demo_config) (m_pstate ?m)"
    using demo_good by (simp add: demo_config_def NewManager_def)
  have known: "\<exists>sp. supplier (provider_manager demo_pki (json_config demo_config)) (Provider r) = Ok sp" if "r \<in> set [demo_route, demo_fallback]" for r
    using that by (auto simp: demo_defs supplier_def provider_manager_def NewCertManager_def provider_suppliers_def demo_config_def)
  have "route_of_config [demo_route, demo_fallback] (Some 1) ''other.example.net'' \<noteq> None" "route_for demo_tls ''other.example.net'' = None" by code_simp+
  with configured_domains_are_served [OF start good demo_tls_update demo_Parse known] show ?thesis by blast
qed

text \<open>\<^bold>\<open>C4.\<close> The same for the whole program, started with certificates on a Redis server and in whatever state it has come to by then:
  as long as the suppliers work, Redis answers, and the other instances store key pairs that fit, the domains of a configuration that has been
  installed are served, each by the route the text gives it and with a certificate for its TLS clients.\<close>

theorem running_program_comes_to_serve:
  assumes "run_start auth_ok parseIP contains client fl i = Started r" "ru_provider r = Some p"
    and "ps_store p = RedisOpened (w_store w)" "w_next w = 0" "redis_inputs_ok P i"
    and "system_reachable auth_ok (redis_provider_inv P) (Some (setup_provider P p)) w (ru_source r) s"
    and "redis_good P (ps_lego p) (m_pstate (sy_manager s))"
    and "FileSource_update auth_ok install_routes (Ok rd) (sy_manager s) = Some (None, m1)" "Parse auth_ok rd = Ok (rs, fb)"
    and "\<And>r. r \<in> set rs \<Longrightarrow> \<exists>sp. supplier (provider_manager P (redis_setup_config p)) (Provider r) = Ok sp"
  shows "\<exists>m2. CheckCertificates m1 = Some m2 \<and>
    (\<forall>host. rel_option same_config (route_of_config rs fb host) (route_for m2 host) \<and>
      (route_of_config rs fb host \<noteq> None \<longrightarrow> (\<exists>c. CertificateForClient m2 host = Ok (Some c))))"
  by (rule redis_system_served [OF assms(6) started_redis_inv [OF assms(1-5)] assms(7-10)])

theorem running_program_comes_to_serve_witness:
  "\<exists>m2 c. CheckCertificates demo_sys_manager = Some m2 \<and> CertificateForClient m2 ''other.example.net'' = Ok (Some c) \<and>
     route_for demo_sys_manager ''other.example.net'' = None"
proof -
  let ?s = "\<lparr>sy_source = ru_source demo_running, sy_manager = NewManager (Some (setup_provider demo_pki demo_setup)) demo_fresh\<rparr>"
  have p: "ru_provider demo_running = Some demo_setup" "ps_store demo_setup = RedisOpened (w_store demo_fresh)" "w_next demo_fresh = 0"
    by (simp_all add: demo_running_def demo_setup_def demo_fresh_def)
  have good: "redis_good demo_pki (ps_lego demo_setup) (m_pstate (sy_manager ?s))"
    using demo_fresh_good by (simp add: demo_setup_def NewManager_def)
  have update: "FileSource_update auth_ok install_routes (Ok \<lparr>content = demo_text, read_error = None\<rparr>) (sy_manager ?s) = Some (None, demo_sys_manager)"
    using demo_sys_update by simp
  have known: "\<exists>sp. supplier (provider_manager demo_pki (redis_setup_config demo_setup)) (Provider r) = Ok sp" if "r \<in> set [demo_route, demo_fallback]" for r
    using that by (auto simp: demo_defs supplier_def provider_manager_def NewCertManager_def provider_suppliers_def redis_setup_config_def demo_setup_def)
  have "route_of_config [demo_route, demo_fallback] (Some 1) ''other.example.net'' \<noteq> None"
    "route_for demo_sys_manager ''other.example.net'' = None" by code_simp+
  with running_program_comes_to_serve [OF demo_start p demo_inputs_ok system_reachable.start good update demo_Parse known] show ?thesis by blast
qed







text \<open>\<^bold>\<open>C5.\<close> From the text of a configuration to the answer: once the file source has installed a configuration, and while certificates
  are checked, a request that is served is sent over plain HTTP, with its path, to an upstream of the last route in the text that lists the
  host (or of the fallback); the client gets the status of the upstream's answer, and its body unless it is an error, or 502.\<close>

theorem configured_upstream_answers:
  assumes "run_start auth_ok parseIP contains client fl i = Started r"
    and "FileSource_update auth_ok install_routes (Ok rd) m = Some (None, m1)" "(calm_step pinv)\<^sup>*\<^sup>* m1 m2"
    and "createProxy env (ru_rewriter r) (\<lambda>_. route_for m2) writer req rc = Some (Served w, rc')"
    and "w_Status writer = None" "w_Body writer = []" "ascii_print (upgradeType (req_Header req))" "\<And>n. 0 < n \<Longrightarrow> pe_intN env n < n"
    and "route_for m2 (hostForRequest req) \<noteq> None"
  shows "\<exists>rs fb route out u0 u. Parse auth_ok rd = Ok (rs, fb) \<and> route_of_config rs fb (hostForRequest req) = Some route \<and>
    req_URL req = Some u0 \<and> req_URL out = Some u \<and> url_Scheme u = ''http'' \<and> url_Host u \<in> Host ` set (Upstreams route) \<and>
    url_Path u = url_Path u0 \<and>
    (case pe_transport env proxyTransport out of
       Inl _ \<Rightarrow> w_Status w = Some 502
     | Inr res \<Rightarrow> w_Status w = Some (resp_StatusCode res) \<and>
         (resp_StatusCode res < 400 \<longrightarrow> w_Body w = (case resp_Body res of None \<Rightarrow> [] | Some b \<Rightarrow> b)))"
proof -
  obtain rs fb route out u0 u where c: "Parse auth_ok rd = Ok (rs, fb)" "route_of_config rs fb (hostForRequest req) = Some route"
    "req_URL req = Some u0" "req_URL (default_user_agent out) = Some u" "url_Scheme u = ''http''" "url_Host u \<in> Host ` set (Upstreams route)"
    "url_Path u = url_Path u0"
    and out: "RewriteRequest (route_for m2) (pe_intN env) (ru_rewriter r) req (outgoing (pe_cleanQuery env) req) = Some out"
    and st: "w_Status w = Some (case pe_transport env proxyTransport (default_user_agent out) of Inl _ \<Rightarrow> 502 | Inr res \<Rightarrow> resp_StatusCode res)"
    by (rule configured_upstream [OF assms(2-5,7) started_keeps_url [OF assms(1)] assms(8,9)])
  have "case pe_transport env proxyTransport (default_user_agent out) of
       Inl _ \<Rightarrow> w_Status w = Some 502
     | Inr res \<Rightarrow> w_Status w = Some (resp_StatusCode res) \<and>
         (resp_StatusCode res < 400 \<longrightarrow> w_Body w = (case resp_Body res of None \<Rightarrow> [] | Some b \<Rightarrow> b))"
    using st served_body [OF assms(4,7) out] assms(6) by (simp split: sum.split option.split)
  with c show ?thesis by blast
qed

theorem configured_upstream_answers_witness:
  "\<exists>w rc. plain_served = Some (Served w, rc) \<and> w_Body w = ''hello'' \<and> route_of_config [demo_route, demo_fallback] (Some 1) ''example.com'' \<noteq> None"
proof -
  obtain w rc where served: "plain_served = Some (Served w, rc)" using plain_served_200 by blast
  have facts: "w_Status empty_writer = None" "w_Body empty_writer = []" "ascii_print (upgradeType (req_Header primary_request))"
    "hostForRequest primary_request = ''example.com''" "route_for plain_manager (hostForRequest primary_request) \<noteq> None" by code_simp+
  have intN: "0 < n \<Longrightarrow> pe_intN demo_proxy_env n < n" for n by (simp add: demo_proxy_env_def)
  have tr: "pe_transport demo_proxy_env proxyTransport = upstream_answer" by (simp add: demo_proxy_env_def)
  have "createProxy demo_proxy_env (ru_rewriter demo_running) (\<lambda>_. route_for plain_manager) empty_writer primary_request NewRecorder =
      Some (Served w, rc)" using served by (simp add: plain_served_def demo_running_def)
  from configured_upstream_answers [OF demo_start plain_update rtranclp.rtrancl_refl this facts(1-3) intN facts(5)]
  show ?thesis
    using served unfolding tr facts(4) demo_Parse by (auto simp: upstream_answer_def)
qed

end
